(* ===== verification/Prelude.thy ===== *)
theory Prelude
  imports Main "HOL-Library.Word"
begin

text \<open>
  What every component shares: the machine types of the Rust sources, fallible results as
  sums (\<open>Inl\<close> an error, \<open>Inr\<close> a value) with the combinators the sources use on
  them, and the collections of rewrite rules the component theories extend.

  \<^item> \<open>res_simps\<close>: when a chain of fallible steps returns a value;
  \<^item> \<open>codec_simps\<close>: reading back what was written into account data.
\<close>

section \<open>Machine types\<close>

type_synonym u8 = "8 word"
type_synonym u16 = "16 word"
type_synonym u32 = "32 word"
type_synonym u64 = "64 word"

text \<open>An \<open>i64\<close> is kept as its 64 bits; \<open>sint\<close> reads it as two's complement.\<close>

type_synonym i64 = "64 word"

text \<open>
  An address (\<open>Address\<close> of pinocchio, \<open>Pubkey\<close> of Anchor) is a 32-byte array. It is
  kept as the 256-bit word whose little-endian bytes are the array.
\<close>

type_synonym address = "256 word"

section \<open>Fallible results\<close>

named_theorems res_simps \<open>when a fallible computation returns\<close>

named_theorems codec_simps \<open>reading back encoded account data\<close>

text \<open>
  \<open>and_then m f\<close> is \<open>m.and_then(f)\<close>, the meaning of the \<open>?\<close> operator: continue with
  the value, or return the error at once.
\<close>

definition and_then :: "'e + 'a \<Rightarrow> ('a \<Rightarrow> 'e + 'b) \<Rightarrow> 'e + 'b" where
  "and_then m f = (case m of Inl e \<Rightarrow> Inl e | Inr x \<Rightarrow> f x)"

definition ok_or :: "'a option \<Rightarrow> 'e \<Rightarrow> 'e + 'a" where
  "ok_or m e = (case m of None \<Rightarrow> Inl e | Some x \<Rightarrow> Inr x)"

definition map_err :: "('e \<Rightarrow> 'f) \<Rightarrow> 'e + 'a \<Rightarrow> 'f + 'a" where
  "map_err g m = (case m of Inl e \<Rightarrow> Inl (g e) | Inr x \<Rightarrow> Inr x)"

lemma and_then_simps [simp]:
  "and_then (Inl e) f = Inl e"
  "and_then (Inr x) f = f x"
  by (simp_all add: and_then_def)

lemma and_then_cong [fundef_cong]:
  assumes "m = m'" and "\<And>x. m' = Inr x \<Longrightarrow> f x = g x"
  shows "and_then m f = and_then m' g"
  using assms by (auto simp: and_then_def split: sum.split)

lemma and_then_Inr_iff [res_simps]:
  "and_then m f = Inr y \<longleftrightarrow> (\<exists>x. m = Inr x \<and> f x = Inr y)"
  by (cases m) auto

lemma and_then_Inl_iff:
  "and_then m f = Inl e \<longleftrightarrow> m = Inl e \<or> (\<exists>x. m = Inr x \<and> f x = Inl e)"
  by (cases m) auto

lemma ok_or_simps [simp]:
  "ok_or None e = Inl e"
  "ok_or (Some x) e = Inr x"
  by (simp_all add: ok_or_def)

lemma ok_or_Inr_iff [res_simps]: "ok_or m e = Inr x \<longleftrightarrow> m = Some x"
  by (cases m) auto

lemma map_err_Inr_iff [res_simps]: "map_err g m = Inr x \<longleftrightarrow> m = Inr x"
  by (cases m) (auto simp: map_err_def)

lemma map_err_simps [simp]:
  "map_err g (Inl e) = Inl (g e)"
  "map_err g (Inr x) = Inr x"
  by (simp_all add: map_err_def)

lemma if_Inl_Inr_iff [res_simps]:
  "(if c then Inl e else m) = Inr x \<longleftrightarrow> \<not> c \<and> m = Inr x"
  by simp

lemma Let_Inr_iff [res_simps]: "(let x = v in f x) = Inr y \<longleftrightarrow> f v = Inr y"
  by (simp add: Let_def)

section \<open>Lists\<close>

text \<open>The list with the bytes from position \<open>i\<close> on replaced by \<open>ys\<close>.\<close>

definition slice :: "nat \<Rightarrow> nat \<Rightarrow> 'a list \<Rightarrow> 'a list" where
  "slice i n xs = take n (drop i xs)"

lemma length_slice [simp]: "length (slice i n xs) = min n (length xs - i)"
  by (simp add: slice_def)

lemma slice_append_skip:
  "length xs \<le> i \<Longrightarrow> slice i n (xs @ ys) = slice (i - length xs) n ys"
  by (simp add: slice_def)

lemma slice_0_append: "length xs = n \<Longrightarrow> slice 0 n (xs @ ys) = xs"
  by (simp add: slice_def)

lemma slice_0_all: "length xs = n \<Longrightarrow> slice 0 n xs = xs"
  by (simp add: slice_def)

lemmas slice_simps = slice_append_skip slice_0_append slice_0_all

lemma list_two_at: "length bs = n + 2 \<Longrightarrow> drop n bs = [bs ! n, bs ! Suc n]"
  by (simp add: Cons_nth_drop_Suc [symmetric])

lemma take_slice_append: "slice i n bs @ drop (i + n) bs = drop i bs"
  by (simp add: slice_def) (metis add.commute append_take_drop_id drop_drop)

section \<open>Sums over a finite set with one changed point\<close>

lemma sum_change_point:
  fixes f g :: "'a \<Rightarrow> nat"
  assumes "finite A" and "a \<in> A" and "\<And>x. x \<in> A \<Longrightarrow> x \<noteq> a \<Longrightarrow> f x = g x"
  shows "sum f A + g a = sum g A + f a"
proof -
  have "sum f (A - {a}) = sum g (A - {a})"
    using assms(3) by (intro sum.cong) auto
  moreover have "sum f A = f a + sum f (A - {a})"
    using assms(1,2) by (rule sum.remove)
  moreover have "sum g A = g a + sum g (A - {a})"
    using assms(1,2) by (rule sum.remove)
  ultimately show ?thesis by simp
qed

end
