(* ===== verification/Rust_Int.thy ===== *)
theory Rust_Int
  imports Prelude "HOL-Library.Signed_Division"
begin

text \<open>
  The integer operations of Rust's standard library that the programs call: checked,
  saturating and truncating arithmetic at the width of the type, and the little-endian byte
  conversions \<open>to_le_bytes\<close> and \<open>from_le_bytes\<close> with their round trips. The
  lemmas read each operation in \<open>nat\<close> or \<open>int\<close>, where the component proofs compute.
\<close>

unbundle bit_operations_syntax

section \<open>Checked arithmetic on unsigned words\<close>

definition checked_add :: "'a::len word \<Rightarrow> 'a word \<Rightarrow> 'a word option" where
  "checked_add a b = (if unat a + unat b < 2 ^ LENGTH('a) then Some (a + b) else None)"

definition checked_sub :: "'a::len word \<Rightarrow> 'a word \<Rightarrow> 'a word option" where
  "checked_sub a b = (if b \<le> a then Some (a - b) else None)"

definition checked_mul :: "'a::len word \<Rightarrow> 'a word \<Rightarrow> 'a word option" where
  "checked_mul a b = (if unat a * unat b < 2 ^ LENGTH('a) then Some (a * b) else None)"

definition checked_pow :: "'a::len word \<Rightarrow> u32 \<Rightarrow> 'a word option" where
  "checked_pow a e =
     (if unat a ^ unat e < 2 ^ LENGTH('a) then Some (a ^ unat e) else None)"

lemma checked_add_Some_iff [res_simps]:
  fixes a b c :: "'a::len word"
  shows "checked_add a b = Some c \<longleftrightarrow> unat c = unat a + unat b"
proof
  assume "checked_add a b = Some c"
  then show "unat c = unat a + unat b"
    by (auto simp: checked_add_def unat_word_ariths split: if_splits)
next
  assume c: "unat c = unat a + unat b"
  have "unat a + unat b < 2 ^ LENGTH('a)"
    by (rule ord_eq_less_trans [OF c [symmetric] unsigned_less])
  moreover from this have "unat (a + b) = unat c"
    by (simp add: unat_word_ariths c)
  ultimately show "checked_add a b = Some c"
    unfolding checked_add_def word_unat_eq_iff by (simp add: word_unat_eq_iff)
qed

lemma checked_sub_Some_iff [res_simps]:
  fixes a b c :: "'a::len word"
  shows "checked_sub a b = Some c \<longleftrightarrow> unat a = unat c + unat b"
proof -
  have "b \<le> a \<Longrightarrow> unat (a - b) = unat a - unat b"
    by (rule unat_sub)
  then show ?thesis
    by (auto simp: checked_sub_def word_le_nat_alt unat_sub word_unat_eq_iff)
qed

lemma checked_mul_Some_iff [res_simps]:
  fixes a b c :: "'a::len word"
  shows "checked_mul a b = Some c \<longleftrightarrow> unat c = unat a * unat b"
proof
  assume "checked_mul a b = Some c"
  then show "unat c = unat a * unat b"
    by (auto simp: checked_mul_def unat_word_ariths split: if_splits)
next
  assume c: "unat c = unat a * unat b"
  have "unat a * unat b < 2 ^ LENGTH('a)"
    by (rule ord_eq_less_trans [OF c [symmetric] unsigned_less])
  moreover from this have "unat (a * b) = unat c"
    by (simp add: unat_word_ariths c)
  ultimately show "checked_mul a b = Some c"
    unfolding checked_mul_def word_unat_eq_iff by (simp add: word_unat_eq_iff)
qed

lemma unat_power_lt:
  fixes a :: "'a::len word"
  assumes "unat a ^ n < 2 ^ LENGTH('a)"
  shows "unat (a ^ n) = unat a ^ n"
proof -
  have "a ^ n = word_of_nat (unat a ^ n)"
    by simp
  then have "unat (a ^ n) = unat a ^ n mod 2 ^ LENGTH('a)"
    by (metis unat_of_nat)
  with assms show ?thesis by simp
qed

lemma checked_pow_Some_iff [res_simps]:
  fixes a c :: "'a::len word"
  shows "checked_pow a e = Some c \<longleftrightarrow> unat c = unat a ^ unat e"
proof
  assume "checked_pow a e = Some c"
  then show "unat c = unat a ^ unat e"
    by (auto simp: checked_pow_def unat_power_lt split: if_splits)
next
  assume c: "unat c = unat a ^ unat e"
  have "unat a ^ unat e < 2 ^ LENGTH('a)"
    by (rule ord_eq_less_trans [OF c [symmetric] unsigned_less])
  moreover from this have "unat (a ^ unat e) = unat c"
    by (simp add: unat_power_lt c)
  ultimately show "checked_pow a e = Some c"
    unfolding checked_pow_def word_unat_eq_iff by (simp add: word_unat_eq_iff)
qed

text \<open>\<open>saturating_add\<close>: the sum, or the greatest value of the type.\<close>

definition saturating_add :: "'a::len word \<Rightarrow> 'a word \<Rightarrow> 'a word" where
  "saturating_add a b = (case checked_add a b of None \<Rightarrow> - 1 | Some c \<Rightarrow> c)"

lemma unat_saturating_add:
  fixes a b :: "'a::len word"
  shows "unat (saturating_add a b) = min (2 ^ LENGTH('a) - 1) (unat a + unat b)"
proof -
  have "unat (- 1 :: 'a word) = 2 ^ LENGTH('a) - 1"
    by (simp add: unsigned_minus_1_eq_mask mask_eq_exp_minus_1)
  then show ?thesis
    by (auto simp: saturating_add_def checked_add_def unat_word_ariths)
qed

text \<open>A widening cast keeps the value.\<close>

lemma unat_ucast_widen:
  fixes w :: "'a::len word"
  assumes "LENGTH('a) \<le> LENGTH('b)"
  shows "unat (ucast w :: 'b::len word) = unat w"
proof -
  have "unat w < 2 ^ LENGTH('b)"
    using unsigned_less [of w] power_increasing [OF assms, of "2 :: nat"]
    by (rule less_le_trans) simp
  then show ?thesis
    by (simp add: unsigned_ucast_eq take_bit_nat_eq_self)
qed

lemma sint_ucast_widen:
  fixes w :: "'a::len word"
  assumes "LENGTH('a) < LENGTH('b)"
  shows "sint (ucast w :: 'b::len word) = int (unat w)"
proof -
  have le: "LENGTH('a) \<le> LENGTH('b) - 1" and le': "LENGTH('a) \<le> LENGTH('b)"
    using assms by simp_all
  have "unat w < 2 ^ (LENGTH('b) - 1)"
    using unsigned_less [of w] power_increasing [OF le, of "2 :: nat"]
    by (rule less_le_trans) simp
  then have "int (unat w) < 2 ^ (LENGTH('b) - 1)"
    by (metis of_nat_less_iff of_nat_numeral of_nat_power)
  moreover have "- (2 ^ (LENGTH('b) - 1)) \<le> int (unat w)"
    by (rule order_trans [of _ 0]) simp_all
  ultimately have "signed_take_bit (LENGTH('b) - Suc 0) (int (unat w)) = int (unat w)"
    unfolding One_nat_def by (rule signed_take_bit_int_eq_self [rotated])
  moreover have "uint (ucast w :: 'b word) = int (unat w)"
    using unat_ucast_widen [OF le', of w] by (metis uint_nat)
  ultimately show ?thesis
    by (simp only: sint_uint)
qed

section \<open>Signed arithmetic\<close>

text \<open>The bounds of \<open>i64\<close>.\<close>

definition i64_MIN :: int where "i64_MIN = - (2 ^ 63)"

definition i64_MAX :: int where "i64_MAX = 2 ^ 63 - 1"

text \<open>\<open>i64::saturating_sub\<close>: the difference, clamped to the bounds of the type.\<close>

definition saturating_sub_i64 :: "i64 \<Rightarrow> i64 \<Rightarrow> i64" where
  "saturating_sub_i64 a b =
     word_of_int (max i64_MIN (min i64_MAX (sint a - sint b)))"

text \<open>
  The \<open>/\<close> operator of \<open>i64\<close> truncates towards zero. (A zero divisor panics; every
  division in the sources is by a non-zero constant.)
\<close>

definition div_i64 :: "i64 \<Rightarrow> i64 \<Rightarrow> i64" where
  "div_i64 a b = word_of_int (sint a sdiv sint b)"

lemma sint_i64_bounds: "i64_MIN \<le> sint (a :: i64)" "sint (a :: i64) \<le> i64_MAX"
  using sint_greater_eq [of a] sint_less [of a] by (simp_all add: i64_MIN_def i64_MAX_def)

lemma sint_word_of_int_i64:
  assumes "i64_MIN \<le> x" and "x \<le> i64_MAX"
  shows "sint (word_of_int x :: i64) = x"
  using assms
  by (simp add: i64_MIN_def i64_MAX_def sint_sbintrunc' signed_take_bit_int_eq_self)

lemma sint_saturating_sub_i64:
  "sint (saturating_sub_i64 a b) = max i64_MIN (min i64_MAX (sint a - sint b))"
  unfolding saturating_sub_i64_def
  by (rule sint_word_of_int_i64) (simp_all add: i64_MIN_def i64_MAX_def)

lemma div_le_self_int:
  fixes x d :: int
  assumes "0 \<le> x" and "0 < d"
  shows "x div d \<le> x"
  using zdiv_mono2 [of x 1 d] assms by simp

lemma sdiv_nonneg:
  fixes x d :: int
  assumes "0 \<le> x" and "0 < d"
  shows "x sdiv d = x div d"
  using assms by (cases "x = 0") (simp_all add: signed_divide_int_def)

lemma sdiv_neg_le:
  fixes x d :: int
  assumes "x < 0" and "0 < d"
  shows "x sdiv d \<le> 0"
  using assms by (simp add: signed_divide_int_def pos_imp_zdiv_nonneg_iff)

lemma sdiv_pos_bounds:
  fixes x d :: int
  assumes "0 < d"
  shows "- \<bar>x\<bar> \<le> x sdiv d" and "x sdiv d \<le> \<bar>x\<bar>"
proof -
  have "\<bar>x\<bar> div d \<le> \<bar>x\<bar>" and "0 \<le> \<bar>x\<bar> div d"
    using assms by (simp_all add: pos_imp_zdiv_nonneg_iff div_le_self_int)
  then show "- \<bar>x\<bar> \<le> x sdiv d" and "x sdiv d \<le> \<bar>x\<bar>"
    using assms by (auto simp: signed_divide_int_def sgn_if)
qed

lemma sint_div_i64:
  assumes "0 < sint b"
  shows "sint (div_i64 a b) = sint a sdiv sint b"
proof -
  have "\<bar>sint a sdiv sint b\<bar> \<le> \<bar>sint a\<bar>"
    using sdiv_pos_bounds [OF assms, of "sint a"] by simp
  moreover have "sint a sdiv sint b \<le> max 0 (sint a)"
    using assms div_le_self_int [of "sint a" "sint b"]
    by (auto simp: signed_divide_int_def sgn_if pos_imp_zdiv_nonneg_iff)
  ultimately have "i64_MIN \<le> sint a sdiv sint b" and "sint a sdiv sint b \<le> i64_MAX"
    using sint_i64_bounds [of a] by (auto simp: i64_MIN_def i64_MAX_def)
  then show ?thesis
    unfolding div_i64_def by (rule sint_word_of_int_i64)
qed

section \<open>Little-endian bytes\<close>

text \<open>
  \<open>to_le_bytes n w\<close> gives \<open>n\<close> bytes, least significant first (\<open>n\<close> is 8 for
  \<open>u64\<close> and \<open>i64\<close>, 32 for an address); \<open>from_le_bytes\<close> is its inverse.
\<close>

fun to_le_bytes :: "nat \<Rightarrow> 'a::len word \<Rightarrow> u8 list" where
  "to_le_bytes 0 w = []"
| "to_le_bytes (Suc n) w = ucast w # to_le_bytes n (drop_bit 8 w)"

fun from_le_bytes :: "u8 list \<Rightarrow> 'a::len word" where
  "from_le_bytes [] = 0"
| "from_le_bytes (b # bs) = ucast b OR push_bit 8 (from_le_bytes bs)"

lemma length_to_le_bytes [simp]: "length (to_le_bytes n w) = n"
  by (induction n arbitrary: w) auto

lemma from_to_le_bytes_take:
  "from_le_bytes (to_le_bytes n w) = take_bit (8 * n) (w :: 'a::len word)"
proof (induction n arbitrary: w)
  case 0
  show ?case by simp
next
  case (Suc n)
  show ?case by (rule bit_eqI) (auto simp: Suc bit_simps)
qed

lemma from_to_le_bytes [codec_simps]:
  fixes w :: "'a::len word"
  assumes "LENGTH('a) \<le> 8 * n"
  shows "from_le_bytes (to_le_bytes n w) = w"
  unfolding from_to_le_bytes_take
  using assms by (intro bit_eqI) (auto simp: bit_simps dest: bit_imp_le_length)

lemma bit_from_le_bytes_le:
  "bit (from_le_bytes bs :: 'a::len word) i \<Longrightarrow> i < 8 * length bs"
proof (induction bs arbitrary: i)
  case Nil
  then show ?case by simp
next
  case (Cons b bs)
  from Cons.prems consider "i < 8" | "8 \<le> i" "bit (from_le_bytes bs :: 'a word) (i - 8)"
    by (auto simp: bit_simps dest: bit_imp_le_length)
  then show ?case
    by cases (auto dest: Cons.IH)
qed

lemma to_from_le_bytes:
  assumes "8 * length bs \<le> LENGTH('a)"
  shows "to_le_bytes (length bs) (from_le_bytes bs :: 'a::len word) = bs"
  using assms
proof (induction bs)
  case Nil
  show ?case by simp
next
  case (Cons b bs)
  let ?r = "from_le_bytes bs :: 'a word"
  have "ucast (ucast b OR push_bit 8 ?r) = b"
    using Cons.prems by (intro bit_eqI) (auto simp: bit_simps)
  moreover have "drop_bit 8 (ucast b OR push_bit 8 ?r) = ?r"
    using Cons.prems
    by (intro bit_eqI)
      (auto simp: bit_simps dest: bit_imp_le_length bit_from_le_bytes_le)
  ultimately show ?case
    using Cons by simp
qed

text \<open>The bytes of an address, \<open>Address::as_ref\<close> and \<open>as_array\<close>.\<close>

definition address_bytes :: "address \<Rightarrow> u8 list" where
  "address_bytes a = to_le_bytes 32 a"

lemma address_bytes_inject: "address_bytes a = address_bytes b \<longleftrightarrow> a = b"
proof
  assume "address_bytes a = address_bytes b"
  then have "from_le_bytes (address_bytes a) = (from_le_bytes (address_bytes b) :: address)"
    by simp
  then show "a = b"
    by (simp add: address_bytes_def from_to_le_bytes)
qed simp

lemma length_address_bytes [simp]: "length (address_bytes a) = 32"
  by (simp add: address_bytes_def)

end
