(* ===== verification/Solana.thy ===== *)
theory Solana
  imports Rust_Int
begin

text \<open>
  The world an on-chain program runs in: account memory, the views an instruction receives,
  the errors it returns, and the operations of other programs and libraries it calls.

  Account memory is a total map from addresses to accounts (an address nobody has used holds
  the empty account of the system program). Everything the programs call that is not in this
  repository is a field of the record \<open>runtime\<close>, an argument of every definition that
  uses it: the crates pinocchio, pinocchio-token, pinocchio-system,
  pinocchio-associated-token-account and pinocchio-pubkey, and the sysvars. What their
  documentation promises is stated as the predicates at the end; a theorem that relies on
  one of them has it as a hypothesis.
\<close>

section \<open>Errors and outcomes\<close>

text \<open>The error codes of \<open>pinocchio::error::ProgramError\<close>.\<close>

datatype program_error =
    Custom u32
  | InvalidArgument
  | InvalidInstructionData
  | InvalidAccountData
  | AccountDataTooSmall
  | InsufficientFunds
  | IncorrectProgramId
  | MissingRequiredSignature
  | AccountAlreadyInitialized
  | UninitializedAccount
  | NotEnoughAccountKeys
  | AccountBorrowFailed
  | MaxSeedLengthExceeded
  | InvalidSeeds
  | UnsupportedSysvar
  | IllegalOwner
  | InvalidRealloc
  | ArithmeticOverflow
  | IncorrectAuthority

text \<open>
  How an instruction can fail: it returns an error, it panics (a failed \<open>assert_eq!\<close>, an
  index out of range), or it reads memory outside its instruction data through a raw pointer.
\<close>

datatype fault = Err program_error | Panic | Out_Of_Bounds_Read

type_synonym 'a res = "fault + 'a"

section \<open>Account memory\<close>

record account =
  acc_lamports :: u64
  acc_owner :: address
  acc_data :: "u8 list"

type_synonym ledger = "address \<Rightarrow> account"

text \<open>The system program's address, thirty-two zero bytes.\<close>

definition system_program_ID :: address where
  "system_program_ID = 0"

definition closed_account :: account where
  "closed_account = \<lparr>acc_lamports = 0, acc_owner = system_program_ID, acc_data = []\<rparr>"

text \<open>
  \<open>AccountView\<close>: what an instruction is given for one account. Balance, owner and data are
  read from account memory at the time of the read, so two views of one address see each
  other's writes, as on chain.
\<close>

record account_view =
  av_address :: address
  av_is_signer :: bool

definition owned_by :: "ledger \<Rightarrow> account_view \<Rightarrow> address \<Rightarrow> bool" where
  "owned_by L v p \<longleftrightarrow> acc_owner (L (av_address v)) = p"

definition lamports_of :: "ledger \<Rightarrow> account_view \<Rightarrow> u64" where
  "lamports_of L v = acc_lamports (L (av_address v))"

definition set_lamports :: "ledger \<Rightarrow> account_view \<Rightarrow> u64 \<Rightarrow> ledger" where
  "set_lamports L v n = L(av_address v := (L (av_address v))\<lparr>acc_lamports := n\<rparr>)"

definition data_of :: "ledger \<Rightarrow> account_view \<Rightarrow> u8 list" where
  "data_of L v = acc_data (L (av_address v))"

definition set_data :: "ledger \<Rightarrow> account_view \<Rightarrow> u8 list \<Rightarrow> ledger" where
  "set_data L v bs = L(av_address v := (L (av_address v))\<lparr>acc_data := bs\<rparr>)"

lemmas account_access_defs =
  owned_by_def lamports_of_def set_lamports_def data_of_def set_data_def

section \<open>The runtime and the programs called\<close>

text \<open>The fields of a token account the programs read through \<open>Account::from_account_view\<close>.\<close>

record token_account =
  ta_mint :: address
  ta_owner :: address
  ta_amount :: u64

text \<open>A byte string literal \<open>b"..."\<close>.\<close>

definition byte_string :: "string \<Rightarrow> u8 list" where
  "byte_string s = map of_char s"

text \<open>One signer of \<open>invoke_signed\<close> is the list of its seeds.\<close>

type_synonym signer_seeds = "u8 list list"

record runtime =
  derive_address :: "u8 list list \<Rightarrow> address \<Rightarrow> address"
  clock_unix_timestamp :: "i64 res"
  rent_minimum_balance :: "nat \<Rightarrow> u64 res"
  token_program_ID :: address
  native_mint_ID :: address
  token_account_view :: "address \<Rightarrow> u8 list \<Rightarrow> token_account res"
  mint_decimals :: "address \<Rightarrow> u8 list \<Rightarrow> u8 res"
  system_create_account ::
    "account_view \<Rightarrow> account_view \<Rightarrow> u64 \<Rightarrow> u64 \<Rightarrow> address \<Rightarrow> signer_seeds list \<Rightarrow> ledger \<Rightarrow> ledger res"
  ata_create ::
    "account_view \<Rightarrow> account_view \<Rightarrow> account_view \<Rightarrow> account_view \<Rightarrow> account_view \<Rightarrow> account_view \<Rightarrow> ledger \<Rightarrow> ledger res"
  token_transfer ::
    "account_view \<Rightarrow> account_view \<Rightarrow> account_view \<Rightarrow> u64 \<Rightarrow> signer_seeds list \<Rightarrow> ledger \<Rightarrow> ledger res"
  token_close_account ::
    "account_view \<Rightarrow> account_view \<Rightarrow> account_view \<Rightarrow> signer_seeds list \<Rightarrow> ledger \<Rightarrow> ledger res"
  account_close :: "account_view \<Rightarrow> ledger \<Rightarrow> ledger res"

text \<open>
  \<open>pinocchio_token::state::Account::from_account_view\<close> and \<open>Mint::from_account_view\<close>
  read an account's owner and data.
\<close>

definition token_account_of :: "runtime \<Rightarrow> account \<Rightarrow> token_account res" where
  "token_account_of rt a = token_account_view rt (acc_owner a) (acc_data a)"

definition token_account_at :: "runtime \<Rightarrow> ledger \<Rightarrow> account_view \<Rightarrow> token_account res" where
  "token_account_at rt L v = token_account_of rt (L (av_address v))"

definition mint_decimals_at :: "runtime \<Rightarrow> ledger \<Rightarrow> account_view \<Rightarrow> u8 res" where
  "mint_decimals_at rt L v = mint_decimals rt (acc_owner (L (av_address v))) (data_of L v)"

section \<open>What the documentation of the called programs promises\<close>

definition unchanged_except :: "address set \<Rightarrow> ledger \<Rightarrow> ledger \<Rightarrow> bool" where
  "unchanged_except A L L' \<longleftrightarrow> (\<forall>a. a \<notin> A \<longrightarrow> L' a = L a)"

text \<open>Only the balance may differ.\<close>

definition same_state :: "account \<Rightarrow> account \<Rightarrow> bool" where
  "same_state a b \<longleftrightarrow> acc_owner a = acc_owner b \<and> acc_data a = acc_data b"

text \<open>A token account belongs to the token program, which is not the system program.\<close>

definition token_view_law :: "runtime \<Rightarrow> bool" where
  "token_view_law rt \<longleftrightarrow>
     token_program_ID rt \<noteq> system_program_ID \<and>
     (\<forall>a t. token_account_of rt a = Inr t \<longrightarrow> acc_owner a = token_program_ID rt)"

text \<open>
  System program, \<open>CreateAccount\<close>: the payer signs, itself or through the signer seeds of
  the calling program (which creates accounts for itself, so the caller is the new owner); the
  new account was an empty account of the system program and becomes a zeroed account of the
  requested size and owner; the payer pays, and cannot be the account that now has data.
\<close>

definition create_account_law :: "runtime \<Rightarrow> bool" where
  "create_account_law rt \<longleftrightarrow>
     (\<forall>from to n space own signers L L'.
        system_create_account rt from to n space own signers L = Inr L' \<longrightarrow>
          (av_is_signer from \<or>
             (\<exists>seeds\<in>set signers. derive_address rt seeds own = av_address from)) \<and>
          (space \<noteq> 0 \<longrightarrow> av_address from \<noteq> av_address to) \<and>
          acc_owner (L (av_address to)) = system_program_ID \<and>
          acc_data (L (av_address to)) = [] \<and>
          unchanged_except {av_address from, av_address to} L L' \<and>
          L' (av_address to) =
            \<lparr>acc_lamports = n, acc_owner = own, acc_data = replicate (unat space) 0\<rparr> \<and>
          (av_address from \<noteq> av_address to \<longrightarrow>
             same_state (L' (av_address from)) (L (av_address from))))"

text \<open>
  Associated token program, \<open>Create\<close>: the account was a system account and becomes an
  empty token account of the wallet for the mint.
\<close>

definition ata_create_law :: "runtime \<Rightarrow> bool" where
  "ata_create_law rt \<longleftrightarrow>
     (\<forall>payer acct wallet mint tp sp L L'.
        ata_create rt payer acct wallet mint tp sp L = Inr L' \<longrightarrow>
          acc_owner (L (av_address acct)) = system_program_ID \<and>
          unchanged_except {av_address payer, av_address acct} L L' \<and>
          token_account_of rt (L' (av_address acct)) =
            Inr \<lparr>ta_mint = av_address mint, ta_owner = av_address wallet, ta_amount = 0\<rparr> \<and>
          (av_address payer \<noteq> av_address acct \<longrightarrow>
             same_state (L' (av_address payer)) (L (av_address payer))))"

text \<open>
  Token program, \<open>Transfer\<close>: both accounts hold the same mint, the source has the amount,
  and the amount moves. A transfer of an account to itself changes no balance.
\<close>

definition token_transfer_law :: "runtime \<Rightarrow> bool" where
  "token_transfer_law rt \<longleftrightarrow>
     (\<forall>from to auth n signers L L'.
        token_transfer rt from to auth n signers L = Inr L' \<longrightarrow>
          unchanged_except {av_address from, av_address to} L L' \<and>
          (\<exists>s d. token_account_at rt L from = Inr s \<and> token_account_at rt L to = Inr d \<and>
             ta_mint s = ta_mint d \<and> n \<le> ta_amount s \<and>
             (if av_address from = av_address to then token_account_at rt L' from = Inr s
              else unat (ta_amount d) + unat n < 2 ^ 64 \<and>
                token_account_at rt L' from = Inr (s\<lparr>ta_amount := ta_amount s - n\<rparr>) \<and>
                token_account_at rt L' to = Inr (d\<lparr>ta_amount := ta_amount d + n\<rparr>))))"

text \<open>
  Token program, \<open>CloseAccount\<close>: only an account with no tokens can be closed (an
  account of the native mint excepted), its lamports go to the destination.
\<close>

definition token_close_law :: "runtime \<Rightarrow> bool" where
  "token_close_law rt \<longleftrightarrow>
     (\<forall>acct dest auth signers L L'.
        token_close_account rt acct dest auth signers L = Inr L' \<longrightarrow>
          (\<exists>t. token_account_at rt L acct = Inr t \<and>
             (ta_amount t = 0 \<or> ta_mint t = native_mint_ID rt)) \<and>
          av_address acct \<noteq> av_address dest \<and>
          unchanged_except {av_address acct, av_address dest} L L' \<and>
          L' (av_address acct) = closed_account \<and>
          same_state (L' (av_address dest)) (L (av_address dest)) \<and>
          unat (lamports_of L' dest) = unat (lamports_of L dest) + unat (lamports_of L acct))"

text \<open>\<open>AccountView::close\<close> empties the account and gives it back to the system program.\<close>

definition account_close_law :: "runtime \<Rightarrow> bool" where
  "account_close_law rt \<longleftrightarrow>
     (\<forall>v L L'. account_close rt v L = Inr L' \<longrightarrow> L' = L(av_address v := closed_account))"

definition documented_runtime :: "runtime \<Rightarrow> bool" where
  "documented_runtime rt \<longleftrightarrow>
     token_view_law rt \<and> create_account_law rt \<and> ata_create_law rt \<and>
     token_transfer_law rt \<and> token_close_law rt \<and> account_close_law rt"

end
