(* ===== verification/Token_Ledger.thy ===== *)
theory Token_Ledger
  imports Solana
begin

text \<open>
  Reasoning about account memory: which accounts each call of the runtime can touch, and the
  number of tokens an owner holds over all token accounts, \<open>tokens_held\<close>, which every call
  changes in a known way. The component theories use these lemmas and never unfold the laws.
\<close>

section \<open>Frames\<close>

lemma same_state_refl [simp, intro]: "same_state a a"
  by (simp add: same_state_def)

lemma same_state_trans: "same_state a b \<Longrightarrow> same_state b c \<Longrightarrow> same_state a c"
  by (simp add: same_state_def)

lemma same_state_token: "same_state a b \<Longrightarrow> token_account_of rt a = token_account_of rt b"
  by (simp add: same_state_def token_account_of_def)

lemma same_state_ownerD: "same_state a b \<Longrightarrow> acc_owner a = acc_owner b"
  by (simp add: same_state_def)

lemma same_state_dataD: "same_state a b \<Longrightarrow> acc_data a = acc_data b"
  by (simp add: same_state_def)

lemma token_owner:
  assumes "documented_runtime rt" and "token_account_of rt a = Inr t"
  shows "acc_owner a = token_program_ID rt"
  using assms by (auto simp: documented_runtime_def token_view_law_def)

lemma token_program_not_system:
  "documented_runtime rt \<Longrightarrow> token_program_ID rt \<noteq> system_program_ID"
  by (simp add: documented_runtime_def token_view_law_def)

text \<open>A transfer touches token accounts only.\<close>

lemma transfer_views:
  assumes "documented_runtime rt" and "token_transfer rt from to auth n signers L = Inr L'"
  obtains s d where "token_account_at rt L from = Inr s" and "token_account_at rt L to = Inr d"
    and "ta_mint s = ta_mint d" and "n \<le> ta_amount s"
    and "unchanged_except {av_address from, av_address to} L L'"
    and "av_address from = av_address to \<Longrightarrow> token_account_at rt L' from = Inr s"
    and "av_address from \<noteq> av_address to \<Longrightarrow>
           unat (ta_amount d) + unat n < 2 ^ 64 \<and>
           token_account_at rt L' from = Inr (s\<lparr>ta_amount := ta_amount s - n\<rparr>) \<and>
           token_account_at rt L' to = Inr (d\<lparr>ta_amount := ta_amount d + n\<rparr>)"
proof -
  from assms obtain s d where
    "unchanged_except {av_address from, av_address to} L L'"
    "token_account_at rt L from = Inr s" "token_account_at rt L to = Inr d"
    "ta_mint s = ta_mint d" "n \<le> ta_amount s"
    "if av_address from = av_address to then token_account_at rt L' from = Inr s
     else unat (ta_amount d) + unat n < 2 ^ 64 \<and>
       token_account_at rt L' from = Inr (s\<lparr>ta_amount := ta_amount s - n\<rparr>) \<and>
       token_account_at rt L' to = Inr (d\<lparr>ta_amount := ta_amount d + n\<rparr>)"
    unfolding documented_runtime_def token_transfer_law_def by blast
  then show ?thesis
    by (intro that [of s d]) (simp_all split: if_splits)
qed

lemma transfer_keeps:
  assumes "documented_runtime rt" and "token_transfer rt from to auth n signers L = Inr L'"
    and "acc_owner (L a) \<noteq> token_program_ID rt"
  shows "L' a = L a"
proof -
  from assms(1,2) obtain s d where
    s: "token_account_at rt L from = Inr s" and d: "token_account_at rt L to = Inr d"
    and u: "unchanged_except {av_address from, av_address to} L L'"
    by (rule transfer_views)
  have "a \<noteq> av_address from" and "a \<noteq> av_address to"
    using assms(1,3) s d by (auto simp: token_account_at_def dest: token_owner)
  with u show ?thesis by (simp add: unchanged_except_def)
qed

lemma transfer_owner:
  assumes "documented_runtime rt" and "token_transfer rt from to auth n signers L = Inr L'"
  shows "acc_owner (L' a) = acc_owner (L a)"
proof -
  from assms obtain s d where
    s: "token_account_at rt L from = Inr s" and d: "token_account_at rt L to = Inr d"
    and u: "unchanged_except {av_address from, av_address to} L L'"
    and eq: "av_address from = av_address to \<Longrightarrow> token_account_at rt L' from = Inr s"
    and ne: "av_address from \<noteq> av_address to \<Longrightarrow>
       unat (ta_amount d) + unat n < 2 ^ 64 \<and>
       token_account_at rt L' from = Inr (s\<lparr>ta_amount := ta_amount s - n\<rparr>) \<and>
       token_account_at rt L' to = Inr (d\<lparr>ta_amount := ta_amount d + n\<rparr>)"
    by (rule transfer_views) blast
  have "acc_owner (L' x) = token_program_ID rt \<and> acc_owner (L x) = token_program_ID rt"
    if "x \<in> {av_address from, av_address to}" for x
    using that s d eq ne token_owner [OF assms(1)]
    by (cases "av_address from = av_address to") (auto simp: token_account_at_def)
  with u show ?thesis
    by (cases "a \<in> {av_address from, av_address to}") (auto simp: unchanged_except_def)
qed

text \<open>No token account changes owner or mint over a transfer.\<close>

lemma transfer_token_account:
  assumes "documented_runtime rt" and "token_transfer rt from to auth n signers L = Inr L'"
    and "token_account_at rt L v = Inr t"
  obtains k where "token_account_at rt L' v = Inr (t\<lparr>ta_amount := k\<rparr>)"
proof -
  from assms(1,2) obtain s d where sd: "token_account_at rt L from = Inr s"
    "token_account_at rt L to = Inr d"
    and u: "unchanged_except {av_address from, av_address to} L L'"
    and eq: "av_address from = av_address to \<Longrightarrow> token_account_at rt L' from = Inr s"
    and ne: "av_address from \<noteq> av_address to \<Longrightarrow>
       unat (ta_amount d) + unat n < 2 ^ 64 \<and>
       token_account_at rt L' from = Inr (s\<lparr>ta_amount := ta_amount s - n\<rparr>) \<and>
       token_account_at rt L' to = Inr (d\<lparr>ta_amount := ta_amount d + n\<rparr>)"
    by (rule transfer_views) blast
  have view: "token_account_at rt M v = token_account_at rt M w" if "av_address v = av_address w" for M v w
    using that by (simp add: token_account_at_def)
  have same: "t = t\<lparr>ta_amount := ta_amount t\<rparr>" by simp
  consider "av_address v = av_address from" | "av_address v = av_address to"
    | "av_address v \<noteq> av_address from" "av_address v \<noteq> av_address to" by blast
  then show ?thesis
  proof cases
    case 1
    then show ?thesis
      using that same sd(1) eq ne view [OF 1] assms(3)
      by (cases "av_address from = av_address to") (metis sum.inject(2))+
  next
    case 2
    then show ?thesis
      using that same sd eq ne view [OF 2] assms(3) view
      by (cases "av_address from = av_address to") (metis sum.inject(2))+
  next
    case 3
    then have "token_account_at rt L' v = Inr t"
      using u assms(3) by (simp add: unchanged_except_def token_account_at_def)
    with that same show ?thesis by metis
  qed
qed

lemma transfer_other_account:
  assumes "documented_runtime rt" and "token_transfer rt from to auth n signers L = Inr L'"
    and "a \<noteq> av_address from" and "a \<noteq> av_address to"
  shows "L' a = L a"
proof -
  from assms(1,2) have "unchanged_except {av_address from, av_address to} L L'"
    by (rule transfer_views)
  with assms(3,4) show ?thesis by (simp add: unchanged_except_def)
qed

text \<open>Creating an account touches one empty system account and the payer's balance.\<close>

lemma create_keeps:
  assumes "documented_runtime rt"
    and "system_create_account rt from to n space own signers L = Inr L'"
    and "a \<noteq> av_address to"
  shows "same_state (L' a) (L a)"
  using assms
  unfolding documented_runtime_def create_account_law_def unchanged_except_def
  by (cases "a = av_address from") (blast, metis insert_iff empty_iff same_state_refl)

lemma create_result:
  assumes "documented_runtime rt"
    and "system_create_account rt from to n space own signers L = Inr L'"
  shows "acc_owner (L (av_address to)) = system_program_ID"
    and "acc_data (L (av_address to)) = []"
    and "L' (av_address to) =
      \<lparr>acc_lamports = n, acc_owner = own, acc_data = replicate (unat space) 0\<rparr>"
  using assms unfolding documented_runtime_def create_account_law_def by blast+

lemma create_signed:
  assumes "documented_runtime rt"
    and "system_create_account rt from to n space own signers L = Inr L'"
  shows "av_is_signer from \<or>
      (\<exists>seeds\<in>set signers. derive_address rt seeds own = av_address from)"
    and "space \<noteq> 0 \<Longrightarrow> av_address from \<noteq> av_address to"
  using assms unfolding documented_runtime_def create_account_law_def by blast+

lemma ata_keeps:
  assumes "documented_runtime rt" and "ata_create rt payer acct wallet mint tp sp L = Inr L'"
    and "a \<noteq> av_address acct"
  shows "same_state (L' a) (L a)"
  using assms
  unfolding documented_runtime_def ata_create_law_def unchanged_except_def
  by (cases "a = av_address payer") (blast, metis insert_iff empty_iff same_state_refl)

lemma ata_result:
  assumes "documented_runtime rt" and "ata_create rt payer acct wallet mint tp sp L = Inr L'"
  shows "acc_owner (L (av_address acct)) = system_program_ID"
    and "token_account_of rt (L' (av_address acct)) =
      Inr \<lparr>ta_mint = av_address mint, ta_owner = av_address wallet, ta_amount = 0\<rparr>"
  using assms unfolding documented_runtime_def ata_create_law_def by blast+

lemma token_close_views:
  assumes "documented_runtime rt" and "token_close_account rt acct dest auth signers L = Inr L'"
  obtains t where "token_account_at rt L acct = Inr t"
    and "ta_amount t = 0 \<or> ta_mint t = native_mint_ID rt"
  using assms unfolding documented_runtime_def token_close_law_def by blast

lemma token_close_result:
  assumes "documented_runtime rt" and "token_close_account rt acct dest auth signers L = Inr L'"
  shows "L' (av_address acct) = closed_account"
    and "av_address acct \<noteq> av_address dest"
    and "unat (lamports_of L' dest) = unat (lamports_of L dest) + unat (lamports_of L acct)"
  using assms unfolding documented_runtime_def token_close_law_def by blast+

lemma token_close_keeps:
  assumes "documented_runtime rt" and "token_close_account rt acct dest auth signers L = Inr L'"
    and "a \<noteq> av_address acct"
  shows "same_state (L' a) (L a)"
  using assms
  unfolding documented_runtime_def token_close_law_def unchanged_except_def
  by (cases "a = av_address dest") (blast, metis insert_iff empty_iff same_state_refl)

lemma account_close_result:
  assumes "documented_runtime rt" and "account_close rt v L = Inr L'"
  shows "L' = L(av_address v := closed_account)"
  using assms unfolding documented_runtime_def account_close_law_def by blast

text \<open>
  Both pinocchio programs close an account of theirs by moving its lamports to a destination
  and emptying it.
\<close>

lemma drained_close_result:
  assumes "documented_runtime rt"
    and "account_close rt acct (set_lamports (set_lamports L dest n) acct 0) = Inr L'"
    and "unat n = unat (lamports_of L dest) + unat (lamports_of L acct)"
  shows "a \<noteq> av_address acct \<Longrightarrow> same_state (L' a) (L a)"
    and "L' (av_address acct) = closed_account"
    and "av_address acct \<noteq> av_address dest \<Longrightarrow>
      unat (lamports_of L' dest) = unat (lamports_of L dest) + unat (lamports_of L acct)"
    and "a \<noteq> av_address acct \<Longrightarrow> a \<noteq> av_address dest \<Longrightarrow> L' a = L a"
  using assms(3)
  by (simp_all add: account_close_result [OF assms(1,2)] set_lamports_def same_state_def
      lamports_of_def)

section \<open>Tokens held over all accounts\<close>

text \<open>The amount account \<open>a\<close> contributes to what \<open>own\<close> holds of \<open>mint\<close>.\<close>

definition holding :: "runtime \<Rightarrow> address \<Rightarrow> address \<Rightarrow> account \<Rightarrow> nat" where
  "holding rt own mint a =
     (case token_account_of rt a of
        Inl _ \<Rightarrow> 0
      | Inr t \<Rightarrow> if ta_owner t = own \<and> ta_mint t = mint then unat (ta_amount t) else 0)"

definition tokens_held :: "runtime \<Rightarrow> address \<Rightarrow> address \<Rightarrow> ledger \<Rightarrow> nat" where
  "tokens_held rt own mint L = (\<Sum>a\<in>UNIV. holding rt own mint (L a))"

lemma holding_same_state: "same_state a b \<Longrightarrow> holding rt o' m a = holding rt o' m b"
  by (simp add: holding_def same_state_token)

lemma holding_not_token:
  "documented_runtime rt \<Longrightarrow> acc_owner a \<noteq> token_program_ID rt \<Longrightarrow> holding rt o' m a = 0"
  by (auto simp: holding_def split: sum.split dest: token_owner)

lemma tokens_held_cong:
  "(\<And>a. holding rt o' m (L' a) = holding rt o' m (L a)) \<Longrightarrow>
     tokens_held rt o' m L' = tokens_held rt o' m L"
  by (simp add: tokens_held_def)

lemma tokens_held_change_point:
  assumes "\<And>x. x \<noteq> a \<Longrightarrow> holding rt o' m (L' x) = holding rt o' m (L x)"
  shows "tokens_held rt o' m L' + holding rt o' m (L a) =
    tokens_held rt o' m L + holding rt o' m (L' a)"
  unfolding tokens_held_def using assms by (intro sum_change_point) auto

lemma holding_le_tokens_held: "holding rt o' m (L a) \<le> tokens_held rt o' m L"
  unfolding tokens_held_def by (rule member_le_sum) auto

text \<open>
  Over a transfer the source's owner loses the amount and the destination's owner gains it,
  also where the two accounts are one.
\<close>

lemma tokens_held_transfer:
  assumes rt: "documented_runtime rt"
    and tr: "token_transfer rt from to auth n signers L = Inr L'"
    and s: "token_account_at rt L from = Inr s" and d: "token_account_at rt L to = Inr d"
  shows "tokens_held rt o' m L' + (if ta_owner s = o' \<and> ta_mint s = m then unat n else 0) =
    tokens_held rt o' m L + (if ta_owner d = o' \<and> ta_mint d = m then unat n else 0)"
proof -
  let ?f = "av_address from" and ?t = "av_address to"
  from rt tr s d have n: "n \<le> ta_amount s"
    and u: "unchanged_except {?f, ?t} L L'"
    and eq: "?f = ?t \<Longrightarrow> token_account_at rt L' from = Inr s"
    and ne: "?f \<noteq> ?t \<Longrightarrow> unat (ta_amount d) + unat n < 2 ^ 64 \<and>
      token_account_at rt L' from = Inr (s\<lparr>ta_amount := ta_amount s - n\<rparr>) \<and>
      token_account_at rt L' to = Inr (d\<lparr>ta_amount := ta_amount d + n\<rparr>)"
    by (auto elim!: transfer_views)
  show ?thesis
  proof (cases "?f = ?t")
    case True
    have "holding rt o' m (L' a) = holding rt o' m (L a)" for a
      using True u eq s
      by (cases "a = ?f") (simp_all add: holding_def token_account_at_def unchanged_except_def)
    then have "tokens_held rt o' m L' = tokens_held rt o' m L"
      by (rule tokens_held_cong)
    moreover have "s = d" using True s d by (simp add: token_account_at_def)
    ultimately show ?thesis by simp
  next
    case False
    define M where "M = L(?f := L' ?f)"
    define P where "P \<longleftrightarrow> ta_owner s = o' \<and> ta_mint s = m"
    define Q where "Q \<longleftrightarrow> ta_owner d = o' \<and> ta_mint d = m"
    have h: "holding rt o' m (L' x) = holding rt o' m (M x)" if "x \<noteq> ?t" for x
      using that u by (auto simp: M_def unchanged_except_def)
    have "tokens_held rt o' m L' + holding rt o' m (L ?t) =
      tokens_held rt o' m M + holding rt o' m (L' ?t)"
      using tokens_held_change_point [of ?t rt o' m L' M] h False by (simp add: M_def)
    moreover have "tokens_held rt o' m M + holding rt o' m (L ?f) =
      tokens_held rt o' m L + holding rt o' m (L' ?f)"
      using tokens_held_change_point [of ?f rt o' m M L] by (simp add: M_def)
    moreover have "holding rt o' m (L ?f) = (if P then unat (ta_amount s) else 0)"
      using s by (simp add: P_def Q_def holding_def token_account_at_def)
    moreover have "holding rt o' m (L' ?f) = (if P then unat (ta_amount s) - unat n else 0)"
      using ne False unat_sub [OF n] by (simp add: P_def Q_def holding_def token_account_at_def)
    moreover have "holding rt o' m (L ?t) = (if Q then unat (ta_amount d) else 0)"
      using d by (simp add: P_def Q_def holding_def token_account_at_def)
    moreover have "holding rt o' m (L' ?t) = (if Q then unat (ta_amount d) + unat n else 0)"
      using ne False by (simp add: P_def Q_def holding_def token_account_at_def unat_word_ariths)
    moreover have "unat n \<le> unat (ta_amount s)"
      using n by (simp add: word_le_nat_alt)
    ultimately have "tokens_held rt o' m L' + (if P then unat n else 0) =
        tokens_held rt o' m L + (if Q then unat n else 0)"
      by (cases P; cases Q) simp_all
    then show ?thesis by (simp add: P_def Q_def)
  qed
qed

lemma tokens_held_create:
  assumes "documented_runtime rt"
    and "system_create_account rt from to n space own signers L = Inr L'"
    and "own \<noteq> token_program_ID rt"
  shows "tokens_held rt o' m L' = tokens_held rt o' m L"
proof (rule tokens_held_cong)
  fix a
  show "holding rt o' m (L' a) = holding rt o' m (L a)"
  proof (cases "a = av_address to")
    case True
    then show ?thesis
      using assms create_result [OF assms(1,2)] token_program_not_system [OF assms(1)]
      by (simp add: holding_not_token)
  next
    case False
    then show ?thesis
      using create_keeps [OF assms(1,2)] holding_same_state by blast
  qed
qed

lemma tokens_held_ata:
  assumes "documented_runtime rt" and "ata_create rt payer acct wallet mint tp sp L = Inr L'"
  shows "tokens_held rt o' m L' = tokens_held rt o' m L"
proof (rule tokens_held_cong)
  fix a
  show "holding rt o' m (L' a) = holding rt o' m (L a)"
  proof (cases "a = av_address acct")
    case True
    have "holding rt o' m (L (av_address acct)) = 0"
      using assms ata_result [OF assms] token_program_not_system [OF assms(1)]
      by (simp add: holding_not_token)
    then show ?thesis
      using True ata_result [OF assms] by (simp add: holding_def)
  next
    case False
    then show ?thesis
      using ata_keeps [OF assms] holding_same_state by blast
  qed
qed

lemma tokens_held_write:
  assumes "documented_runtime rt" and "\<And>x. x \<noteq> a \<Longrightarrow> same_state (L' x) (L x)"
    and "acc_owner (L a) \<noteq> token_program_ID rt" and "acc_owner (L' a) \<noteq> token_program_ID rt"
  shows "tokens_held rt o' m L' = tokens_held rt o' m L"
proof (rule tokens_held_cong)
  fix x
  show "holding rt o' m (L' x) = holding rt o' m (L x)"
    using assms by (cases "x = a") (auto simp: holding_not_token intro: holding_same_state)
qed

lemma tokens_held_same_state:
  "(\<And>a. same_state (L' a) (L a)) \<Longrightarrow> tokens_held rt o' m L' = tokens_held rt o' m L"
  by (intro tokens_held_cong holding_same_state)

lemma tokens_held_drained_close:
  assumes "documented_runtime rt" and "\<And>a. a \<noteq> acct \<Longrightarrow> same_state (L' a) (L a)"
    and "L' acct = closed_account" and "acc_owner (L acct) \<noteq> token_program_ID rt"
  shows "tokens_held rt o' m L' = tokens_held rt o' m L"
  using assms token_program_not_system [OF assms(1)]
  by (intro tokens_held_write [where a = acct]) (auto simp: closed_account_def)

text \<open>Closing an empty token account, the closed account holds nothing of anybody's.\<close>

lemma tokens_held_token_close:
  assumes "documented_runtime rt" and "token_close_account rt acct dest auth signers L = Inr L'"
    and "token_account_at rt L acct = Inr t" and "ta_owner t \<noteq> o' \<or> ta_amount t = 0"
  shows "tokens_held rt o' m L' = tokens_held rt o' m L"
proof (rule tokens_held_cong)
  fix a
  show "holding rt o' m (L' a) = holding rt o' m (L a)"
  proof (cases "a = av_address acct")
    case True
    then have "holding rt o' m (L' a) = 0"
      using token_close_result(1) [OF assms(1,2)] token_program_not_system [OF assms(1)] assms(1)
      by (simp add: holding_not_token closed_account_def)
    moreover have "holding rt o' m (L a) = 0"
      using True assms(3,4) by (auto simp: holding_def token_account_at_def)
    ultimately show ?thesis by simp
  qed (use token_close_keeps [OF assms(1,2)] in \<open>simp add: holding_same_state\<close>)
qed

end
