(* ===== verification/Account_Codec.thy ===== *)
theory Account_Codec
  imports Token_Ledger
begin

text \<open>
  The contract between an account's data and the struct a program overlays on it: the
  \<open>#[repr(C)]\<close> structs of byte arrays that \<open>from_account_info\<close> casts the data to.
  A provider gives the struct's well-formedness (each array has its declared length), the
  bytes of a struct and the struct at given bytes; the clients below store a struct in an
  account and read it back.
\<close>

locale account_codec =
  fixes wf :: "'s \<Rightarrow> bool"
    and encode :: "'s \<Rightarrow> u8 list"
    and decode :: "u8 list \<Rightarrow> 's"
    and len :: nat
  assumes length_encode: "wf s \<Longrightarrow> length (encode s) = len"
    and decode_encode: "wf s \<Longrightarrow> decode (encode s) = s"
    and wf_decode: "length bs = len \<Longrightarrow> wf (decode bs)"
    and encode_decode: "length bs = len \<Longrightarrow> encode (decode bs) = bs"
begin

text \<open>The cast loses nothing and adds nothing: structs and byte strings of the length correspond.\<close>

lemma bij_decode: "bij_betw decode {bs. length bs = len} {s. wf s}"
  by (rule bij_betw_byWitness [where f' = encode])
    (auto simp: encode_decode decode_encode wf_decode length_encode)

lemma encode_inject: "wf s \<Longrightarrow> wf t \<Longrightarrow> encode s = encode t \<longleftrightarrow> s = t"
  by (metis decode_encode)

lemma load_store: "wf s \<Longrightarrow> decode (data_of (set_data L v (encode s)) v) = s"
  by (simp add: data_of_def set_data_def decode_encode)

lemma load_store_other:
  "av_address v \<noteq> av_address w \<Longrightarrow>
     decode (data_of (set_data L v (encode s)) w) = decode (data_of L w)"
  by (simp add: data_of_def set_data_def)

lemma store_load:
  "length (data_of L v) = len \<Longrightarrow> set_data L v (encode (decode (data_of L v))) = L"
  by (simp add: data_of_def set_data_def encode_decode)

lemma length_store: "wf s \<Longrightarrow> length (data_of (set_data L v (encode s)) v) = len"
  by (simp add: data_of_def set_data_def length_encode)

end

text \<open>Writing data changes one account, and only its data.\<close>

lemma set_data_other: "a \<noteq> av_address v \<Longrightarrow> set_data L v bs a = L a"
  by (simp add: set_data_def)

lemma set_data_owner [simp]: "acc_owner (set_data L v bs a) = acc_owner (L a)"
  by (simp add: set_data_def)

lemma set_lamports_same_state: "same_state (set_lamports L v n a) (L a)"
  by (simp add: set_lamports_def same_state_def)

end
