(* ===== verification/Fundraiser_State.thy ===== *)
theory Fundraiser_State
  imports Account_Codec
begin

text \<open>
  The two account structs of pinocchio-fundraiser (\<open>src/state/fundraiser.rs\<close> and
  \<open>src/state/contributor.rs\<close>): byte arrays laid over the account data, read and written
  through accessors. Both are codecs in the sense of \<open>account_codec\<close>.
\<close>

section \<open>Fundraiser\<close>

record fundraiser =
  fr_maker :: "u8 list"
  fr_mint_to_raise :: "u8 list"
  fr_amount_to_raise :: "u8 list"
  fr_current_amount :: "u8 list"
  fr_time_started :: "u8 list"
  fr_duration :: u8
  fr_bump :: u8

definition fundraiser_LEN :: nat where
  "fundraiser_LEN = 32 + 32 + 8 + 8 + 8 + 1 + 1"

definition fundraiser_wf :: "fundraiser \<Rightarrow> bool" where
  "fundraiser_wf s \<longleftrightarrow>
     length (fr_maker s) = 32 \<and> length (fr_mint_to_raise s) = 32 \<and>
     length (fr_amount_to_raise s) = 8 \<and> length (fr_current_amount s) = 8 \<and>
     length (fr_time_started s) = 8"

text \<open>The fields in the order of the struct, as \<open>#[repr(C)]\<close> lays them out.\<close>

definition fundraiser_encode :: "fundraiser \<Rightarrow> u8 list" where
  "fundraiser_encode s =
     fr_maker s @ fr_mint_to_raise s @ fr_amount_to_raise s @ fr_current_amount s @
     fr_time_started s @ [fr_duration s, fr_bump s]"

definition fundraiser_decode :: "u8 list \<Rightarrow> fundraiser" where
  "fundraiser_decode bs =
     \<lparr>fr_maker = slice 0 32 bs, fr_mint_to_raise = slice 32 32 bs,
      fr_amount_to_raise = slice 64 8 bs, fr_current_amount = slice 72 8 bs,
      fr_time_started = slice 80 8 bs, fr_duration = bs ! 88, fr_bump = bs ! 89\<rparr>"

definition fundraiser_from_account_info :: "ledger \<Rightarrow> account_view \<Rightarrow> fundraiser res" where
  "fundraiser_from_account_info L account =
     (if length (data_of L account) \<noteq> fundraiser_LEN then Inl (Err InvalidAccountData)
      else Inr (fundraiser_decode (data_of L account)))"

text \<open>Writing through the reference \<open>from_account_info\<close> returned.\<close>

definition fundraiser_store :: "ledger \<Rightarrow> account_view \<Rightarrow> fundraiser \<Rightarrow> ledger" where
  "fundraiser_store L account s = set_data L account (fundraiser_encode s)"

definition maker_of :: "fundraiser \<Rightarrow> address" where
  "maker_of s = from_le_bytes (fr_maker s)"

definition set_maker :: "fundraiser \<Rightarrow> address \<Rightarrow> fundraiser" where
  "set_maker s maker = s\<lparr>fr_maker := address_bytes maker\<rparr>"

definition mint_to_raise_of :: "fundraiser \<Rightarrow> address" where
  "mint_to_raise_of s = from_le_bytes (fr_mint_to_raise s)"

definition set_mint_to_raise :: "fundraiser \<Rightarrow> address \<Rightarrow> fundraiser" where
  "set_mint_to_raise s mint = s\<lparr>fr_mint_to_raise := address_bytes mint\<rparr>"

definition amount_to_raise_of :: "fundraiser \<Rightarrow> u64" where
  "amount_to_raise_of s = from_le_bytes (fr_amount_to_raise s)"

definition set_amount_to_raise :: "fundraiser \<Rightarrow> u64 \<Rightarrow> fundraiser" where
  "set_amount_to_raise s amount = s\<lparr>fr_amount_to_raise := to_le_bytes 8 amount\<rparr>"

definition current_amount_of :: "fundraiser \<Rightarrow> u64" where
  "current_amount_of s = from_le_bytes (fr_current_amount s)"

definition set_current_amount :: "fundraiser \<Rightarrow> u64 \<Rightarrow> fundraiser" where
  "set_current_amount s amount = s\<lparr>fr_current_amount := to_le_bytes 8 amount\<rparr>"

definition time_started_of :: "fundraiser \<Rightarrow> i64" where
  "time_started_of s = from_le_bytes (fr_time_started s)"

definition set_time_started :: "fundraiser \<Rightarrow> i64 \<Rightarrow> fundraiser" where
  "set_time_started s timestamp = s\<lparr>fr_time_started := to_le_bytes 8 timestamp\<rparr>"

definition duration_of :: "fundraiser \<Rightarrow> u8" where
  "duration_of s = fr_duration s"

definition set_duration :: "fundraiser \<Rightarrow> u8 \<Rightarrow> fundraiser" where
  "set_duration s duration = s\<lparr>fr_duration := duration\<rparr>"

lemmas fundraiser_get_defs =
  maker_of_def mint_to_raise_of_def amount_to_raise_of_def current_amount_of_def
  time_started_of_def duration_of_def

lemmas fundraiser_set_defs =
  set_maker_def set_mint_to_raise_def set_amount_to_raise_def set_current_amount_def
  set_time_started_def set_duration_def

lemma fundraiser_get_set [simp]:
  "maker_of (set_maker s a) = a"
  "mint_to_raise_of (set_mint_to_raise s a) = a"
  "amount_to_raise_of (set_amount_to_raise s n) = n"
  "current_amount_of (set_current_amount s n) = n"
  "time_started_of (set_time_started s t) = t"
  "duration_of (set_duration s d) = d"
  by (simp_all add: fundraiser_get_defs fundraiser_set_defs address_bytes_def from_to_le_bytes)

lemma fundraiser_get_set_other [simp]:
  "maker_of (set_mint_to_raise s a) = maker_of s"
  "maker_of (set_amount_to_raise s n) = maker_of s"
  "maker_of (set_current_amount s n) = maker_of s"
  "maker_of (set_time_started s t) = maker_of s"
  "maker_of (set_duration s d) = maker_of s"
  "maker_of (s\<lparr>fr_bump := b\<rparr>) = maker_of s"
  "mint_to_raise_of (set_amount_to_raise s n) = mint_to_raise_of s"
  "mint_to_raise_of (set_current_amount s n) = mint_to_raise_of s"
  "mint_to_raise_of (set_time_started s t) = mint_to_raise_of s"
  "mint_to_raise_of (set_duration s d) = mint_to_raise_of s"
  "mint_to_raise_of (s\<lparr>fr_bump := b\<rparr>) = mint_to_raise_of s"
  "amount_to_raise_of (set_current_amount s n) = amount_to_raise_of s"
  "amount_to_raise_of (set_time_started s t) = amount_to_raise_of s"
  "amount_to_raise_of (set_duration s d) = amount_to_raise_of s"
  "amount_to_raise_of (s\<lparr>fr_bump := b\<rparr>) = amount_to_raise_of s"
  "current_amount_of (set_time_started s t) = current_amount_of s"
  "current_amount_of (set_duration s d) = current_amount_of s"
  "current_amount_of (s\<lparr>fr_bump := b\<rparr>) = current_amount_of s"
  "time_started_of (set_current_amount s n) = time_started_of s"
  "time_started_of (set_duration s d) = time_started_of s"
  "time_started_of (s\<lparr>fr_bump := b\<rparr>) = time_started_of s"
  "duration_of (set_current_amount s n) = duration_of s"
  "duration_of (s\<lparr>fr_bump := b\<rparr>) = duration_of s"
  "fr_bump (set_current_amount s n) = fr_bump s"
  by (simp_all add: fundraiser_get_defs fundraiser_set_defs)

lemma fundraiser_wf_set [simp]:
  "fundraiser_wf s \<Longrightarrow> fundraiser_wf (set_maker s a)"
  "fundraiser_wf s \<Longrightarrow> fundraiser_wf (set_mint_to_raise s a)"
  "fundraiser_wf s \<Longrightarrow> fundraiser_wf (set_amount_to_raise s n)"
  "fundraiser_wf s \<Longrightarrow> fundraiser_wf (set_current_amount s n)"
  "fundraiser_wf s \<Longrightarrow> fundraiser_wf (set_time_started s t)"
  "fundraiser_wf s \<Longrightarrow> fundraiser_wf (set_duration s d)"
  "fundraiser_wf s \<Longrightarrow> fundraiser_wf (s\<lparr>fr_bump := b\<rparr>)"
  by (simp_all add: fundraiser_wf_def fundraiser_set_defs)

interpretation fundraiser_data: account_codec
  fundraiser_wf fundraiser_encode fundraiser_decode fundraiser_LEN
proof unfold_locales
  fix s :: fundraiser
  assume wf: "fundraiser_wf s"
  then show "length (fundraiser_encode s) = fundraiser_LEN"
    by (simp add: fundraiser_wf_def fundraiser_encode_def fundraiser_LEN_def)
  from wf show "fundraiser_decode (fundraiser_encode s) = s"
    by (simp add: fundraiser_wf_def fundraiser_encode_def fundraiser_decode_def slice_simps
        nth_append)
next
  fix bs :: "u8 list"
  assume len: "length bs = fundraiser_LEN"
  then show "fundraiser_wf (fundraiser_decode bs)"
    by (simp add: fundraiser_wf_def fundraiser_decode_def fundraiser_LEN_def)
  from len have "[bs ! 88, bs ! 89] = drop 88 bs"
    using list_two_at [of bs 88] by (simp add: fundraiser_LEN_def)
  then show "fundraiser_encode (fundraiser_decode bs) = bs"
    using take_slice_append [of 80 8 bs] take_slice_append [of 72 8 bs]
      take_slice_append [of 64 8 bs] take_slice_append [of 32 32 bs]
      take_slice_append [of 0 32 bs]
    by (simp add: fundraiser_encode_def fundraiser_decode_def)
qed

section \<open>Contributor\<close>

record contributor =
  co_amount :: "u8 list"
  co_bump :: u8

definition contributor_LEN :: nat where
  "contributor_LEN = 8 + 1"

definition contributor_wf :: "contributor \<Rightarrow> bool" where
  "contributor_wf s \<longleftrightarrow> length (co_amount s) = 8"

definition contributor_encode :: "contributor \<Rightarrow> u8 list" where
  "contributor_encode s = co_amount s @ [co_bump s]"

definition contributor_decode :: "u8 list \<Rightarrow> contributor" where
  "contributor_decode bs = \<lparr>co_amount = slice 0 8 bs, co_bump = bs ! 8\<rparr>"

definition contributor_from_account_info :: "ledger \<Rightarrow> account_view \<Rightarrow> contributor res" where
  "contributor_from_account_info L account =
     (if length (data_of L account) \<noteq> contributor_LEN then Inl (Err InvalidAccountData)
      else Inr (contributor_decode (data_of L account)))"

definition contributor_store :: "ledger \<Rightarrow> account_view \<Rightarrow> contributor \<Rightarrow> ledger" where
  "contributor_store L account s = set_data L account (contributor_encode s)"

definition amount_of :: "contributor \<Rightarrow> u64" where
  "amount_of s = from_le_bytes (co_amount s)"

definition set_amount :: "contributor \<Rightarrow> u64 \<Rightarrow> contributor" where
  "set_amount s amount = s\<lparr>co_amount := to_le_bytes 8 amount\<rparr>"

lemma contributor_get_set [simp]:
  "amount_of (set_amount s n) = n"
  "amount_of (s\<lparr>co_bump := b\<rparr>) = amount_of s"
  "co_bump (set_amount s n) = co_bump s"
  by (simp_all add: amount_of_def set_amount_def from_to_le_bytes)

lemma contributor_wf_set [simp]:
  "contributor_wf (set_amount s n)"
  "contributor_wf (s\<lparr>co_bump := b\<rparr>) = contributor_wf s"
  by (simp_all add: contributor_wf_def set_amount_def)

interpretation contributor_data: account_codec
  contributor_wf contributor_encode contributor_decode contributor_LEN
proof unfold_locales
  fix s :: contributor
  assume wf: "contributor_wf s"
  then show "length (contributor_encode s) = contributor_LEN"
    by (simp add: contributor_wf_def contributor_encode_def contributor_LEN_def)
  from wf show "contributor_decode (contributor_encode s) = s"
    by (simp add: contributor_wf_def contributor_encode_def contributor_decode_def slice_simps
        nth_append)
next
  fix bs :: "u8 list"
  assume len: "length bs = contributor_LEN"
  then show "contributor_wf (contributor_decode bs)"
    by (simp add: contributor_wf_def contributor_decode_def contributor_LEN_def)
  from len have "[bs ! 8] = drop 8 bs"
    by (simp add: contributor_LEN_def Cons_nth_drop_Suc [symmetric])
  then show "contributor_encode (contributor_decode bs) = bs"
    using take_slice_append [of 0 8 bs]
    by (simp add: contributor_encode_def contributor_decode_def)
qed

end
