(* ===== verification/Fundraiser_Program.thy ===== *)
theory Fundraiser_Program
  imports Fundraiser_State
begin

text \<open>
  The instructions of pinocchio-fundraiser (\<open>src/constants.rs\<close>, \<open>src/error.rs\<close>,
  \<open>src/instructions/*.rs\<close>, \<open>src/lib.rs\<close>). A handler takes the account views and the
  instruction data and returns the account memory it leaves, or the fault it stops with; a
  fault leaves no memory because the runtime discards everything a failed instruction wrote.
\<close>

section \<open>Constants and error codes\<close>

definition MIN_AMOUNT_TO_RAISE :: u64 where "MIN_AMOUNT_TO_RAISE = 3"
definition SECONDS_TO_DAYS :: i64 where "SECONDS_TO_DAYS = 86400"
definition MAX_CONTRIBUTION_PERCENTAGE :: u64 where "MAX_CONTRIBUTION_PERCENTAGE = 10"
definition PERCENTAGE_SCALER :: u64 where "PERCENTAGE_SCALER = 100"

definition TARGET_NOT_MET :: u32 where "TARGET_NOT_MET = 6000"
definition TARGET_MET :: u32 where "TARGET_MET = 6001"
definition CONTRIBUTION_TOO_BIG :: u32 where "CONTRIBUTION_TOO_BIG = 6002"
definition CONTRIBUTION_TOO_SMALL :: u32 where "CONTRIBUTION_TOO_SMALL = 6003"
definition MAXIMUM_CONTRIBUTIONS_REACHED :: u32 where "MAXIMUM_CONTRIBUTIONS_REACHED = 6004"
definition FUNDRAISER_NOT_ENDED :: u32 where "FUNDRAISER_NOT_ENDED = 6005"
definition FUNDRAISER_ENDED :: u32 where "FUNDRAISER_ENDED = 6006"
definition INVALID_AMOUNT :: u32 where "INVALID_AMOUNT = 6007"

definition custom :: "u32 \<Rightarrow> fault" where
  "custom code = Err (Custom code)"

text \<open>
  \<open>declare_id!("Eoiuq1dXvHxh6dLx3wh9gj8kSAUpga11krTrbfF5XYsC")\<close>: the base-58 text read as
  32 bytes, these as a little-endian number.
\<close>

definition fundraiser_ID :: address where
  "fundraiser_ID = 0xebf926c5b7375e002d702e7851a3c0ccdf8417308a9c00e59a47eef2350920cd"

section \<open>Utilities\<close>

definition read_u64 :: "u8 list \<Rightarrow> nat \<Rightarrow> u64 res" where
  "read_u64 data offset =
     (if offset + 8 \<le> length data then Inr (from_le_bytes (slice offset 8 data))
      else Inl (Err InvalidInstructionData))"

definition pow10 :: "u8 \<Rightarrow> u64 res" where
  "pow10 decimals = ok_or (checked_pow 10 (ucast decimals)) (Err ArithmeticOverflow)"

definition has_ended :: "fundraiser \<Rightarrow> i64 \<Rightarrow> bool" where
  "has_ended s now \<longleftrightarrow>
     duration_of s \<noteq> 0 \<and>
     sint (div_i64 (saturating_sub_i64 now (time_started_of s)) SECONDS_TO_DAYS)
       \<ge> sint (ucast (duration_of s) :: i64)"

definition fundraiser_seeds :: "address \<Rightarrow> u8 \<Rightarrow> signer_seeds" where
  "fundraiser_seeds maker bump = [byte_string ''fundraiser'', address_bytes maker, [bump]]"

definition contributor_seeds :: "address \<Rightarrow> address \<Rightarrow> u8 \<Rightarrow> signer_seeds" where
  "contributor_seeds fundraiser contributor bump =
     [byte_string ''contributor'', address_bytes fundraiser, address_bytes contributor, [bump]]"

definition verify_fundraiser_pda_with_maker ::
    "runtime \<Rightarrow> account_view \<Rightarrow> address \<Rightarrow> u8 \<Rightarrow> unit res" where
  "verify_fundraiser_pda_with_maker rt fundraiser maker bump =
     (if derive_address rt (fundraiser_seeds maker bump) fundraiser_ID \<noteq> av_address fundraiser
      then Inl (Err InvalidAccountData) else Inr ())"

definition verify_fundraiser_pda ::
    "runtime \<Rightarrow> account_view \<Rightarrow> account_view \<Rightarrow> u8 \<Rightarrow> unit res" where
  "verify_fundraiser_pda rt fundraiser maker bump =
     verify_fundraiser_pda_with_maker rt fundraiser (av_address maker) bump"

definition verify_contributor_pda ::
    "runtime \<Rightarrow> account_view \<Rightarrow> account_view \<Rightarrow> account_view \<Rightarrow> u8 \<Rightarrow> unit res" where
  "verify_contributor_pda rt contributor_account fundraiser contributor bump =
     (if derive_address rt
           (contributor_seeds (av_address fundraiser) (av_address contributor) bump) fundraiser_ID
         \<noteq> av_address contributor_account
      then Inl (Err InvalidAccountData) else Inr ())"

definition validate_token_account ::
    "runtime \<Rightarrow> ledger \<Rightarrow> account_view \<Rightarrow> address \<Rightarrow> address \<Rightarrow> unit res" where
  "validate_token_account rt L account owner mint =
     and_then (token_account_at rt L account) (\<lambda>token_account.
     if ta_owner token_account \<noteq> owner \<or> ta_mint token_account \<noteq> mint
     then Inl (Err InvalidAccountData) else Inr ())"

definition token_amount :: "runtime \<Rightarrow> ledger \<Rightarrow> account_view \<Rightarrow> u64 res" where
  "token_amount rt L account =
     and_then (token_account_at rt L account) (\<lambda>t. Inr (ta_amount t))"

definition close_program_account ::
    "runtime \<Rightarrow> ledger \<Rightarrow> account_view \<Rightarrow> account_view \<Rightarrow> ledger res" where
  "close_program_account rt L account destination =
     (let lamports = lamports_of L account in
      and_then (ok_or (checked_add (lamports_of L destination) lamports) (Err ArithmeticOverflow))
        (\<lambda>total.
      account_close rt account (set_lamports (set_lamports L destination total) account 0)))"

section \<open>Initialize\<close>

definition initialize_with ::
    "runtime \<Rightarrow> account_view \<Rightarrow> account_view \<Rightarrow> account_view \<Rightarrow> account_view \<Rightarrow>
     account_view \<Rightarrow> account_view \<Rightarrow> u8 list \<Rightarrow> ledger \<Rightarrow> ledger res" where
  "initialize_with rt maker mint_to_raise fundraiser vault system_program token_program data L =
     (if length data \<noteq> 10 then Inl (Err InvalidInstructionData)
      else if \<not> av_is_signer maker then Inl (Err MissingRequiredSignature)
      else if owned_by L fundraiser fundraiser_ID then Inl (Err AccountAlreadyInitialized)
      else
        let bump = data ! 0 in
        and_then (read_u64 data 1) (\<lambda>amount.
        let duration = data ! 9 in
        and_then (verify_fundraiser_pda rt fundraiser maker bump) (\<lambda>_.
        and_then (mint_decimals_at rt L mint_to_raise) (\<lambda>decimals.
        and_then (pow10 decimals) (\<lambda>unit_amount.
        and_then (ok_or (checked_mul MIN_AMOUNT_TO_RAISE unit_amount) (Err ArithmeticOverflow))
          (\<lambda>minimum.
        if amount \<le> minimum then Inl (custom INVALID_AMOUNT)
        else
          let signers = [fundraiser_seeds (av_address maker) bump] in
          and_then (rent_minimum_balance rt fundraiser_LEN) (\<lambda>lamports.
          and_then (system_create_account rt maker fundraiser lamports
                      (of_nat fundraiser_LEN) fundraiser_ID signers L) (\<lambda>L1.
          and_then (ata_create rt maker vault fundraiser mint_to_raise token_program
                      system_program L1) (\<lambda>L2.
          and_then (fundraiser_from_account_info L2 fundraiser) (\<lambda>s0.
          let s1 = set_maker s0 (av_address maker);
              s2 = set_mint_to_raise s1 (av_address mint_to_raise);
              s3 = set_amount_to_raise s2 amount;
              s4 = set_current_amount s3 0 in
          and_then (clock_unix_timestamp rt) (\<lambda>now.
          let s5 = set_time_started s4 now;
              s6 = set_duration s5 duration;
              s7 = s6\<lparr>fr_bump := bump\<rparr> in
          Inr (fundraiser_store L2 fundraiser s7))))))))))))"

definition process_initialize ::
    "runtime \<Rightarrow> account_view list \<Rightarrow> u8 list \<Rightarrow> ledger \<Rightarrow> ledger res" where
  "process_initialize rt accounts data L =
     (case accounts of
        maker # mint_to_raise # fundraiser # vault # system_program # token_program # _ \<Rightarrow>
          initialize_with rt maker mint_to_raise fundraiser vault system_program token_program
            data L
      | _ \<Rightarrow> Inl (Err NotEnoughAccountKeys))"

section \<open>Contribute\<close>

definition create_contributor_if_needed ::
    "runtime \<Rightarrow> account_view \<Rightarrow> account_view \<Rightarrow> account_view \<Rightarrow> u8 \<Rightarrow> ledger \<Rightarrow> ledger res" where
  "create_contributor_if_needed rt contributor fundraiser contributor_account bump L =
     (if owned_by L contributor_account fundraiser_ID then Inr L
      else
        and_then (verify_contributor_pda rt contributor_account fundraiser contributor bump)
          (\<lambda>_.
        let signers = [contributor_seeds (av_address fundraiser) (av_address contributor) bump] in
        and_then (rent_minimum_balance rt contributor_LEN) (\<lambda>lamports.
        and_then (system_create_account rt contributor contributor_account lamports
                    (of_nat contributor_LEN) fundraiser_ID signers L) (\<lambda>L1.
        and_then (contributor_from_account_info L1 contributor_account) (\<lambda>state.
        Inr (contributor_store L1 contributor_account
               ((set_amount state 0)\<lparr>co_bump := bump\<rparr>)))))))"

definition contribute_with ::
    "runtime \<Rightarrow> account_view \<Rightarrow> account_view \<Rightarrow> account_view \<Rightarrow> account_view \<Rightarrow>
     account_view \<Rightarrow> account_view \<Rightarrow> u8 list \<Rightarrow> ledger \<Rightarrow> ledger res" where
  "contribute_with rt contributor mint_to_raise fundraiser contributor_account contributor_ata
     vault data L =
     (if length data \<noteq> 9 then Inl (Err InvalidInstructionData)
      else if \<not> av_is_signer contributor then Inl (Err MissingRequiredSignature)
      else if \<not> owned_by L fundraiser fundraiser_ID then Inl (Err IllegalOwner)
      else
        let contributor_bump = data ! 0 in
        and_then (read_u64 data 1) (\<lambda>amount.
        and_then (fundraiser_from_account_info L fundraiser) (\<lambda>fundraiser_state.
        if mint_to_raise_of fundraiser_state \<noteq> av_address mint_to_raise
        then Inl (Err InvalidAccountData)
        else
        and_then (verify_fundraiser_pda_with_maker rt fundraiser (maker_of fundraiser_state)
                    (fr_bump fundraiser_state)) (\<lambda>_.
        and_then (create_contributor_if_needed rt contributor fundraiser contributor_account
                    contributor_bump L) (\<lambda>L1.
        and_then (contributor_from_account_info L1 contributor_account) (\<lambda>contributor_state.
        and_then (verify_contributor_pda rt contributor_account fundraiser contributor
                    (co_bump contributor_state)) (\<lambda>_.
        and_then (validate_token_account rt L1 contributor_ata (av_address contributor)
                    (av_address mint_to_raise)) (\<lambda>_.
        and_then (validate_token_account rt L1 vault (av_address fundraiser)
                    (av_address mint_to_raise)) (\<lambda>_.
        and_then (clock_unix_timestamp rt) (\<lambda>now.
        if has_ended fundraiser_state now then Inl (custom FUNDRAISER_ENDED)
        else
        and_then (mint_decimals_at rt L1 mint_to_raise) (\<lambda>decimals.
        and_then (pow10 decimals) (\<lambda>minimum.
        if amount < minimum then Inl (custom CONTRIBUTION_TOO_SMALL)
        else
        and_then (ok_or (checked_mul (amount_to_raise_of fundraiser_state)
                           MAX_CONTRIBUTION_PERCENTAGE) (Err ArithmeticOverflow)) (\<lambda>scaled.
        let max_contribution = scaled div PERCENTAGE_SCALER in
        if amount > max_contribution then Inl (custom CONTRIBUTION_TOO_BIG)
        else
        and_then (ok_or (checked_add (amount_of contributor_state) amount)
                    (Err ArithmeticOverflow)) (\<lambda>new_contributor_amount.
        if new_contributor_amount > max_contribution
        then Inl (custom MAXIMUM_CONTRIBUTIONS_REACHED)
        else
        and_then (ok_or (checked_add (current_amount_of fundraiser_state) amount)
                    (Err ArithmeticOverflow)) (\<lambda>new_current_amount.
        and_then (token_transfer rt contributor_ata vault contributor amount [] L1) (\<lambda>L2.
        and_then (fundraiser_from_account_info L2 fundraiser) (\<lambda>f.
        let L3 = fundraiser_store L2 fundraiser (set_current_amount f new_current_amount) in
        and_then (contributor_from_account_info L3 contributor_account) (\<lambda>c.
        Inr (contributor_store L3 contributor_account
               (set_amount c new_contributor_amount))))))))))))))))))))"

definition process_contribute ::
    "runtime \<Rightarrow> account_view list \<Rightarrow> u8 list \<Rightarrow> ledger \<Rightarrow> ledger res" where
  "process_contribute rt accounts data L =
     (case accounts of
        contributor # mint_to_raise # fundraiser # contributor_account # contributor_ata # vault #
          system_program # token_program # _ \<Rightarrow>
          contribute_with rt contributor mint_to_raise fundraiser contributor_account
            contributor_ata vault data L
      | _ \<Rightarrow> Inl (Err NotEnoughAccountKeys))"

section \<open>Check contributions\<close>

definition check_contributions_with ::
    "runtime \<Rightarrow> account_view \<Rightarrow> account_view \<Rightarrow> account_view \<Rightarrow> account_view \<Rightarrow>
     account_view \<Rightarrow> account_view \<Rightarrow> account_view \<Rightarrow> ledger \<Rightarrow> ledger res" where
  "check_contributions_with rt maker mint_to_raise fundraiser vault maker_ata token_program
     system_program L =
     (if \<not> av_is_signer maker then Inl (Err MissingRequiredSignature)
      else if \<not> owned_by L fundraiser fundraiser_ID then Inl (Err IllegalOwner)
      else
        and_then (fundraiser_from_account_info L fundraiser) (\<lambda>fundraiser_state.
        if maker_of fundraiser_state \<noteq> av_address maker
          \<or> mint_to_raise_of fundraiser_state \<noteq> av_address mint_to_raise
        then Inl (Err InvalidAccountData)
        else
        and_then (verify_fundraiser_pda rt fundraiser maker (fr_bump fundraiser_state)) (\<lambda>_.
        and_then (validate_token_account rt L vault (av_address fundraiser)
                    (av_address mint_to_raise)) (\<lambda>_.
        and_then
          (if \<not> owned_by L maker_ata (token_program_ID rt)
           then ata_create rt maker maker_ata maker mint_to_raise token_program system_program L
           else and_then (validate_token_account rt L maker_ata (av_address maker)
                            (av_address mint_to_raise)) (\<lambda>_. Inr L)) (\<lambda>L1.
        and_then (token_amount rt L1 vault) (\<lambda>amount.
        if amount < amount_to_raise_of fundraiser_state then Inl (custom TARGET_NOT_MET)
        else
          let signers = [fundraiser_seeds (av_address maker) (fr_bump fundraiser_state)] in
          and_then (token_transfer rt vault maker_ata fundraiser amount signers L1) (\<lambda>L2.
          and_then (token_close_account rt vault maker fundraiser signers L2) (\<lambda>L3.
          close_program_account rt L3 fundraiser maker))))))))"

definition process_check_contributions ::
    "runtime \<Rightarrow> account_view list \<Rightarrow> u8 list \<Rightarrow> ledger \<Rightarrow> ledger res" where
  "process_check_contributions rt accounts data L =
     (case accounts of
        maker # mint_to_raise # fundraiser # vault # maker_ata # token_program #
          system_program # _ \<Rightarrow>
          check_contributions_with rt maker mint_to_raise fundraiser vault maker_ata
            token_program system_program L
      | _ \<Rightarrow> Inl (Err NotEnoughAccountKeys))"

section \<open>Refund\<close>

definition refund_with ::
    "runtime \<Rightarrow> account_view \<Rightarrow> account_view \<Rightarrow> account_view \<Rightarrow> account_view \<Rightarrow>
     account_view \<Rightarrow> account_view \<Rightarrow> account_view \<Rightarrow> ledger \<Rightarrow> ledger res" where
  "refund_with rt contributor maker mint_to_raise fundraiser contributor_account contributor_ata
     vault L =
     (if \<not> av_is_signer contributor then Inl (Err MissingRequiredSignature)
      else if \<not> owned_by L fundraiser fundraiser_ID
        \<or> \<not> owned_by L contributor_account fundraiser_ID then Inl (Err IllegalOwner)
      else
        and_then (fundraiser_from_account_info L fundraiser) (\<lambda>fundraiser_state.
        if maker_of fundraiser_state \<noteq> av_address maker
          \<or> mint_to_raise_of fundraiser_state \<noteq> av_address mint_to_raise
        then Inl (Err InvalidAccountData)
        else
        and_then (verify_fundraiser_pda rt fundraiser maker (fr_bump fundraiser_state)) (\<lambda>_.
        and_then (contributor_from_account_info L contributor_account) (\<lambda>contributor_state.
        and_then (verify_contributor_pda rt contributor_account fundraiser contributor
                    (co_bump contributor_state)) (\<lambda>_.
        and_then (validate_token_account rt L contributor_ata (av_address contributor)
                    (av_address mint_to_raise)) (\<lambda>_.
        and_then (validate_token_account rt L vault (av_address fundraiser)
                    (av_address mint_to_raise)) (\<lambda>_.
        and_then (clock_unix_timestamp rt) (\<lambda>now.
        if \<not> has_ended fundraiser_state now then Inl (custom FUNDRAISER_NOT_ENDED)
        else
        and_then (token_amount rt L vault) (\<lambda>held.
        if held \<ge> amount_to_raise_of fundraiser_state then Inl (custom TARGET_MET)
        else
          let signers = [fundraiser_seeds (av_address maker) (fr_bump fundraiser_state)] in
          and_then (token_transfer rt vault contributor_ata fundraiser
                      (amount_of contributor_state) signers L) (\<lambda>L1.
          and_then (ok_or (checked_sub (current_amount_of fundraiser_state)
                             (amount_of contributor_state)) (Err ArithmeticOverflow))
            (\<lambda>new_current_amount.
          and_then (fundraiser_from_account_info L1 fundraiser) (\<lambda>f.
          let L2 = fundraiser_store L1 fundraiser (set_current_amount f new_current_amount) in
          close_program_account rt L2 contributor_account contributor))))))))))))"

definition process_refund ::
    "runtime \<Rightarrow> account_view list \<Rightarrow> u8 list \<Rightarrow> ledger \<Rightarrow> ledger res" where
  "process_refund rt accounts data L =
     (case accounts of
        contributor # maker # mint_to_raise # fundraiser # contributor_account #
          contributor_ata # vault # token_program # _ \<Rightarrow>
          refund_with rt contributor maker mint_to_raise fundraiser contributor_account
            contributor_ata vault L
      | _ \<Rightarrow> Inl (Err NotEnoughAccountKeys))"

section \<open>Entry point\<close>

datatype fundraiser_instruction = Initialize | Contribute | CheckContributions | Refund

definition fundraiser_instruction_try_from :: "u8 \<Rightarrow> fundraiser_instruction res" where
  "fundraiser_instruction_try_from value =
     (if value = 0 then Inr Initialize
      else if value = 1 then Inr Contribute
      else if value = 2 then Inr CheckContributions
      else if value = 3 then Inr Refund
      else Inl (Err InvalidInstructionData))"

definition fundraiser_process_instruction ::
    "runtime \<Rightarrow> address \<Rightarrow> account_view list \<Rightarrow> u8 list \<Rightarrow> ledger \<Rightarrow> ledger res" where
  "fundraiser_process_instruction rt program_id accounts instruction_data L =
     (if program_id \<noteq> fundraiser_ID then Inl Panic
      else
        case instruction_data of
          [] \<Rightarrow> Inl (Err InvalidInstructionData)
        | discriminator # data \<Rightarrow>
            and_then (fundraiser_instruction_try_from discriminator) (\<lambda>i.
            case i of
              Initialize \<Rightarrow> process_initialize rt accounts data L
            | Contribute \<Rightarrow> process_contribute rt accounts data L
            | CheckContributions \<Rightarrow> process_check_contributions rt accounts data L
            | Refund \<Rightarrow> process_refund rt accounts data L))"

end
