(* ===== verification/Fundraiser_Effects.thy ===== *)
theory Fundraiser_Effects
  imports Fundraiser_Program
begin

text \<open>
  What the handlers of \<open>Fundraiser_Program\<close> do to account memory: the structs found in
  it (\<open>fundraiser_at\<close>, \<open>record_at\<close>), one elimination rule per handler that lists
  every check a successful call has passed and the memory it leaves, and the effects of the
  two helpers that create and close program accounts.
\<close>

section \<open>The structs in account memory\<close>

definition fundraiser_at :: "ledger \<Rightarrow> address \<Rightarrow> fundraiser option" where
  "fundraiser_at L F =
     (if acc_owner (L F) = fundraiser_ID \<and> length (acc_data (L F)) = fundraiser_LEN
      then Some (fundraiser_decode (acc_data (L F))) else None)"

definition record_at :: "ledger \<Rightarrow> address \<Rightarrow> contributor option" where
  "record_at L C =
     (if acc_owner (L C) = fundraiser_ID \<and> length (acc_data (L C)) = contributor_LEN
      then Some (contributor_decode (acc_data (L C))) else None)"

text \<open>The amount the contributor account \<open>C\<close> records.\<close>

definition recorded :: "ledger \<Rightarrow> address \<Rightarrow> nat" where
  "recorded L C = (case record_at L C of None \<Rightarrow> 0 | Some c \<Rightarrow> unat (amount_of c))"

lemma fundraiser_at_same_state:
  "same_state (L' F) (L F) \<Longrightarrow> fundraiser_at L' F = fundraiser_at L F"
  by (simp add: fundraiser_at_def same_state_def)

lemma record_at_same_state: "same_state (L' C) (L C) \<Longrightarrow> record_at L' C = record_at L C"
  by (simp add: record_at_def same_state_def)

lemma recorded_same_state: "same_state (L' C) (L C) \<Longrightarrow> recorded L' C = recorded L C"
  by (simp add: recorded_def record_at_same_state)

lemma recorded_not_owned: "acc_owner (L C) \<noteq> fundraiser_ID \<Longrightarrow> recorded L C = 0"
  by (simp add: recorded_def record_at_def)

lemma recorded_fundraiser: "fundraiser_at L F \<noteq> None \<Longrightarrow> recorded L F = 0"
  by (auto simp: recorded_def record_at_def fundraiser_at_def fundraiser_LEN_def
      contributor_LEN_def split: if_splits)

lemma fundraiser_not_record: "fundraiser_at L F \<noteq> None \<Longrightarrow> record_at L F = None"
  by (auto simp: record_at_def fundraiser_at_def fundraiser_LEN_def contributor_LEN_def
      split: if_splits)

lemma fundraiser_at_iff:
  "fundraiser_from_account_info L v = Inr s \<and> owned_by L v fundraiser_ID \<longleftrightarrow>
     fundraiser_at L (av_address v) = Some s"
  by (auto simp: fundraiser_from_account_info_def fundraiser_at_def owned_by_def data_of_def)

lemma fundraiser_atI:
  "fundraiser_from_account_info L v = Inr s \<Longrightarrow> owned_by L v fundraiser_ID \<Longrightarrow>
     fundraiser_at L (av_address v) = Some s"
  by (simp add: fundraiser_at_iff [symmetric])

lemma record_atI:
  "contributor_from_account_info L v = Inr s \<Longrightarrow> owned_by L v fundraiser_ID \<Longrightarrow>
     record_at L (av_address v) = Some s"
  by (auto simp: contributor_from_account_info_def record_at_def owned_by_def data_of_def
      split: if_splits)

lemma fundraiser_at_wf: "fundraiser_at L F = Some s \<Longrightarrow> fundraiser_wf s"
  by (auto simp: fundraiser_at_def fundraiser_data.wf_decode split: if_splits)

lemma fundraiser_at_owner: "fundraiser_at L F = Some s \<Longrightarrow> acc_owner (L F) = fundraiser_ID"
  by (simp add: fundraiser_at_def split: if_splits)

lemma record_at_owner: "record_at L C = Some s \<Longrightarrow> acc_owner (L C) = fundraiser_ID"
  by (simp add: record_at_def split: if_splits)

lemma fundraiser_at_store:
  assumes "acc_owner (L (av_address v)) = fundraiser_ID" and "fundraiser_wf s"
  shows "fundraiser_at (fundraiser_store L v s) (av_address v) = Some s"
  using assms
  by (simp add: fundraiser_at_def fundraiser_store_def set_data_def
      fundraiser_data.length_encode fundraiser_data.decode_encode)

lemma record_at_store:
  assumes "acc_owner (L (av_address v)) = fundraiser_ID" and "contributor_wf s"
  shows "record_at (contributor_store L v s) (av_address v) = Some s"
  using assms
  by (simp add: record_at_def contributor_store_def set_data_def
      contributor_data.length_encode contributor_data.decode_encode)

lemma store_other:
  "a \<noteq> av_address v \<Longrightarrow> fundraiser_store L v s a = L a"
  "a \<noteq> av_address v \<Longrightarrow> contributor_store L v c a = L a"
  by (simp_all add: fundraiser_store_def contributor_store_def set_data_other)

lemma store_owner [simp]:
  "acc_owner (fundraiser_store L v s a) = acc_owner (L a)"
  "acc_owner (contributor_store L v c a) = acc_owner (L a)"
  by (simp_all add: fundraiser_store_def contributor_store_def)

lemma at_other:
  "a \<noteq> av_address v \<Longrightarrow> fundraiser_at (fundraiser_store L v s) a = fundraiser_at L a"
  "a \<noteq> av_address v \<Longrightarrow> fundraiser_at (contributor_store L v c) a = fundraiser_at L a"
  "a \<noteq> av_address v \<Longrightarrow> record_at (fundraiser_store L v s) a = record_at L a"
  "a \<noteq> av_address v \<Longrightarrow> record_at (contributor_store L v c) a = record_at L a"
  by (simp_all add: fundraiser_at_def record_at_def store_other)

text \<open>Stores into program accounts hold no tokens.\<close>

lemma tokens_held_store:
  assumes "documented_runtime rt" and "token_program_ID rt \<noteq> fundraiser_ID"
    and "acc_owner (L (av_address v)) = fundraiser_ID"
  shows "tokens_held rt o' m (fundraiser_store L v s) = tokens_held rt o' m L"
    and "tokens_held rt o' m (contributor_store L v c) = tokens_held rt o' m L"
  using assms
  by (auto intro!: tokens_held_write [where a = "av_address v"] simp: store_other)

section \<open>Program accounts over the calls of other programs\<close>

lemma transfer_fundraiser_at:
  assumes "documented_runtime rt" and "token_program_ID rt \<noteq> fundraiser_ID"
    and "token_transfer rt from to auth n signers L = Inr L'"
  shows "fundraiser_at L' a = fundraiser_at L a" and "record_at L' a = record_at L a"
proof -
  have o: "acc_owner (L' a) = acc_owner (L a)"
    using assms(1,3) by (rule transfer_owner)
  have "acc_owner (L a) = fundraiser_ID \<Longrightarrow> L' a = L a"
    using transfer_keeps [OF assms(1,3)] assms(2) by metis
  with o show "fundraiser_at L' a = fundraiser_at L a" and "record_at L' a = record_at L a"
    by (auto simp: fundraiser_at_def record_at_def)
qed

lemma transfer_recorded:
  assumes "documented_runtime rt" and "token_program_ID rt \<noteq> fundraiser_ID"
    and "token_transfer rt from to auth n signers L = Inr L'"
  shows "recorded L' a = recorded L a"
  using transfer_fundraiser_at [OF assms] by (simp add: recorded_def)

section \<open>Creating a contributor account\<close>

lemma create_contributor_effect:
  assumes rt: "documented_runtime rt" "token_program_ID rt \<noteq> fundraiser_ID"
    and cr: "create_contributor_if_needed rt c f ca bump L = Inr L1"
  shows "a \<noteq> av_address ca \<Longrightarrow> same_state (L1 a) (L a)"
    and "acc_owner (L1 (av_address ca)) = fundraiser_ID"
    and "recorded L1 (av_address ca) = recorded L (av_address ca)"
    and "tokens_held rt o' m L1 = tokens_held rt o' m L"
    and "acc_owner (L (av_address ca)) \<noteq> fundraiser_ID \<Longrightarrow>
      acc_owner (L (av_address ca)) = system_program_ID"
proof -
  have *: "(a \<noteq> av_address ca \<longrightarrow> same_state (L1 a) (L a)) \<and>
    acc_owner (L1 (av_address ca)) = fundraiser_ID \<and>
    recorded L1 (av_address ca) = recorded L (av_address ca) \<and>
    tokens_held rt o' m L1 = tokens_held rt o' m L \<and>
    (acc_owner (L (av_address ca)) \<noteq> fundraiser_ID \<longrightarrow>
      acc_owner (L (av_address ca)) = system_program_ID)"
  proof (cases "owned_by L ca fundraiser_ID")
    case True
    with cr show ?thesis
      by (simp add: create_contributor_if_needed_def owned_by_def)
  next
    case False
    with cr obtain lam La s where
      cre: "system_create_account rt c ca lam (of_nat contributor_LEN) fundraiser_ID
        [contributor_seeds (av_address f) (av_address c) bump] L = Inr La"
      and s: "contributor_from_account_info La ca = Inr s"
      and L1: "L1 = contributor_store La ca ((set_amount s 0)\<lparr>co_bump := bump\<rparr>)"
      by (auto simp: create_contributor_if_needed_def res_simps)
    note res = create_result [OF rt(1) cre]
    have own: "acc_owner (La (av_address ca)) = fundraiser_ID"
      by (simp add: res)
    have "record_at L1 (av_address ca) = Some ((set_amount s 0)\<lparr>co_bump := bump\<rparr>)"
      unfolding L1 by (rule record_at_store) (simp_all add: own)
    moreover have "tokens_held rt o' m L1 = tokens_held rt o' m L"
      using rt own cre tokens_held_store(2) [where L = La and v = ca, OF rt own] tokens_held_create [OF rt(1) cre]
      by (simp add: L1)
    moreover have "a \<noteq> av_address ca \<Longrightarrow> same_state (L1 a) (L a)"
      using create_keeps [OF rt(1) cre] by (simp add: L1 store_other)
    ultimately show ?thesis
      using False own res(1)
      by (simp add: recorded_def record_at_def owned_by_def L1)
  qed
  show "a \<noteq> av_address ca \<Longrightarrow> same_state (L1 a) (L a)"
    and "acc_owner (L1 (av_address ca)) = fundraiser_ID"
    and "recorded L1 (av_address ca) = recorded L (av_address ca)"
    and "tokens_held rt o' m L1 = tokens_held rt o' m L"
    and "acc_owner (L (av_address ca)) \<noteq> fundraiser_ID \<Longrightarrow>
      acc_owner (L (av_address ca)) = system_program_ID"
    using * by simp_all
qed

section \<open>Closing a program account\<close>

lemma close_program_account_effect:
  assumes rt: "documented_runtime rt" and cl: "close_program_account rt L acct dest = Inr L'"
  shows "a \<noteq> av_address acct \<Longrightarrow> same_state (L' a) (L a)"
    and "L' (av_address acct) = closed_account"
    and "av_address acct \<noteq> av_address dest \<Longrightarrow>
      unat (lamports_of L' dest) = unat (lamports_of L dest) + unat (lamports_of L acct)"
    and "a \<noteq> av_address acct \<Longrightarrow> a \<noteq> av_address dest \<Longrightarrow> L' a = L a"
proof -
  from cl obtain total where
    t: "unat total = unat (lamports_of L dest) + unat (lamports_of L acct)"
    and c: "account_close rt acct (set_lamports (set_lamports L dest total) acct 0) = Inr L'"
    by (auto simp: close_program_account_def res_simps Let_def)
  show "a \<noteq> av_address acct \<Longrightarrow> same_state (L' a) (L a)"
    and "L' (av_address acct) = closed_account"
    and "av_address acct \<noteq> av_address dest \<Longrightarrow>
      unat (lamports_of L' dest) = unat (lamports_of L dest) + unat (lamports_of L acct)"
    and "a \<noteq> av_address acct \<Longrightarrow> a \<noteq> av_address dest \<Longrightarrow> L' a = L a"
    by (rule drained_close_result [OF rt c t]; assumption)+
qed

lemma closed_not_found [simp]:
  "L a = closed_account \<Longrightarrow> fundraiser_at L a = None"
  "L a = closed_account \<Longrightarrow> record_at L a = None"
  "L a = closed_account \<Longrightarrow> recorded L a = 0"
  by (simp_all add: fundraiser_at_def recorded_def record_at_def closed_account_def
      fundraiser_LEN_def contributor_LEN_def)

lemma tokens_held_close_program:
  assumes "documented_runtime rt" and "close_program_account rt L acct dest = Inr L'"
    and "acc_owner (L (av_address acct)) \<noteq> token_program_ID rt"
  shows "tokens_held rt o' m L' = tokens_held rt o' m L"
  using assms close_program_account_effect [OF assms(1,2)]
  by (intro tokens_held_drained_close [where acct = "av_address acct"])

section \<open>What a successful call has checked\<close>

lemma validate_token_account_Inr [res_simps]:
  "validate_token_account rt L v own mint = Inr u \<longleftrightarrow>
     (\<exists>t. token_account_at rt L v = Inr t \<and> ta_owner t = own \<and> ta_mint t = mint)"
  by (auto simp: validate_token_account_def res_simps)

lemma verify_pda_Inr [res_simps]:
  "verify_fundraiser_pda_with_maker rt f m b = Inr u \<longleftrightarrow>
     derive_address rt (fundraiser_seeds m b) fundraiser_ID = av_address f"
  "verify_fundraiser_pda rt f mk b = Inr u \<longleftrightarrow>
     derive_address rt (fundraiser_seeds (av_address mk) b) fundraiser_ID = av_address f"
  "verify_contributor_pda rt ca f c b = Inr u \<longleftrightarrow>
     derive_address rt (contributor_seeds (av_address f) (av_address c) b) fundraiser_ID =
       av_address ca"
  by (simp_all add: verify_fundraiser_pda_with_maker_def verify_fundraiser_pda_def
      verify_contributor_pda_def)

lemma token_amount_Inr [res_simps]:
  "token_amount rt L v = Inr n \<longleftrightarrow> (\<exists>t. token_account_at rt L v = Inr t \<and> ta_amount t = n)"
  by (auto simp: token_amount_def res_simps)

lemma pow10_Inr [res_simps]: "pow10 d = Inr n \<longleftrightarrow> unat n = 10 ^ unat d"
proof -
  have "unat (ucast d :: u32) = unat d"
    by (rule unat_ucast_widen) simp
  then show ?thesis by (simp add: pow10_def res_simps)
qed

end
