(* ===== verification/Fundraiser_Campaign.thy ===== *)
theory Fundraiser_Campaign
  imports Fundraiser_Effects
begin

text \<open>
  The abstract campaign: what pinocchio-fundraiser promises, without accounts, bytes and
  calls. A campaign has raised an amount, has on record what each contributor account paid,
  and holds tokens. \<open>campaign_of\<close> reads it off account memory, and each handler is shown to
  implement the abstract step: contributing, refunding, paying out, starting.
\<close>

section \<open>The abstract campaign\<close>

record campaign =
  cp_maker :: address
  cp_mint :: address
  cp_target :: nat
  cp_started :: int
  cp_days :: nat
  cp_raised :: nat
  cp_paid :: "address \<Rightarrow> nat"
  cp_held :: nat

text \<open>The most one contributor account may record: ten percent of the target.\<close>

definition cp_limit :: "campaign \<Rightarrow> nat" where
  "cp_limit cp = cp_target cp * 10 div 100"

definition spec_contribute :: "address \<Rightarrow> nat \<Rightarrow> campaign \<Rightarrow> campaign" where
  "spec_contribute C n cp =
     cp\<lparr>cp_raised := cp_raised cp + n, cp_paid := (cp_paid cp)(C := cp_paid cp C + n),
        cp_held := cp_held cp + n\<rparr>"

definition spec_refund :: "address \<Rightarrow> campaign \<Rightarrow> campaign" where
  "spec_refund C cp =
     cp\<lparr>cp_raised := cp_raised cp - cp_paid cp C, cp_paid := (cp_paid cp)(C := 0),
        cp_held := cp_held cp - cp_paid cp C\<rparr>"

text \<open>A campaign with a duration ends that many whole days after its start.\<close>

definition cp_ended :: "campaign \<Rightarrow> int \<Rightarrow> bool" where
  "cp_ended cp now \<longleftrightarrow> cp_days cp \<noteq> 0 \<and> cp_started cp + int (cp_days cp) * 86400 \<le> now"

text \<open>
  The books balance: what was raised is what the records add up to, the tokens held cover it,
  and no record is above the limit.
\<close>

definition campaign_inv :: "campaign \<Rightarrow> bool" where
  "campaign_inv cp \<longleftrightarrow>
     cp_raised cp = (\<Sum>C\<in>UNIV. cp_paid cp C) \<and> cp_raised cp \<le> cp_held cp \<and>
     (\<forall>C. cp_paid cp C \<le> cp_limit cp)"

lemma spec_contribute_inv:
  assumes "campaign_inv cp" and "cp_paid cp C + n \<le> cp_limit cp"
  shows "campaign_inv (spec_contribute C n cp)"
proof -
  have "(\<Sum>D\<in>UNIV. ((cp_paid cp)(C := cp_paid cp C + n)) D) + cp_paid cp C =
      (\<Sum>D\<in>UNIV. cp_paid cp D) + ((cp_paid cp)(C := cp_paid cp C + n)) C"
    by (rule sum_change_point) simp_all
  with assms show ?thesis
    by (simp add: campaign_inv_def spec_contribute_def cp_limit_def)
qed

lemma spec_refund_inv:
  assumes "campaign_inv cp"
  shows "campaign_inv (spec_refund C cp)"
proof -
  have "(\<Sum>D\<in>UNIV. ((cp_paid cp)(C := 0)) D) + cp_paid cp C =
      (\<Sum>D\<in>UNIV. cp_paid cp D) + ((cp_paid cp)(C := 0)) C"
    by (rule sum_change_point) simp_all
  moreover have "cp_paid cp C \<le> (\<Sum>D\<in>UNIV. cp_paid cp D)"
    by (rule member_le_sum) simp_all
  moreover have "(\<Sum>D\<in>UNIV. cp_paid cp D) = cp_raised cp" and "cp_raised cp \<le> cp_held cp"
    using assms by (simp_all add: campaign_inv_def)
  ultimately have "cp_raised cp - cp_paid cp C = (\<Sum>D\<in>UNIV. ((cp_paid cp)(C := 0)) D)"
    and "cp_raised cp - cp_paid cp C \<le> cp_held cp - cp_paid cp C"
    by simp_all
  then show ?thesis
    using assms by (simp add: campaign_inv_def spec_refund_def cp_limit_def)
qed

lemma campaign_inv_paid_le:
  assumes "campaign_inv cp"
  shows "cp_paid cp C \<le> cp_raised cp"
  using assms member_le_sum [of C UNIV "cp_paid cp"] by (simp add: campaign_inv_def)

section \<open>The campaign in account memory\<close>

text \<open>
  The contributor accounts of the fundraiser at \<open>F\<close>, for the users in \<open>U\<close>. An address is a
  hash of its seeds, so over all conceivable users every address would be somebody's; the
  campaign is read for a given set of users, those who take part.
\<close>

definition contributor_pdas :: "runtime \<Rightarrow> address set \<Rightarrow> address \<Rightarrow> address set" where
  "contributor_pdas rt U F =
     {derive_address rt (contributor_seeds F c b) fundraiser_ID | c b. c \<in> U}"

definition paid_at :: "runtime \<Rightarrow> address set \<Rightarrow> address \<Rightarrow> ledger \<Rightarrow> address \<Rightarrow> nat" where
  "paid_at rt U F L C = (if C \<in> contributor_pdas rt U F then recorded L C else 0)"

definition campaign_view :: "runtime \<Rightarrow> address set \<Rightarrow> address \<Rightarrow> ledger \<Rightarrow> fundraiser \<Rightarrow> campaign" where
  "campaign_view rt U F L s =
     \<lparr>cp_maker = maker_of s, cp_mint = mint_to_raise_of s,
      cp_target = unat (amount_to_raise_of s), cp_started = sint (time_started_of s),
      cp_days = unat (duration_of s), cp_raised = unat (current_amount_of s),
      cp_paid = paid_at rt U F L, cp_held = tokens_held rt F (mint_to_raise_of s) L\<rparr>"

definition campaign_of :: "runtime \<Rightarrow> address set \<Rightarrow> address \<Rightarrow> ledger \<Rightarrow> campaign option" where
  "campaign_of rt U F L = map_option (campaign_view rt U F L) (fundraiser_at L F)"

lemma contributor_pdasI:
  "derive_address rt (contributor_seeds F c b) fundraiser_ID = C \<Longrightarrow> c \<in> U \<Longrightarrow>
     C \<in> contributor_pdas rt U F"
  by (auto simp: contributor_pdas_def)

lemma campaign_view_simps [simp]:
  "cp_maker (campaign_view rt U F L s) = maker_of s"
  "cp_mint (campaign_view rt U F L s) = mint_to_raise_of s"
  "cp_target (campaign_view rt U F L s) = unat (amount_to_raise_of s)"
  "cp_started (campaign_view rt U F L s) = sint (time_started_of s)"
  "cp_days (campaign_view rt U F L s) = unat (duration_of s)"
  "cp_raised (campaign_view rt U F L s) = unat (current_amount_of s)"
  "cp_paid (campaign_view rt U F L s) = paid_at rt U F L"
  "cp_held (campaign_view rt U F L s) = tokens_held rt F (mint_to_raise_of s) L"
  by (simp_all add: campaign_view_def)

text \<open>
  The bumps stored in the campaign's accounts derive their addresses again, so that its
  instructions can name them: the fundraiser's for its maker, a record's for some user.
\<close>

definition bumps_ok :: "runtime \<Rightarrow> address set \<Rightarrow> address \<Rightarrow> ledger \<Rightarrow> bool" where
  "bumps_ok rt U F L \<longleftrightarrow>
     (\<forall>s. fundraiser_at L F = Some s \<longrightarrow>
        derive_address rt (fundraiser_seeds (maker_of s) (fr_bump s)) fundraiser_ID = F) \<and>
     (\<forall>C k. C \<in> contributor_pdas rt U F \<and> record_at L C = Some k \<and> amount_of k \<noteq> 0 \<longrightarrow>
        (\<exists>c\<in>U. derive_address rt (contributor_seeds F c (co_bump k)) fundraiser_ID = C))"

lemma bumps_ok_same:
  assumes "bumps_ok rt U F L" and "fundraiser_at L' F = fundraiser_at L F"
    and "\<And>C. C \<in> contributor_pdas rt U F \<Longrightarrow> record_at L' C = record_at L C"
  shows "bumps_ok rt U F L'"
  using assms(1) unfolding bumps_ok_def assms(2) by (metis assms(3))

text \<open>They are kept when the fundraiser's terms are, and all records but checked ones.\<close>

lemma bumps_okI:
  assumes "fundraiser_at L' F = Some s'"
    and "derive_address rt (fundraiser_seeds (maker_of s') (fr_bump s')) fundraiser_ID = F"
    and "bumps_ok rt U F L \<or> (\<forall>C\<in>contributor_pdas rt U F. recorded L C = 0)"
    and "\<And>D. D \<noteq> C \<Longrightarrow> record_at L' D = record_at L D"
    and "\<And>k. record_at L' C = Some k \<Longrightarrow> record_at L C = Some k \<or>
      (\<exists>c\<in>U. derive_address rt (contributor_seeds F c (co_bump k)) fundraiser_ID = C)"
  shows "bumps_ok rt U F L'"
  unfolding bumps_ok_def
proof (intro conjI allI impI; (elim conjE)?)
  fix s assume "fundraiser_at L' F = Some s"
  then show "derive_address rt (fundraiser_seeds (maker_of s) (fr_bump s)) fundraiser_ID = F"
    using assms(1,2) by simp
next
  fix D k assume D: "D \<in> contributor_pdas rt U F" "record_at L' D = Some k" "amount_of k \<noteq> 0"
  have "record_at L D = Some k \<Longrightarrow>
      \<exists>c\<in>U. derive_address rt (contributor_seeds F c (co_bump k)) fundraiser_ID = D"
    using assms(3) D(1,3) by (auto simp: bumps_ok_def recorded_def unat_eq_zero dest: bspec)
  then show "\<exists>c\<in>U. derive_address rt (contributor_seeds F c (co_bump k)) fundraiser_ID = D"
    using assms(4,5) D(2) by (cases "D = C") auto
qed

section \<open>Time\<close>

lemma sint_SECONDS_TO_DAYS [simp]: "sint SECONDS_TO_DAYS = 86400"
  by (simp add: SECONDS_TO_DAYS_def)

lemma le_div_iff_mult_le:
  fixes d k y :: int
  assumes "0 < k"
  shows "d \<le> y div k \<longleftrightarrow> d * k \<le> y"
proof
  assume "d \<le> y div k"
  then have "d * k \<le> y div k * k"
    using assms by (intro mult_right_mono) simp_all
  also have "\<dots> \<le> y"
    using assms minus_mod_eq_div_mult [of y k] pos_mod_sign [OF assms, of y] by linarith
  finally show "d * k \<le> y" .
next
  assume "d * k \<le> y"
  from zdiv_mono1 [OF this assms] show "d \<le> y div k"
    using assms by simp
qed

text \<open>Whole days, counted by saturating subtraction and truncating division.\<close>

lemma days_elapsed_iff:
  fixes d x :: int
  assumes "0 < d" and "d < 256"
  shows "d \<le> max i64_MIN (min i64_MAX x) sdiv 86400 \<longleftrightarrow> d * 86400 \<le> x"
proof (cases "0 \<le> x")
  case True
  then have c: "max i64_MIN (min i64_MAX x) = min i64_MAX x" and "0 \<le> min i64_MAX x"
    by (simp_all add: i64_MIN_def i64_MAX_def)
  then have "max i64_MIN (min i64_MAX x) sdiv 86400 = min i64_MAX x div 86400"
    unfolding c by (intro sdiv_nonneg) simp_all
  moreover have "d \<le> y div 86400 \<longleftrightarrow> d * 86400 \<le> y" for y
    by (rule le_div_iff_mult_le) simp
  moreover have "d * 86400 \<le> i64_MAX"
    using assms(2) by (simp add: i64_MAX_def)
  ultimately show ?thesis by simp
next
  case False
  then have "max i64_MIN (min i64_MAX x) sdiv 86400 \<le> 0"
    by (intro sdiv_neg_le) (simp_all add: i64_MIN_def i64_MAX_def)
  with assms False show ?thesis by linarith
qed

lemma has_ended_iff:
  "has_ended s now \<longleftrightarrow> cp_ended (campaign_view rt U F L s) (sint now)"
proof -
  define d where "d = int (unat (duration_of s))"
  have "sint (ucast (duration_of s) :: i64) = d"
    unfolding d_def by (rule sint_ucast_widen) simp
  moreover have "sint (div_i64 (saturating_sub_i64 now (time_started_of s)) SECONDS_TO_DAYS) =
      max i64_MIN (min i64_MAX (sint now - sint (time_started_of s))) sdiv 86400"
    by (simp add: sint_div_i64 sint_saturating_sub_i64)
  moreover have "duration_of s \<noteq> 0 \<longleftrightarrow> 0 < d"
    unfolding d_def of_nat_0_less_iff by (metis unat_gt_0)
  moreover have "d < 256"
  proof -
    have "unat (duration_of s) < 256"
      using unsigned_less [of "duration_of s"] by simp
    then show ?thesis unfolding d_def by linarith
  qed
  moreover have "cp_ended (campaign_view rt U F L s) (sint now) \<longleftrightarrow>
      0 < d \<and> d * 86400 \<le> sint now - sint (time_started_of s)"
    unfolding cp_ended_def campaign_view_simps d_def by (simp only: of_nat_0_less_iff) linarith
  ultimately show ?thesis
    unfolding has_ended_def using days_elapsed_iff by metis
qed

end
