(* ===== verification/Fundraiser_Touches.thy ===== *)
theory Fundraiser_Touches
  imports Fundraiser_Campaign
begin

text \<open>
  What a call of the fundraiser may touch: \<open>only_touches\<close>, shown once for each kind of step a
  handler is made of, and composed along the handler.
\<close>

text \<open>
  A call for the fundraiser \<open>F\<close> by the user \<open>u\<close> may change the fundraiser at \<open>F\<close>, the
  records in \<open>Cs\<close> and what \<open>F\<close> and \<open>u\<close> hold, and nothing of any other campaign.
\<close>

definition only_touches ::
    "runtime \<Rightarrow> address \<Rightarrow> address \<Rightarrow> address set \<Rightarrow> ledger \<Rightarrow> ledger \<Rightarrow> bool" where
  "only_touches rt F u Cs L L' \<longleftrightarrow>
     (\<forall>G. G \<noteq> F \<and> fundraiser_at L G \<noteq> None \<longrightarrow> fundraiser_at L' G = fundraiser_at L G) \<and>
     (\<forall>D. D \<notin> Cs \<longrightarrow> record_at L' D = record_at L D) \<and>
     (\<forall>G m. G \<noteq> F \<and> G \<noteq> u \<longrightarrow> tokens_held rt G m L' = tokens_held rt G m L)"

lemma only_touches_campaign:
  assumes "only_touches rt F u Cs L L'" and "G \<noteq> F" and "G \<noteq> u"
    and "Cs \<inter> contributor_pdas rt U G = {}" and "campaign_of rt U G L = Some cp"
  shows "campaign_of rt U G L' = Some cp"
proof -
  from assms(5) obtain s where s: "fundraiser_at L G = Some s"
    and cp: "cp = campaign_view rt U G L s"
    by (auto simp: campaign_of_def)
  have "paid_at rt U G L' = paid_at rt U G L"
    using assms(1,4) by (auto simp: only_touches_def paid_at_def recorded_def fun_eq_iff)
  with assms(1-3) s show ?thesis
    by (simp add: campaign_of_def cp campaign_view_def only_touches_def)
qed

lemma only_touches_refl [simp]: "only_touches rt F u Cs L L"
  by (simp add: only_touches_def)

lemma only_touches_trans [trans]:
  "only_touches rt F u Cs L L1 \<Longrightarrow> only_touches rt F u Cs L1 L2 \<Longrightarrow> only_touches rt F u Cs L L2"
  by (simp add: only_touches_def)

lemma only_touches_record_at:
  "only_touches rt F u Cs L L' \<Longrightarrow> D \<notin> Cs \<Longrightarrow> record_at L' D = record_at L D"
  by (simp add: only_touches_def)

lemma only_touches_recorded: "only_touches rt F u Cs L L' \<Longrightarrow> D \<notin> Cs \<Longrightarrow> recorded L' D = recorded L D"
  by (simp add: only_touches_def recorded_def)

text \<open>A step that changes one account.\<close>

lemma touches_one:
  assumes "\<And>x. x \<noteq> a \<Longrightarrow> same_state (L' x) (L x)"
    and "a \<noteq> F \<Longrightarrow> fundraiser_at L a \<noteq> None \<Longrightarrow> fundraiser_at L' a = fundraiser_at L a"
    and "a \<notin> Cs \<Longrightarrow> record_at L' a = record_at L a"
    and "\<And>G m. G \<noteq> F \<Longrightarrow> G \<noteq> u \<Longrightarrow> tokens_held rt G m L' = tokens_held rt G m L"
  shows "only_touches rt F u Cs L L'"
  unfolding only_touches_def
proof (intro conjI allI impI)
  fix G assume "G \<noteq> F \<and> fundraiser_at L G \<noteq> None"
  then show "fundraiser_at L' G = fundraiser_at L G"
    using assms(1,2) fundraiser_at_same_state by (cases "G = a") blast+
next
  fix D assume "D \<notin> Cs"
  then show "record_at L' D = record_at L D"
    using assms(1,3) record_at_same_state by (cases "D = a") blast+
qed (use assms(4) in blast)

section \<open>Calls of other programs\<close>

lemma touches_transfer:
  assumes rt: "documented_runtime rt" "token_program_ID rt \<noteq> fundraiser_ID"
    and tr: "token_transfer rt from to auth n signers L = Inr L'"
    and "token_account_at rt L from = Inr s" and "ta_owner s \<in> {F, u}"
    and "token_account_at rt L to = Inr d" and "ta_owner d \<in> {F, u}"
  shows "only_touches rt F u Cs L L'"
proof -
  have "tokens_held rt G m L' = tokens_held rt G m L" if "G \<noteq> F" and "G \<noteq> u" for G m
    using tokens_held_transfer [OF rt(1) tr assms(4,6), of G m] assms(5,7) that by auto
  then show ?thesis
    using transfer_fundraiser_at [OF rt tr] by (simp add: only_touches_def)
qed

text \<open>An account of the token program is neither a fundraiser nor a record.\<close>

lemma token_account_foreign:
  assumes "documented_runtime rt" and "token_program_ID rt \<noteq> fundraiser_ID"
    and "token_account_of rt (L a) = Inr t"
  shows "fundraiser_at L a = None" and "record_at L a = None"
  using token_owner [OF assms(1,3)] assms(2)
  by (simp_all add: record_at_def fundraiser_at_def)

lemma system_account_foreign:
  assumes "acc_owner (L a) = system_program_ID"
  shows "fundraiser_at L a = None" and "record_at L a = None"
proof -
  have "fundraiser_ID \<noteq> system_program_ID"
    by (simp add: fundraiser_ID_def system_program_ID_def)
  with assms show "fundraiser_at L a = None" and "record_at L a = None"
    by (auto simp: fundraiser_at_def record_at_def)
qed

lemma touches_ata:
  assumes rt: "documented_runtime rt" "token_program_ID rt \<noteq> fundraiser_ID"
    and ata: "ata_create rt payer acct wallet mint tp sp L = Inr L'"
  shows "only_touches rt F u Cs L L'"
proof (rule touches_one [where a = "av_address acct"])
  show "same_state (L' x) (L x)" if "x \<noteq> av_address acct" for x
    by (rule ata_keeps [OF rt(1) ata that])
qed (use token_account_foreign [where L = L', OF rt ata_result(2) [OF rt(1) ata]]
    system_account_foreign [where L = L, OF ata_result(1) [OF rt(1) ata]] tokens_held_ata [OF rt(1) ata]
    in simp_all)

text \<open>No fundraiser moves, not even \<open>F\<close>.\<close>

lemma ata_fundraiser:
  assumes rt: "documented_runtime rt" "token_program_ID rt \<noteq> fundraiser_ID"
    and ata: "ata_create rt payer acct wallet mint tp sp L = Inr L'"
    and F: "fundraiser_at L F = Some s"
  shows "fundraiser_at L' F = Some s"
proof -
  have "F \<noteq> av_address acct"
    using F system_account_foreign(1) [where L = L, OF ata_result(1) [OF rt(1) ata]] by auto
  then show ?thesis
    using F fundraiser_at_same_state [where L = L and L' = L', OF ata_keeps [OF rt(1) ata]] by simp
qed

lemma touches_token_close:
  assumes rt: "documented_runtime rt" "token_program_ID rt \<noteq> fundraiser_ID"
    and cl: "token_close_account rt acct dest auth signers L = Inr L'"
    and t: "token_account_at rt L acct = Inr t" "ta_owner t \<in> {F, u}"
  shows "only_touches rt F u Cs L L'"
proof (rule touches_one [where a = "av_address acct"])
  show "same_state (L' x) (L x)" if "x \<noteq> av_address acct" for x
    by (rule token_close_keeps [OF rt(1) cl that])
  show "tokens_held rt G m L' = tokens_held rt G m L" if "G \<noteq> F" and "G \<noteq> u" for G m
    by (rule tokens_held_token_close [OF rt(1) cl t(1)]) (use t(2) that in auto)
qed (use token_account_foreign [where L = L, OF rt t(1) [unfolded token_account_at_def]]
    token_close_result(1) [OF rt(1) cl] in simp_all)

section \<open>The program's own accounts\<close>

lemma touches_store_fundraiser:
  assumes rt: "documented_runtime rt" "token_program_ID rt \<noteq> fundraiser_ID"
    and F: "fundraiser_at L (av_address f) = Some s'" and wf: "fundraiser_wf s"
  shows "only_touches rt (av_address f) u Cs L (fundraiser_store L f s)"
proof (rule touches_one [where a = "av_address f"])
  have own: "acc_owner (L (av_address f)) = fundraiser_ID"
    by (rule fundraiser_at_owner [OF F])
  show "record_at (fundraiser_store L f s) (av_address f) = record_at L (av_address f)"
    using F fundraiser_at_store [where L = L, OF own wf] by (simp add: fundraiser_not_record)
  show "tokens_held rt G m (fundraiser_store L f s) = tokens_held rt G m L" for G m
    by (rule tokens_held_store(1) [where L = L, OF rt own])
qed (simp_all add: store_other)

lemma touches_store_contributor:
  assumes rt: "documented_runtime rt" "token_program_ID rt \<noteq> fundraiser_ID"
    and C: "record_at L (av_address ca) = Some k'" "av_address ca \<in> Cs"
  shows "only_touches rt F u Cs L (contributor_store L ca k)"
proof (rule touches_one [where a = "av_address ca"])
  show "fundraiser_at (contributor_store L ca k) (av_address ca) = fundraiser_at L (av_address ca)"
    if "fundraiser_at L (av_address ca) \<noteq> None"
    using C(1) fundraiser_not_record [OF that] by simp
  show "tokens_held rt G m (contributor_store L ca k) = tokens_held rt G m L" for G m
    by (rule tokens_held_store(2) [where L = L, OF rt record_at_owner [OF C(1)]])
qed (use C in \<open>simp_all add: store_other\<close>)

text \<open>After the contributor account is there, it is a record, and not a fundraiser before.\<close>

lemma contributor_there:
  assumes rt: "documented_runtime rt" "token_program_ID rt \<noteq> fundraiser_ID"
    and cr: "create_contributor_if_needed rt c f ca bump L = Inr L1"
    and k: "contributor_from_account_info L1 ca = Inr k"
  shows "record_at L1 (av_address ca) = Some k" and "fundraiser_at L (av_address ca) = None"
    and "only_touches rt F u {av_address ca} L L1"
proof -
  note eff = create_contributor_effect [OF rt cr]
  show k1: "record_at L1 (av_address ca) = Some k"
    using k eff(2) by (intro record_atI) (simp_all add: owned_by_def)
  show none: "fundraiser_at L (av_address ca) = None"
  proof (rule ccontr)
    assume C: "fundraiser_at L (av_address ca) \<noteq> None"
    then have "L1 = L"
      using cr fundraiser_at_owner by (auto simp: create_contributor_if_needed_def owned_by_def)
    with C k1 fundraiser_not_record show False
      by fastforce
  qed
  show "only_touches rt F u {av_address ca} L L1"
    by (rule touches_one [where a = "av_address ca"]) (use eff none in simp_all)
qed

lemma touches_close_program:
  assumes rt: "documented_runtime rt" "token_program_ID rt \<noteq> fundraiser_ID"
    and cl: "close_program_account rt L acct dest = Inr L'"
    and own: "acc_owner (L (av_address acct)) = fundraiser_ID"
    and a: "av_address acct \<in> Cs \<and> fundraiser_at L (av_address acct) = None \<or>
      av_address acct = F \<and> fundraiser_at L F \<noteq> None"
  shows "only_touches rt F u Cs L L'"
proof (rule touches_one [where a = "av_address acct"])
  note eff = close_program_account_effect [OF rt(1) cl]
  show "same_state (L' x) (L x)" if "x \<noteq> av_address acct" for x
    by (rule eff(1) [OF that])
  show "record_at L' (av_address acct) = record_at L (av_address acct)" if "av_address acct \<notin> Cs"
    using that a eff(2) by (auto simp: fundraiser_not_record)
  show "tokens_held rt G m L' = tokens_held rt G m L" for G m
    using tokens_held_close_program [OF rt(1) cl] own rt(2) by simp
qed (use a in auto)

lemma touches_create_fundraiser:
  assumes rt: "documented_runtime rt" "token_program_ID rt \<noteq> fundraiser_ID"
    and cr: "system_create_account rt from f lam (of_nat fundraiser_LEN) fundraiser_ID signers L =
      Inr L'"
  shows "only_touches rt (av_address f) u Cs L L'"
    and "\<exists>s. fundraiser_at L' (av_address f) = Some s"
proof -
  note new = create_result [OF rt(1) cr]
  have "unat (of_nat fundraiser_LEN :: u64) = fundraiser_LEN"
    by (simp add: fundraiser_LEN_def)
  then show F: "\<exists>s. fundraiser_at L' (av_address f) = Some s"
    by (simp add: fundraiser_at_def new(3))
  show "only_touches rt (av_address f) u Cs L L'"
  proof (rule touches_one [where a = "av_address f"])
    show "same_state (L' x) (L x)" if "x \<noteq> av_address f" for x
      by (rule create_keeps [OF rt(1) cr that])
    show "record_at L' (av_address f) = record_at L (av_address f)"
      using F system_account_foreign(2) [where L = L, OF new(1)] by (auto simp: fundraiser_not_record)
    show "tokens_held rt G m L' = tokens_held rt G m L" for G m
      using tokens_held_create [OF rt(1) cr] rt(2) by simp
  qed simp
qed

end
