(* ===== verification/Fundraiser_Refinement.thy ===== *)
theory Fundraiser_Refinement
  imports Fundraiser_Touches
begin

text \<open>
  The handlers implement the abstract campaign. One elimination rule per handler lists every
  check a successful call has passed and the memory it leaves; the refinement lemmas then read
  the campaign off that memory.
\<close>

section \<open>Successful calls\<close>

lemma contributeE:
  assumes "contribute_with rt c mint f ca cata v data L = Inr L'"
  obtains s L1 k now dec n tc tv f2 c3 new_cur new_amt L2 where
    "length data = 9" "av_is_signer c"
    "fundraiser_at L (av_address f) = Some s"
    "mint_to_raise_of s = av_address mint"
    "derive_address rt (fundraiser_seeds (maker_of s) (fr_bump s)) fundraiser_ID = av_address f"
    "create_contributor_if_needed rt c f ca (data ! 0) L = Inr L1"
    "contributor_from_account_info L1 ca = Inr k"
    "derive_address rt (contributor_seeds (av_address f) (av_address c) (co_bump k)) fundraiser_ID =
      av_address ca"
    "token_account_at rt L1 cata = Inr tc" "ta_owner tc = av_address c"
    "ta_mint tc = av_address mint"
    "token_account_at rt L1 v = Inr tv" "ta_owner tv = av_address f"
    "ta_mint tv = av_address mint"
    "clock_unix_timestamp rt = Inr now" "\<not> has_ended s now"
    "mint_decimals_at rt L1 mint = Inr dec"
    "n = from_le_bytes (slice 1 8 data)"
    "10 ^ unat dec \<le> unat n"
    "unat (amount_of k) + unat n \<le> unat (amount_to_raise_of s) * 10 div 100"
    "unat new_cur = unat (current_amount_of s) + unat n"
    "unat new_amt = unat (amount_of k) + unat n"
    "token_transfer rt cata v c n [] L1 = Inr L2"
    "fundraiser_from_account_info L2 f = Inr f2"
    "contributor_from_account_info
       (fundraiser_store L2 f (set_current_amount f2 new_cur)) ca = Inr c3"
    "L' = contributor_store (fundraiser_store L2 f (set_current_amount f2 new_cur)) ca
       (set_amount c3 new_amt)"
proof -
  from assms obtain s L1 k now dec unit_amount n tc tv f2 c3 new_cur new_amt L2 scaled where *:
    "length data = 9" "av_is_signer c" "owned_by L f fundraiser_ID"
    "fundraiser_from_account_info L f = Inr s"
    "mint_to_raise_of s = av_address mint"
    "derive_address rt (fundraiser_seeds (maker_of s) (fr_bump s)) fundraiser_ID = av_address f"
    "create_contributor_if_needed rt c f ca (data ! 0) L = Inr L1"
    "contributor_from_account_info L1 ca = Inr k"
    "derive_address rt (contributor_seeds (av_address f) (av_address c) (co_bump k)) fundraiser_ID =
      av_address ca"
    "token_account_at rt L1 cata = Inr tc" "ta_owner tc = av_address c"
    "ta_mint tc = av_address mint"
    "token_account_at rt L1 v = Inr tv" "ta_owner tv = av_address f"
    "ta_mint tv = av_address mint"
    "clock_unix_timestamp rt = Inr now" "\<not> has_ended s now"
    "mint_decimals_at rt L1 mint = Inr dec"
    "read_u64 data 1 = Inr n"
    "unat unit_amount = 10 ^ unat dec" "\<not> n < unit_amount"
    "unat scaled = unat (amount_to_raise_of s) * unat MAX_CONTRIBUTION_PERCENTAGE"
    "\<not> n > scaled div PERCENTAGE_SCALER"
    "unat new_amt = unat (amount_of k) + unat n"
    "\<not> new_amt > scaled div PERCENTAGE_SCALER"
    "unat new_cur = unat (current_amount_of s) + unat n"
    "token_transfer rt cata v c n [] L1 = Inr L2"
    "fundraiser_from_account_info L2 f = Inr f2"
    "contributor_from_account_info
       (fundraiser_store L2 f (set_current_amount f2 new_cur)) ca = Inr c3"
    "L' = contributor_store (fundraiser_store L2 f (set_current_amount f2 new_cur)) ca
       (set_amount c3 new_amt)"
    unfolding contribute_with_def res_simps Let_def by blast
  have "n = from_le_bytes (slice 1 8 data)"
    using *(1,19) by (simp add: read_u64_def)
  moreover have "10 ^ unat dec \<le> unat n"
    using *(20,21) by (simp add: word_less_nat_alt)
  moreover have "unat (scaled div PERCENTAGE_SCALER) = unat (amount_to_raise_of s) * 10 div 100"
    using *(22)
    by (simp add: unat_div MAX_CONTRIBUTION_PERCENTAGE_def PERCENTAGE_SCALER_def)
  then have "unat (amount_of k) + unat n \<le> unat (amount_to_raise_of s) * 10 div 100"
    using *(24,25) by (simp add: word_less_nat_alt)
  ultimately show ?thesis
    by (intro that [of s L1 k tc tv now dec n new_cur new_amt L2 f2 c3])
      (use * in \<open>simp_all add: fundraiser_atI\<close>)
qed

lemma refundE:
  assumes "refund_with rt c maker mint f ca cata v L = Inr L'"
  obtains s k now tc tv new_cur L1 f1 where
    "av_is_signer c"
    "fundraiser_at L (av_address f) = Some s" "record_at L (av_address ca) = Some k"
    "maker_of s = av_address maker" "mint_to_raise_of s = av_address mint"
    "derive_address rt (fundraiser_seeds (av_address maker) (fr_bump s)) fundraiser_ID =
      av_address f"
    "derive_address rt (contributor_seeds (av_address f) (av_address c) (co_bump k)) fundraiser_ID =
      av_address ca"
    "token_account_at rt L cata = Inr tc" "ta_owner tc = av_address c"
    "ta_mint tc = av_address mint"
    "token_account_at rt L v = Inr tv" "ta_owner tv = av_address f"
    "ta_mint tv = av_address mint"
    "clock_unix_timestamp rt = Inr now" "has_ended s now"
    "unat (ta_amount tv) < unat (amount_to_raise_of s)"
    "token_transfer rt v cata f (amount_of k)
       [fundraiser_seeds (av_address maker) (fr_bump s)] L = Inr L1"
    "unat (current_amount_of s) = unat new_cur + unat (amount_of k)"
    "fundraiser_from_account_info L1 f = Inr f1"
    "close_program_account rt (fundraiser_store L1 f (set_current_amount f1 new_cur)) ca c = Inr L'"
proof -
  from assms obtain s k now tc tv tv' new_cur L1 f1 where *:
    "av_is_signer c" "owned_by L f fundraiser_ID" "owned_by L ca fundraiser_ID"
    "fundraiser_from_account_info L f = Inr s"
    "contributor_from_account_info L ca = Inr k"
    "maker_of s = av_address maker" "mint_to_raise_of s = av_address mint"
    "derive_address rt (fundraiser_seeds (av_address maker) (fr_bump s)) fundraiser_ID =
      av_address f"
    "derive_address rt (contributor_seeds (av_address f) (av_address c) (co_bump k)) fundraiser_ID =
      av_address ca"
    "token_account_at rt L cata = Inr tc" "ta_owner tc = av_address c"
    "ta_mint tc = av_address mint"
    "token_account_at rt L v = Inr tv" "ta_owner tv = av_address f"
    "ta_mint tv = av_address mint"
    "clock_unix_timestamp rt = Inr now" "has_ended s now"
    "token_account_at rt L v = Inr tv'" "\<not> ta_amount tv' \<ge> amount_to_raise_of s"
    "token_transfer rt v cata f (amount_of k)
       [fundraiser_seeds (av_address maker) (fr_bump s)] L = Inr L1"
    "unat (current_amount_of s) = unat new_cur + unat (amount_of k)"
    "fundraiser_from_account_info L1 f = Inr f1"
    "close_program_account rt (fundraiser_store L1 f (set_current_amount f1 new_cur)) ca c = Inr L'"
    unfolding refund_with_def res_simps Let_def de_Morgan_disj not_not by blast
  moreover from *(13,18) have "tv' = tv" by simp
  ultimately show ?thesis
    by (intro that [of s k tc tv now L1 new_cur f1])
      (simp_all add: fundraiser_atI record_atI word_le_nat_alt)
qed

lemma checkE:
  assumes "check_contributions_with rt maker mint f v mata tp sp L = Inr L'"
  obtains s tv L1 tv1 L2 L3 where
    "av_is_signer maker"
    "fundraiser_at L (av_address f) = Some s"
    "maker_of s = av_address maker" "mint_to_raise_of s = av_address mint"
    "derive_address rt (fundraiser_seeds (av_address maker) (fr_bump s)) fundraiser_ID =
      av_address f"
    "token_account_at rt L v = Inr tv" "ta_owner tv = av_address f"
    "ta_mint tv = av_address mint"
    "if owned_by L mata (token_program_ID rt)
     then L1 = L \<and> (\<exists>t. token_account_at rt L mata = Inr t \<and> ta_owner t = av_address maker \<and>
       ta_mint t = av_address mint)
     else ata_create rt maker mata maker mint tp sp L = Inr L1"
    "token_account_at rt L1 v = Inr tv1"
    "unat (amount_to_raise_of s) \<le> unat (ta_amount tv1)"
    "token_transfer rt v mata f (ta_amount tv1)
       [fundraiser_seeds (av_address maker) (fr_bump s)] L1 = Inr L2"
    "token_close_account rt v maker f
       [fundraiser_seeds (av_address maker) (fr_bump s)] L2 = Inr L3"
    "close_program_account rt L3 f maker = Inr L'"
proof -
  from assms obtain s tv L1 tv1 L2 L3 where *:
    "av_is_signer maker" "owned_by L f fundraiser_ID"
    "fundraiser_from_account_info L f = Inr s"
    "maker_of s = av_address maker" "mint_to_raise_of s = av_address mint"
    "derive_address rt (fundraiser_seeds (av_address maker) (fr_bump s)) fundraiser_ID =
      av_address f"
    "token_account_at rt L v = Inr tv" "ta_owner tv = av_address f"
    "ta_mint tv = av_address mint"
    "(if \<not> owned_by L mata (token_program_ID rt)
      then ata_create rt maker mata maker mint tp sp L
      else and_then (validate_token_account rt L mata (av_address maker) (av_address mint))
        (\<lambda>_. Inr L)) = Inr L1"
    "token_account_at rt L1 v = Inr tv1"
    "\<not> ta_amount tv1 < amount_to_raise_of s"
    "token_transfer rt v mata f (ta_amount tv1)
       [fundraiser_seeds (av_address maker) (fr_bump s)] L1 = Inr L2"
    "token_close_account rt v maker f
       [fundraiser_seeds (av_address maker) (fr_bump s)] L2 = Inr L3"
    "close_program_account rt L3 f maker = Inr L'"
    unfolding check_contributions_with_def res_simps Let_def de_Morgan_disj not_not by blast
  moreover have "if owned_by L mata (token_program_ID rt)
     then L1 = L \<and> (\<exists>t. token_account_at rt L mata = Inr t \<and> ta_owner t = av_address maker \<and>
       ta_mint t = av_address mint)
     else ata_create rt maker mata maker mint tp sp L = Inr L1"
    using *(10) by (auto simp: res_simps split: if_splits)
  ultimately show ?thesis
    by (intro that [of s tv L1 tv1 L2 L3])
      (simp_all add: fundraiser_atI word_less_nat_alt)
qed

lemma initializeE:
  assumes "initialize_with rt maker mint f v sp tp data L = Inr L'"
  obtains n dec lam L1 L2 s0 now where
    "length data = 10" "av_is_signer maker" "\<not> owned_by L f fundraiser_ID"
    "n = from_le_bytes (slice 1 8 data)"
    "derive_address rt (fundraiser_seeds (av_address maker) (data ! 0)) fundraiser_ID = av_address f"
    "mint_decimals_at rt L mint = Inr dec"
    "3 * 10 ^ unat dec < unat n"
    "system_create_account rt maker f lam (of_nat fundraiser_LEN) fundraiser_ID
       [fundraiser_seeds (av_address maker) (data ! 0)] L = Inr L1"
    "ata_create rt maker v f mint tp sp L1 = Inr L2"
    "fundraiser_from_account_info L2 f = Inr s0"
    "clock_unix_timestamp rt = Inr now"
    "L' = fundraiser_store L2 f
       ((set_duration (set_time_started (set_current_amount (set_amount_to_raise
          (set_mint_to_raise (set_maker s0 (av_address maker)) (av_address mint)) n) 0) now)
          (data ! 9))\<lparr>fr_bump := data ! 0\<rparr>)"
proof -
  from assms obtain n dec unit_amount least lam L1 L2 s0 now where *:
    "length data = 10" "av_is_signer maker" "\<not> owned_by L f fundraiser_ID"
    "read_u64 data 1 = Inr n"
    "derive_address rt (fundraiser_seeds (av_address maker) (data ! 0)) fundraiser_ID = av_address f"
    "mint_decimals_at rt L mint = Inr dec"
    "unat (unit_amount :: u64) = 10 ^ unat dec"
    "unat least = unat MIN_AMOUNT_TO_RAISE * unat unit_amount"
    "\<not> n \<le> least"
    "system_create_account rt maker f lam (of_nat fundraiser_LEN) fundraiser_ID
       [fundraiser_seeds (av_address maker) (data ! 0)] L = Inr L1"
    "ata_create rt maker v f mint tp sp L1 = Inr L2"
    "fundraiser_from_account_info L2 f = Inr s0"
    "clock_unix_timestamp rt = Inr now"
    "fundraiser_store L2 f
       ((set_duration (set_time_started (set_current_amount (set_amount_to_raise
          (set_mint_to_raise (set_maker s0 (av_address maker)) (av_address mint)) n) 0) now)
          (data ! 9))\<lparr>fr_bump := data ! 0\<rparr>) = L'"
    unfolding initialize_with_def res_simps Let_def sum.inject not_not by blast
  have "3 * 10 ^ unat dec < unat n"
    using *(7,8,9) by (simp add: word_le_nat_alt MIN_AMOUNT_TO_RAISE_def)
  moreover have "n = from_le_bytes (slice 1 8 data)"
    using *(1,4) by (simp add: read_u64_def)
  ultimately show ?thesis
    using * by (intro that [of n dec lam L1 L2 s0 now]) auto
qed

section \<open>Contributing\<close>

definition contribution_amount :: "u8 list \<Rightarrow> nat" where
  "contribution_amount data = unat (from_le_bytes (slice 1 8 data) :: u64)"

text \<open>The two writes at the end: the campaign's total and the contributor's record.\<close>

lemma contribution_stored:
  assumes rt: "documented_runtime rt" "token_program_ID rt \<noteq> fundraiser_ID"
    and s: "fundraiser_at L (av_address f) = Some s" and k: "record_at L (av_address ca) = Some k"
    and f2: "fundraiser_from_account_info L f = Inr f2"
    and c3: "contributor_from_account_info (fundraiser_store L f (set_current_amount f2 cur)) ca = Inr c3"
    and L': "L' = contributor_store (fundraiser_store L f (set_current_amount f2 cur)) ca
      (set_amount c3 amt)"
  shows "fundraiser_at L' (av_address f) = Some (set_current_amount s cur)"
    and "record_at L' (av_address ca) = Some (set_amount k amt)"
    and "tokens_held rt G m L' = tokens_held rt G m L"
    and "only_touches rt (av_address f) u {av_address ca} L L'"
proof -
  let ?F = "av_address f" and ?C = "av_address ca" and ?L = "fundraiser_store L f (set_current_amount f2 cur)"
  have FC: "?F \<noteq> ?C"
    using s k fundraiser_not_record [of L ?F] by auto
  have own: "acc_owner (L ?F) = fundraiser_ID" "acc_owner (?L ?C) = fundraiser_ID"
    using s k FC by (simp_all add: fundraiser_at_owner record_at_owner at_other)
  have f2s: "f2 = s"
    using f2 own(1) s fundraiser_at_iff [of L f f2] by (auto simp: owned_by_def)
  show "fundraiser_at L' ?F = Some (set_current_amount s cur)"
    using FC own s by (simp add: L' f2s at_other fundraiser_at_store fundraiser_at_wf)
  have "record_at ?L ?C = Some c3"
    using c3 own(2) by (intro record_atI) (simp_all add: owned_by_def)
  then have "c3 = k"
    using k FC by (simp add: at_other)
  then show "record_at L' ?C = Some (set_amount k amt)"
    using own(2) by (simp add: L' record_at_store)
  show "tokens_held rt G m L' = tokens_held rt G m L"
    using tokens_held_store [where L = L and v = f, OF rt own(1)]
      tokens_held_store [where L = ?L and v = ca, OF rt own(2)] by (simp add: L')
  have "only_touches rt ?F u {?C} L ?L"
    unfolding f2s using fundraiser_at_wf [OF s] by (intro touches_store_fundraiser [OF rt s]) simp
  also have "only_touches rt ?F u {?C} ?L L'"
    unfolding L' using k FC
    by (intro touches_store_contributor [OF rt, where k' = k]) (simp_all add: at_other)
  finally show "only_touches rt ?F u {?C} L L'" .
qed

lemma contribute_campaign:
  assumes rt: "documented_runtime rt" "token_program_ID rt \<noteq> fundraiser_ID"
    and call: "contribute_with rt c mint f ca cata v data L = Inr L'"
    and user: "av_address c \<in> U"
  obtains cp now dec where
    "campaign_of rt U (av_address f) L = Some cp"
    "av_address c \<noteq> av_address f \<Longrightarrow> campaign_of rt U (av_address f) L' =
      Some (spec_contribute (av_address ca) (contribution_amount data) cp)"
    "av_address ca \<in> contributor_pdas rt U (av_address f)"
    "cp_paid cp (av_address ca) + contribution_amount data \<le> cp_limit cp"
    "clock_unix_timestamp rt = Inr now" "\<not> cp_ended cp (sint now)"
    "cp_mint cp = av_address mint"
    "only_touches rt (av_address f) (av_address c) {av_address ca} L L'"
    "bumps_ok rt U (av_address f) L \<Longrightarrow> bumps_ok rt U (av_address f) L'"
proof -
  let ?F = "av_address f" and ?C = "av_address ca"
  from call obtain s L1 k now dec n tc tv f2 c3 new_cur new_amt L2 where
    s: "fundraiser_at L ?F = Some s" and mint: "mint_to_raise_of s = av_address mint"
    and pda_f: "derive_address rt (fundraiser_seeds (maker_of s) (fr_bump s)) fundraiser_ID = ?F"
    and cr: "create_contributor_if_needed rt c f ca (data ! 0) L = Inr L1"
    and k: "contributor_from_account_info L1 ca = Inr k"
    and pda: "derive_address rt (contributor_seeds ?F (av_address c) (co_bump k)) fundraiser_ID = ?C"
    and tc: "token_account_at rt L1 cata = Inr tc" "ta_owner tc = av_address c"
      "ta_mint tc = av_address mint"
    and tv: "token_account_at rt L1 v = Inr tv" "ta_owner tv = ?F" "ta_mint tv = av_address mint"
    and now: "clock_unix_timestamp rt = Inr now" "\<not> has_ended s now"
    and n: "n = from_le_bytes (slice 1 8 data)"
    and lim: "unat (amount_of k) + unat n \<le> unat (amount_to_raise_of s) * 10 div 100"
    and cur: "unat new_cur = unat (current_amount_of s) + unat n"
    and amt: "unat new_amt = unat (amount_of k) + unat n"
    and tr: "token_transfer rt cata v c n [] L1 = Inr L2"
    and f2: "fundraiser_from_account_info L2 f = Inr f2"
    and c3: "contributor_from_account_info
      (fundraiser_store L2 f (set_current_amount f2 new_cur)) ca = Inr c3"
    and L': "L' = contributor_store (fundraiser_store L2 f (set_current_amount f2 new_cur)) ca
      (set_amount c3 new_amt)"
    by (rule contributeE) blast
  note there = contributor_there [OF rt cr k]
  have s2: "fundraiser_at L2 ?F = Some s" and k2: "record_at L2 ?C = Some k"
    using s there(1,2) create_contributor_effect(1) [OF rt cr, of ?F]
      fundraiser_at_same_state [of L1 ?F L]
    by (cases "?F = ?C"; simp add: transfer_fundraiser_at [OF rt tr])+
  note stored = contribution_stored [OF rt s2 k2 f2 c3 L']
  have touch: "only_touches rt ?F (av_address c) {?C} L L'"
  proof -
    note there(3)
    also have "only_touches rt ?F (av_address c) {?C} L1 L2"
      by (rule touches_transfer [OF rt tr tc(1) _ tv(1)]) (simp_all add: tc tv)
    also note stored(4)
    finally show ?thesis .
  qed
  have rec_k: "recorded L ?C = unat (amount_of k)"
    using create_contributor_effect(3) [OF rt cr] there(1) by (simp add: recorded_def)
  have C: "?C \<in> contributor_pdas rt U ?F"
    using pda user by (rule contributor_pdasI)
  have paid: "paid_at rt U ?F L' = (paid_at rt U ?F L)(?C := paid_at rt U ?F L ?C + unat n)"
    using C stored(2) amt rec_k only_touches_recorded [OF touch]
    by (auto simp: paid_at_def recorded_def fun_eq_iff)
  have bumps: "bumps_ok rt U ?F L'" if "bumps_ok rt U ?F L"
    by (rule bumps_okI [where L = L and L' = L' and C = ?C, OF stored(1)])
      (use that pda_f pda user stored(2) only_touches_record_at [OF touch] in auto)
  have held: "tokens_held rt ?F (av_address mint) L' =
      tokens_held rt ?F (av_address mint) L + unat n" if "av_address c \<noteq> ?F"
    using tokens_held_transfer [OF rt(1) tr tc(1) tv(1), of ?F "av_address mint"] tc tv that
      create_contributor_effect(4) [OF rt cr] stored(3) by simp
  let ?cp = "campaign_view rt U ?F L s"
  have "contribution_amount data = unat n"
    by (simp add: contribution_amount_def n)
  moreover have "campaign_of rt U ?F L' = Some (spec_contribute ?C (unat n) ?cp)"
    if "av_address c \<noteq> ?F"
    using stored(1) cur held [OF that]
    by (simp add: campaign_of_def campaign_view_def spec_contribute_def mint paid)
  moreover have "campaign_of rt U ?F L = Some ?cp"
    using s by (simp add: campaign_of_def)
  moreover have "cp_paid ?cp ?C + unat n \<le> cp_limit ?cp"
    using lim C rec_k by (simp add: cp_limit_def paid_at_def)
  moreover have "\<not> cp_ended ?cp (sint now)"
    using now(2) has_ended_iff [of s now rt U ?F L] by simp
  ultimately show ?thesis
    using C now mint touch bumps by (intro that [of ?cp now]) simp_all
qed

section \<open>Refunding\<close>

text \<open>The end of a refund: the total is stored and the record is closed.\<close>

lemma refund_stored:
  assumes rt: "documented_runtime rt" "token_program_ID rt \<noteq> fundraiser_ID"
    and s: "fundraiser_at L (av_address f) = Some s" and k: "record_at L (av_address ca) = Some k"
    and f1: "fundraiser_from_account_info L f = Inr f1"
    and cl: "close_program_account rt (fundraiser_store L f (set_current_amount f1 cur)) ca c = Inr L'"
  shows "fundraiser_at L' (av_address f) = Some (set_current_amount s cur)"
    and "record_at L' (av_address ca) = None"
    and "tokens_held rt G m L' = tokens_held rt G m L"
    and "only_touches rt (av_address f) u {av_address ca} L L'"
proof -
  let ?F = "av_address f" and ?C = "av_address ca" and ?L = "fundraiser_store L f (set_current_amount f1 cur)"
  have FC: "?F \<noteq> ?C"
    using s k fundraiser_not_record [of L ?F] by auto
  have own: "acc_owner (L ?F) = fundraiser_ID" "acc_owner (L ?C) = fundraiser_ID"
    using s k by (simp_all add: fundraiser_at_owner record_at_owner)
  have f1s: "f1 = s"
    using f1 own(1) s fundraiser_at_iff [of L f f1] by (auto simp: owned_by_def)
  note eff = close_program_account_effect [OF rt(1) cl]
  have none: "fundraiser_at ?L ?C = None"
    using k FC fundraiser_not_record [of L ?C]
    by (cases "fundraiser_at L ?C") (simp_all add: at_other)
  have "fundraiser_at ?L ?F = Some (set_current_amount s cur)"
    using own(1) fundraiser_at_wf [OF s] by (simp add: f1s fundraiser_at_store)
  then show "fundraiser_at L' ?F = Some (set_current_amount s cur)"
    using fundraiser_at_same_state [where L = ?L and L' = L', OF eff(1) [OF FC]] by simp
  show "record_at L' ?C = None"
    using eff(2) by (simp add: record_at_def closed_account_def contributor_LEN_def)
  show "tokens_held rt G m L' = tokens_held rt G m L"
    using tokens_held_close_program [OF rt(1) cl] rt own by (simp add: tokens_held_store)
  have "only_touches rt ?F u {?C} L ?L"
    unfolding f1s using fundraiser_at_wf [OF s] by (intro touches_store_fundraiser [OF rt s]) simp
  also have "only_touches rt ?F u {?C} ?L L'"
    using own(2) none by (intro touches_close_program [OF rt cl]) simp_all
  finally show "only_touches rt ?F u {?C} L L'" .
qed

lemma refund_campaign:
  assumes rt: "documented_runtime rt" "token_program_ID rt \<noteq> fundraiser_ID"
    and call: "refund_with rt c maker mint f ca cata v L = Inr L'"
    and user: "av_address c \<in> U"
  obtains cp now where
    "campaign_of rt U (av_address f) L = Some cp"
    "av_address c \<noteq> av_address f \<Longrightarrow>
      campaign_of rt U (av_address f) L' = Some (spec_refund (av_address ca) cp)"
    "av_address ca \<in> contributor_pdas rt U (av_address f)"
    "cp_paid cp (av_address ca) \<le> cp_raised cp"
    "clock_unix_timestamp rt = Inr now" "cp_ended cp (sint now)"
    "cp_mint cp = av_address mint" "cp_maker cp = av_address maker"
    "record_at L' (av_address ca) = None"
    "only_touches rt (av_address f) (av_address c) {av_address ca} L L'"
    "\<And>m. av_address c \<noteq> av_address f \<Longrightarrow> tokens_held rt (av_address c) m L' =
      tokens_held rt (av_address c) m L +
        (if m = av_address mint then cp_paid cp (av_address ca) else 0)"
    "bumps_ok rt U (av_address f) L \<Longrightarrow> bumps_ok rt U (av_address f) L'"
proof -
  let ?F = "av_address f" and ?C = "av_address ca"
  from call obtain s k now tc tv new_cur L1 f1 where
    s: "fundraiser_at L ?F = Some s" and k: "record_at L ?C = Some k"
    and maker: "maker_of s = av_address maker" and mint: "mint_to_raise_of s = av_address mint"
    and pda_f: "derive_address rt (fundraiser_seeds (av_address maker) (fr_bump s)) fundraiser_ID = ?F"
    and pda: "derive_address rt (contributor_seeds ?F (av_address c) (co_bump k)) fundraiser_ID = ?C"
    and tc: "token_account_at rt L cata = Inr tc" "ta_owner tc = av_address c"
      "ta_mint tc = av_address mint"
    and tv: "token_account_at rt L v = Inr tv" "ta_owner tv = ?F" "ta_mint tv = av_address mint"
    and now: "clock_unix_timestamp rt = Inr now" "has_ended s now"
    and tr: "token_transfer rt v cata f (amount_of k)
       [fundraiser_seeds (av_address maker) (fr_bump s)] L = Inr L1"
    and cur: "unat (current_amount_of s) = unat new_cur + unat (amount_of k)"
    and f1: "fundraiser_from_account_info L1 f = Inr f1"
    and cl: "close_program_account rt (fundraiser_store L1 f (set_current_amount f1 new_cur)) ca c
      = Inr L'"
    by (rule refundE) blast
  have s1: "fundraiser_at L1 ?F = Some s" and k1: "record_at L1 ?C = Some k"
    using s k by (simp_all add: transfer_fundraiser_at [OF rt tr])
  note stored = refund_stored [OF rt s1 k1 f1 cl]
  have touch: "only_touches rt ?F (av_address c) {?C} L L'"
  proof -
    have "only_touches rt ?F (av_address c) {?C} L L1"
      by (rule touches_transfer [OF rt tr tv(1) _ tc(1)]) (simp_all add: tc tv)
    also note stored(4)
    finally show ?thesis .
  qed
  have bumps: "bumps_ok rt U ?F L'" if "bumps_ok rt U ?F L"
    by (rule bumps_okI [where L = L and L' = L' and C = ?C, OF stored(1)])
      (use that pda_f maker stored(2) only_touches_record_at [OF touch] in auto)
  have C: "?C \<in> contributor_pdas rt U ?F"
    using pda user by (rule contributor_pdasI)
  have rec_C: "recorded L ?C = unat (amount_of k)" and rec_C': "recorded L' ?C = 0"
    using k stored(2) by (simp_all add: recorded_def)
  have paid: "paid_at rt U ?F L' = (paid_at rt U ?F L)(?C := 0)"
    using rec_C' only_touches_recorded [OF touch] by (auto simp: paid_at_def fun_eq_iff)
  note move = tokens_held_transfer [OF rt(1) tr tv(1) tc(1)]
  have held: "tokens_held rt ?F (av_address mint) L' + unat (amount_of k) =
      tokens_held rt ?F (av_address mint) L"
    if nf: "av_address c \<noteq> ?F"
    using move [of ?F "av_address mint"] tc tv nf stored(3) by simp
  have gain: "tokens_held rt (av_address c) m L' = tokens_held rt (av_address c) m L +
      (if m = av_address mint then unat (amount_of k) else 0)"
    if nf: "av_address c \<noteq> ?F" for m
    using move [of "av_address c" m] tc tv nf stored(3) by auto
  let ?cp = "campaign_view rt U ?F L s"
  have "cp_paid ?cp ?C = unat (amount_of k)"
    using C rec_C by (simp add: paid_at_def)
  moreover from this have "campaign_of rt U ?F L' = Some (spec_refund ?C ?cp)"
    if "av_address c \<noteq> ?F"
    using that stored(1) cur held [OF that] C rec_C
    by (simp add: campaign_of_def campaign_view_def spec_refund_def mint paid paid_at_def)
  moreover have "campaign_of rt U ?F L = Some ?cp"
    using s by (simp add: campaign_of_def)
  moreover have "cp_ended ?cp (sint now)"
    using now(2) has_ended_iff [of s now rt U ?F L] by simp
  ultimately show ?thesis
    using C now mint maker cur gain touch bumps stored(2) by (intro that [of ?cp now]) simp_all
qed

section \<open>Starting\<close>

lemma initialize_campaign:
  assumes rt: "documented_runtime rt" "token_program_ID rt \<noteq> fundraiser_ID"
    and call: "initialize_with rt maker mint f v sp tp data L = Inr L'"
    and nf: "av_address maker \<noteq> av_address f"
  obtains now dec where
    "campaign_of rt U (av_address f) L = None"
    "campaign_of rt U (av_address f) L' =
      Some \<lparr>cp_maker = av_address maker, cp_mint = av_address mint,
        cp_target = contribution_amount data, cp_started = sint now,
        cp_days = unat (data ! 9), cp_raised = 0, cp_paid = paid_at rt U (av_address f) L,
        cp_held = tokens_held rt (av_address f) (av_address mint) L\<rparr>"
    "clock_unix_timestamp rt = Inr now"
    "mint_decimals_at rt L mint = Inr dec" "3 * 10 ^ unat dec < contribution_amount data"
    "only_touches rt (av_address f) (av_address maker) {} L L'"
    "token_account_at rt L' v =
      Inr \<lparr>ta_mint = av_address mint, ta_owner = av_address f, ta_amount = 0\<rparr>"
    "(\<And>C. C \<in> contributor_pdas rt U (av_address f) \<Longrightarrow> recorded L C = 0) \<Longrightarrow>
      bumps_ok rt U (av_address f) L'"
proof -
  let ?F = "av_address f"
  from call obtain n dec lam L1 L2 s0 now where
    new: "\<not> owned_by L f fundraiser_ID"
    and n: "n = from_le_bytes (slice 1 8 data)"
    and pda_f: "derive_address rt (fundraiser_seeds (av_address maker) (data ! 0)) fundraiser_ID = ?F"
    and dec: "mint_decimals_at rt L mint = Inr dec" "3 * 10 ^ unat dec < unat n"
    and cr: "system_create_account rt maker f lam (of_nat fundraiser_LEN) fundraiser_ID
       [fundraiser_seeds (av_address maker) (data ! 0)] L = Inr L1"
    and ata: "ata_create rt maker v f mint tp sp L1 = Inr L2"
    and s0: "fundraiser_from_account_info L2 f = Inr s0"
    and now: "clock_unix_timestamp rt = Inr now"
    and L': "L' = fundraiser_store L2 f
       ((set_duration (set_time_started (set_current_amount (set_amount_to_raise
          (set_mint_to_raise (set_maker s0 (av_address maker)) (av_address mint)) n) 0) now)
          (data ! 9))\<lparr>fr_bump := data ! 0\<rparr>)" (is "_ = fundraiser_store L2 f ?s")
    by (rule initializeE) blast
  note made = touches_create_fundraiser [OF rt cr] and at = ata_result [OF rt(1) ata]
  obtain s1 where s1: "fundraiser_at L1 ?F = Some s1"
    using made(2) by blast
  note s2 = ata_fundraiser [OF rt ata s1]
  have own2: "acc_owner (L2 ?F) = fundraiser_ID"
    by (rule fundraiser_at_owner [OF s2])
  have s0s: "s0 = s1"
    using s0 own2 s2 fundraiser_at_iff [of L2 f s0] by (auto simp: owned_by_def)
  have wf: "fundraiser_wf ?s"
    using fundraiser_at_wf [OF s2] by (simp add: s0s)
  have touch: "only_touches rt ?F (av_address maker) {} L L'"
  proof -
    note made(1)
    also have "only_touches rt ?F (av_address maker) {} L1 L2"
      by (rule touches_ata [OF rt ata])
    also have "only_touches rt ?F (av_address maker) {} L2 L'"
      unfolding L' by (rule touches_store_fundraiser [OF rt s2 wf])
    finally show ?thesis .
  qed
  have s': "fundraiser_at L' ?F = Some ?s"
    unfolding L' using own2 wf by (intro fundraiser_at_store)
  have bumps: "bumps_ok rt U ?F L'" if "\<And>C. C \<in> contributor_pdas rt U ?F \<Longrightarrow> recorded L C = 0"
    by (rule bumps_okI [where L = L and L' = L', OF s'])
      (use that pda_f only_touches_record_at [OF touch] in auto)
  have held: "tokens_held rt G m L' = tokens_held rt G m L" for G m
    using rt own2 tokens_held_ata [OF rt(1) ata] tokens_held_create [OF rt(1) cr]
    by (simp add: L' tokens_held_store)
  have "av_address v \<noteq> ?F"
    using s1 system_account_foreign(1) [where L = L1, OF at(1)] by auto
  then have "token_account_at rt L' v =
      Inr \<lparr>ta_mint = av_address mint, ta_owner = ?F, ta_amount = 0\<rparr>"
    using at(2) by (simp add: L' store_other token_account_at_def)
  moreover have "paid_at rt U ?F L' = paid_at rt U ?F L"
    using only_touches_recorded [OF touch] by (simp add: paid_at_def fun_eq_iff)
  moreover have "campaign_of rt U ?F L = None"
    using new by (simp add: campaign_of_def fundraiser_at_def owned_by_def)
  moreover have "contribution_amount data = unat n"
    by (simp add: contribution_amount_def n)
  ultimately show ?thesis
    using s' now dec held touch bumps
    by (intro that [of now dec]) (simp_all add: campaign_of_def campaign_view_def)
qed

section \<open>Paying out\<close>

text \<open>
  A payout moves the whole balance of the vault it is given to the maker, and closes the
  vault and the fundraiser account.
\<close>

text \<open>The maker's token account was there, or is created.\<close>

lemma maker_account_there:
  assumes rt: "documented_runtime rt" "token_program_ID rt \<noteq> fundraiser_ID"
    and L1: "if owned_by L mata (token_program_ID rt)
      then L1 = L \<and> (\<exists>t. token_account_at rt L mata = Inr t \<and> ta_owner t = av_address maker \<and>
        ta_mint t = av_address mint)
      else ata_create rt maker mata maker mint tp sp L = Inr L1"
    and v: "token_account_at rt L v = Inr tv" and F: "fundraiser_at L F = Some s"
  obtains tm where "token_account_at rt L1 mata = Inr tm" "ta_owner tm = av_address maker"
    "ta_mint tm = av_address mint" "token_account_at rt L1 v = Inr tv" "fundraiser_at L1 F = Some s"
    "\<And>o' m. tokens_held rt o' m L1 = tokens_held rt o' m L" "only_touches rt F u {} L L1"
proof (cases "owned_by L mata (token_program_ID rt)")
  case True
  with L1 v F show ?thesis
    by (auto intro: that)
next
  case False
  with L1 have ata: "ata_create rt maker mata maker mint tp sp L = Inr L1"
    by simp
  have "av_address v \<noteq> av_address mata"
    using False v token_owner [OF rt(1)] by (auto simp: owned_by_def token_account_at_def)
  then have "token_account_at rt L1 v = Inr tv"
    using v same_state_token [OF ata_keeps [OF rt(1) ata]] by (simp add: token_account_at_def)
  then show ?thesis
    using ata_result(2) [OF rt(1) ata] ata_fundraiser [OF rt ata F] tokens_held_ata [OF rt(1) ata]
      touches_ata [OF rt ata]
    by (intro that [of "\<lparr>ta_mint = av_address mint, ta_owner = av_address maker, ta_amount = 0\<rparr>"])
      (simp_all add: token_account_at_def)
qed

text \<open>The end of a payout: the vault, emptied, and the fundraiser account are closed.\<close>

lemma payout_closed:
  assumes rt: "documented_runtime rt" "token_program_ID rt \<noteq> fundraiser_ID"
    and s: "fundraiser_at L (av_address f) = Some s"
    and v: "token_account_at rt L v = Inr tv" "ta_amount tv = 0" "ta_owner tv = av_address f"
    and tcl: "token_close_account rt v maker f sg L = Inr L1"
    and cl: "close_program_account rt L1 f maker = Inr L'"
  shows "L' (av_address v) = closed_account" and "L' (av_address f) = closed_account"
    and "tokens_held rt G m L' = tokens_held rt G m L"
    and "only_touches rt (av_address f) u {} L L'"
proof -
  let ?F = "av_address f"
  have vF: "av_address v \<noteq> ?F"
    using s token_account_foreign(1) [where L = L, OF rt v(1) [unfolded token_account_at_def]]
    by auto
  have s1: "fundraiser_at L1 ?F = Some s"
    using fundraiser_at_same_state [where L = L and L' = L1, OF token_close_keeps [OF rt(1) tcl]]
      s vF by simp
  note close = close_program_account_effect [OF rt(1) cl]
  show "L' (av_address v) = closed_account"
    using close(4) [OF vF token_close_result(2) [OF rt(1) tcl]] token_close_result(1) [OF rt(1) tcl]
    by simp
  show "L' ?F = closed_account"
    by (rule close(2))
  show "tokens_held rt G m L' = tokens_held rt G m L"
    using tokens_held_close_program [OF rt(1) cl] fundraiser_at_owner [OF s1] rt(2)
      tokens_held_token_close [OF rt(1) tcl v(1)] v(2) by simp
  have "only_touches rt ?F u {} L L1"
    by (rule touches_token_close [OF rt tcl v(1)]) (simp add: v)
  also have "only_touches rt ?F u {} L1 L'"
    by (rule touches_close_program [OF rt cl]) (use s1 fundraiser_at_owner in simp_all)
  finally show "only_touches rt ?F u {} L L'" .
qed

lemma check_campaign:
  assumes rt: "documented_runtime rt" "token_program_ID rt \<noteq> fundraiser_ID"
    and call: "check_contributions_with rt maker mint f v mata tp sp L = Inr L'"
    and nf: "av_address maker \<noteq> av_address f"
  obtains cp tv where
    "campaign_of rt U (av_address f) L = Some cp"
    "campaign_of rt U (av_address f) L' = None"
    "cp_maker cp = av_address maker" "cp_mint cp = av_address mint"
    "token_account_at rt L v = Inr tv"
    "cp_target cp \<le> unat (ta_amount tv)" "cp_target cp \<le> cp_held cp"
    "tokens_held rt (av_address maker) (av_address mint) L' =
      tokens_held rt (av_address maker) (av_address mint) L + unat (ta_amount tv)"
    "tokens_held rt (av_address f) (av_address mint) L' + unat (ta_amount tv) =
      tokens_held rt (av_address f) (av_address mint) L"
    "\<And>D. recorded L' D = recorded L D"
    "only_touches rt (av_address f) (av_address maker) {} L L'"
    "L' (av_address v) = closed_account" "L' (av_address f) = closed_account"
proof -
  let ?F = "av_address f"
  from call obtain s tv L1 tv1 L2 L3 where
    s: "fundraiser_at L ?F = Some s"
    and maker: "maker_of s = av_address maker" and mint: "mint_to_raise_of s = av_address mint"
    and tv: "token_account_at rt L v = Inr tv" "ta_owner tv = ?F" "ta_mint tv = av_address mint"
    and L1: "if owned_by L mata (token_program_ID rt)
      then L1 = L \<and> (\<exists>t. token_account_at rt L mata = Inr t \<and> ta_owner t = av_address maker \<and>
        ta_mint t = av_address mint)
      else ata_create rt maker mata maker mint tp sp L = Inr L1"
    and tv1: "token_account_at rt L1 v = Inr tv1"
    and met: "unat (amount_to_raise_of s) \<le> unat (ta_amount tv1)"
    and tr: "token_transfer rt v mata f (ta_amount tv1)
       [fundraiser_seeds (av_address maker) (fr_bump s)] L1 = Inr L2"
    and tcl: "token_close_account rt v maker f
       [fundraiser_seeds (av_address maker) (fr_bump s)] L2 = Inr L3"
    and cl: "close_program_account rt L3 f maker = Inr L'"
    by (rule checkE) blast
  obtain tm where tm: "token_account_at rt L1 mata = Inr tm" "ta_owner tm = av_address maker"
      "ta_mint tm = av_address mint"
    and v1: "token_account_at rt L1 v = Inr tv" and s1: "fundraiser_at L1 ?F = Some s"
    and held1: "\<And>o' m. tokens_held rt o' m L1 = tokens_held rt o' m L"
    and touch1: "only_touches rt ?F (av_address maker) {} L L1"
    by (rule maker_account_there [OF rt L1 tv(1) s]) blast
  have tv1s: "tv1 = tv"
    using v1 tv1 by simp
  note tr = tr [unfolded tv1s]
  have "av_address v \<noteq> av_address mata"
    using v1 tm tv nf by (auto simp: token_account_at_def)
  then have empty: "token_account_at rt L2 v = Inr (tv\<lparr>ta_amount := 0\<rparr>)"
    using rt(1) tr v1 by (auto elim!: transfer_views)
  have s2: "fundraiser_at L2 ?F = Some s"
    using s1 by (simp add: transfer_fundraiser_at [OF rt tr])
  note closed = payout_closed [OF rt s2 empty _ _ tcl cl, simplified, OF tv(2)]
  have touch: "only_touches rt ?F (av_address maker) {} L L'"
  proof -
    note touch1
    also have "only_touches rt ?F (av_address maker) {} L1 L2"
      by (rule touches_transfer [OF rt tr v1 _ tm(1)]) (simp_all add: tv tm)
    also note closed(4)
    finally show ?thesis .
  qed
  note rec = only_touches_recorded [OF touch, simplified]
  note move = tokens_held_transfer [OF rt(1) tr v1 tm(1)]
  let ?cp = "campaign_view rt U ?F L s"
  have "tokens_held rt (av_address maker) (av_address mint) L' =
      tokens_held rt (av_address maker) (av_address mint) L + unat (ta_amount tv)"
    using move [of "av_address maker" "av_address mint"] tv tm nf closed(3) held1 by simp
  moreover have out: "tokens_held rt ?F (av_address mint) L' + unat (ta_amount tv) =
      tokens_held rt ?F (av_address mint) L"
    using move [of ?F "av_address mint"] tv tm nf closed(3) held1 by simp
  moreover have "cp_target ?cp \<le> cp_held ?cp"
    using out met mint tv1s by simp
  moreover have "campaign_of rt U ?F L = Some ?cp"
    using s by (simp add: campaign_of_def)
  moreover have "campaign_of rt U ?F L' = None"
    using closed(2) by (simp add: campaign_of_def)
  ultimately show ?thesis
    using maker mint tv(1) met tv1s rec closed(1,2) touch
    by (intro that [of ?cp tv]) simp_all
qed

end
