(* ===== verification/Fundraiser_Steps.thy ===== *)
theory Fundraiser_Steps
  imports Fundraiser_Refinement
begin

text \<open>
  Any number of instructions, in any order, by anyone: the steps that can change account
  memory while a campaign runs, and the invariant that the campaign's books balance.
\<close>

section \<open>Steps\<close>

text \<open>The runtime at a given time.\<close>

definition at_time :: "runtime \<Rightarrow> i64 \<Rightarrow> runtime" where
  "at_time rt now = rt\<lparr>clock_unix_timestamp := Inr now\<rparr>"

text \<open>
  An instruction of the program as the network delivers it: whoever signs is one of the users
  \<open>U\<close>; no user is at the address of the fundraiser \<open>F\<close> or of a user's fundraiser, addresses
  derived by the program; and the contributor accounts of the campaigns named do not collide
  with those of \<open>F\<close>.
\<close>

definition honest_accounts :: "runtime \<Rightarrow> address set \<Rightarrow> address \<Rightarrow> account_view list \<Rightarrow> bool" where
  "honest_accounts rt U F accounts \<longleftrightarrow>
     (\<forall>v\<in>set accounts. av_is_signer v \<longrightarrow> av_address v \<in> U) \<and>
     F \<notin> U \<and> (\<forall>m\<in>U. \<forall>b. derive_address rt (fundraiser_seeds m b) fundraiser_ID \<notin> U) \<and>
     (\<forall>v\<in>set accounts. av_address v \<noteq> F \<longrightarrow>
        contributor_pdas rt U (av_address v) \<inter> contributor_pdas rt U F = {})"

text \<open>
  Anything another program can do: accounts of this program keep owner and data, contributor
  addresses not yet created stay so, and the tokens \<open>F\<close> owns, which only \<open>F\<close> can move, do
  not decrease.
\<close>

definition foreign_step :: "runtime \<Rightarrow> address set \<Rightarrow> address \<Rightarrow> ledger \<Rightarrow> ledger \<Rightarrow> bool" where
  "foreign_step rt U F L L' \<longleftrightarrow>
     (\<forall>a. acc_owner (L a) = fundraiser_ID \<longrightarrow> same_state (L' a) (L a)) \<and>
     (\<forall>C\<in>contributor_pdas rt U F. acc_owner (L C) \<noteq> fundraiser_ID \<longrightarrow>
        acc_owner (L' C) \<noteq> fundraiser_ID) \<and>
     (\<forall>m. tokens_held rt F m L \<le> tokens_held rt F m L')"

inductive fundraiser_step :: "runtime \<Rightarrow> address set \<Rightarrow> address \<Rightarrow> ledger \<Rightarrow> ledger \<Rightarrow> bool"
  for rt :: runtime and U :: "address set" and F :: address where
  instruction:
    "fundraiser_process_instruction (at_time rt now) fundraiser_ID accounts data L = Inr L' \<Longrightarrow>
     honest_accounts rt U F accounts \<Longrightarrow> fundraiser_step rt U F L L'"
| foreign: "foreign_step rt U F L L' \<Longrightarrow> fundraiser_step rt U F L L'"

text \<open>
  A campaign's life: it starts with an initialize that finds no record left at its contributor
  addresses, and runs while the fundraiser account exists.
\<close>

inductive campaign_run :: "runtime \<Rightarrow> address set \<Rightarrow> address \<Rightarrow> ledger \<Rightarrow> bool"
  for rt :: runtime and U :: "address set" and F :: address where
  start:
    "process_initialize (at_time rt now) (maker # mint # f # rest) data L0 = Inr L \<Longrightarrow>
     av_address f = F \<Longrightarrow> av_address maker \<noteq> F \<Longrightarrow>
     (\<And>C. C \<in> contributor_pdas rt U F \<Longrightarrow> recorded L0 C = 0) \<Longrightarrow>
     campaign_run rt U F L"
| step:
    "campaign_run rt U F L \<Longrightarrow> fundraiser_step rt U F L L' \<Longrightarrow>
     campaign_of rt U F L' \<noteq> None \<Longrightarrow> campaign_run rt U F L'"

inductive_cases fundraiser_stepE: "fundraiser_step rt U F L L'"

lemma at_time_simps [simp]:
  "documented_runtime (at_time rt now) = documented_runtime rt"
  "token_program_ID (at_time rt now) = token_program_ID rt"
  "derive_address (at_time rt now) = derive_address rt"
  "clock_unix_timestamp (at_time rt now) = Inr now"
  "contributor_pdas (at_time rt now) = contributor_pdas rt"
  "tokens_held (at_time rt now) = tokens_held rt"
  "holding (at_time rt now) = holding rt"
  "token_account_at (at_time rt now) = token_account_at rt"
  by (simp_all add: at_time_def fun_eq_iff documented_runtime_def token_view_law_def
      create_account_law_def ata_create_law_def token_transfer_law_def token_close_law_def
      account_close_law_def token_account_at_def token_account_of_def contributor_pdas_def
      tokens_held_def holding_def)

lemma at_time_view [simp]:
  "paid_at (at_time rt now) = paid_at rt"
  "campaign_view (at_time rt now) = campaign_view rt"
  "bumps_ok (at_time rt now) = bumps_ok rt"
  by (simp_all add: fun_eq_iff paid_at_def campaign_view_def bumps_ok_def)

lemma at_time_campaign [simp]: "campaign_of (at_time rt now) = campaign_of rt"
  by (simp add: fun_eq_iff campaign_of_def)

section \<open>Every instruction is an abstract step\<close>

text \<open>What one instruction does to a campaign; \<open>None\<close> when the campaign is over.\<close>

inductive spec_step :: "int \<Rightarrow> campaign \<Rightarrow> campaign option \<Rightarrow> bool" for now :: int where
  contributed:
    "\<not> cp_ended cp now \<Longrightarrow> cp_paid cp C + n \<le> cp_limit cp \<Longrightarrow>
     spec_step now cp (Some (spec_contribute C n cp))"
| refunded:
    "cp_ended cp now \<Longrightarrow> cp_paid cp C \<le> cp_raised cp \<Longrightarrow>
     spec_step now cp (Some (spec_refund C cp))"
| paid_out: "cp_target cp \<le> cp_held cp \<Longrightarrow> spec_step now cp None"
| untouched: "spec_step now cp (Some cp)"

inductive_cases spec_stepE: "spec_step now cp r"

lemma honest_signer:
  assumes "honest_accounts rt U F accounts" and "v \<in> set accounts" and "av_is_signer v"
  shows "av_address v \<in> U" and "av_address v \<noteq> F"
    and "derive_address rt (fundraiser_seeds (av_address v) b) fundraiser_ID \<noteq> av_address v"
proof -
  show U: "av_address v \<in> U"
    using assms by (simp add: honest_accounts_def)
  then show "av_address v \<noteq> F"
    and "derive_address rt (fundraiser_seeds (av_address v) b) fundraiser_ID \<noteq> av_address v"
    using assms unfolding honest_accounts_def by metis+
qed

lemma honest_apart:
  assumes "honest_accounts rt U F accounts" and "v \<in> set accounts" and "av_address v \<noteq> F"
    and "C \<in> contributor_pdas rt U (av_address v)"
  shows "{C} \<inter> contributor_pdas rt U F = {}"
  using assms by (fastforce simp: honest_accounts_def)

text \<open>The account list and the data of a successful instruction.\<close>

lemma process_instructionE:
  assumes "fundraiser_process_instruction rt fundraiser_ID accounts idata L = Inr L'"
  obtains
    (initialize) maker mint f v sp tp rest data where "idata = 0 # data"
      "accounts = maker # mint # f # v # sp # tp # rest"
      "initialize_with rt maker mint f v sp tp data L = Inr L'"
  | (contribute) c mint f ca cata v sp tp rest data where "idata = 1 # data"
      "accounts = c # mint # f # ca # cata # v # sp # tp # rest"
      "contribute_with rt c mint f ca cata v data L = Inr L'"
  | (check) maker mint f v mata tp sp rest data where "idata = 2 # data"
      "accounts = maker # mint # f # v # mata # tp # sp # rest"
      "check_contributions_with rt maker mint f v mata tp sp L = Inr L'"
  | (refund) c maker mint f ca cata v tp rest data where "idata = 3 # data"
      "accounts = c # maker # mint # f # ca # cata # v # tp # rest"
      "refund_with rt c maker mint f ca cata v L = Inr L'"
proof -
  from assms obtain d data where idata: "idata = d # data"
    by (cases idata) (simp_all add: fundraiser_process_instruction_def)
  from assms obtain i where i: "fundraiser_instruction_try_from d = Inr i"
    and run: "(case i of
        Initialize \<Rightarrow> process_initialize rt accounts data L
      | Contribute \<Rightarrow> process_contribute rt accounts data L
      | CheckContributions \<Rightarrow> process_check_contributions rt accounts data L
      | Refund \<Rightarrow> process_refund rt accounts data L) = Inr L'"
    by (auto simp: fundraiser_process_instruction_def idata res_simps)
  show ?thesis
  proof (cases i)
    case Initialize
    with i have "d = 0" by (simp add: fundraiser_instruction_try_from_def split: if_splits)
    with run Initialize idata initialize show ?thesis
      by (auto simp: process_initialize_def split: list.splits)
  next
    case Contribute
    with i have "d = 1" by (simp add: fundraiser_instruction_try_from_def split: if_splits)
    with run Contribute idata contribute show ?thesis
      by (auto simp: process_contribute_def split: list.splits)
  next
    case CheckContributions
    with i have "d = 2" by (simp add: fundraiser_instruction_try_from_def split: if_splits)
    with run CheckContributions idata check show ?thesis
      by (auto simp: process_check_contributions_def split: list.splits)
  next
    case Refund
    with i have "d = 3" by (simp add: fundraiser_instruction_try_from_def split: if_splits)
    with run Refund idata refund show ?thesis
      by (auto simp: process_refund_def split: list.splits)
  qed
qed

text \<open>
  One instruction, read at \<open>F\<close>: a step of the campaign, and none if \<open>F\<close> is not named; the
  stored bumps stay right while the campaign runs.
\<close>

definition campaign_step ::
    "runtime \<Rightarrow> address set \<Rightarrow> address \<Rightarrow> i64 \<Rightarrow> account_view list \<Rightarrow> campaign \<Rightarrow> ledger \<Rightarrow> ledger \<Rightarrow> bool"
  where
  "campaign_step rt U F now accounts cp L L' \<longleftrightarrow>
     spec_step (sint now) cp (campaign_of rt U F L') \<and>
     (F \<notin> av_address ` set accounts \<longrightarrow> campaign_of rt U F L' = Some cp) \<and>
     (bumps_ok rt U F L \<and> campaign_of rt U F L' \<noteq> None \<longrightarrow> bumps_ok rt U F L')"

text \<open>A call for another campaign.\<close>

lemma campaign_stepI:
  assumes "campaign_of rt U F L = Some cp" and "only_touches rt G u Cs L L'" and "F \<noteq> G" and "F \<noteq> u"
    and "Cs \<inter> contributor_pdas rt U F = {}"
  shows "campaign_step rt U F now accounts cp L L'"
proof -
  obtain s where s: "fundraiser_at L F = Some s"
    using assms(1) by (auto simp: campaign_of_def)
  then have "fundraiser_at L' F = Some s"
    using assms(2,3) by (simp add: only_touches_def)
  with s have "fundraiser_at L' F = fundraiser_at L F"
    by simp
  moreover have "record_at L' C = record_at L C" if "C \<in> contributor_pdas rt U F" for C
    using assms(2,5) that by (intro only_touches_record_at) auto
  ultimately have "bumps_ok rt U F L \<Longrightarrow> bumps_ok rt U F L'"
    by (metis bumps_ok_same)
  then show ?thesis
    using only_touches_campaign [OF assms(2-5,1)] by (simp add: campaign_step_def untouched)
qed

lemma at_time_documented:
  assumes "documented_runtime rt" and "token_program_ID rt \<noteq> fundraiser_ID"
  shows "documented_runtime (at_time rt now)" and "token_program_ID (at_time rt now) \<noteq> fundraiser_ID"
  using assms by simp_all

lemma initialize_step:
  assumes rt: "documented_runtime rt" "token_program_ID rt \<noteq> fundraiser_ID"
    and call: "initialize_with (at_time rt now) maker mint f v sp tp data L = Inr L'"
    and accounts: "accounts = maker # mint # f # v # sp # tp # rest"
    and honest: "honest_accounts rt U F accounts"
    and cp: "campaign_of rt U F L = Some cp"
  shows "campaign_step rt U F now accounts cp L L'"
proof -
  note rt' = at_time_documented [OF rt]
  from call have "av_is_signer maker"
    and "derive_address rt (fundraiser_seeds (av_address maker) (data ! 0)) fundraiser_ID =
      av_address f"
    by (auto elim: initializeE)
  with accounts honest_signer [OF honest, of maker]
  have maker: "av_address maker \<noteq> F" "av_address maker \<noteq> av_address f"
    by auto
  have none: "campaign_of rt U (av_address f) L = None"
    and touch: "only_touches (at_time rt now) (av_address f) (av_address maker) {} L L'"
    using initialize_campaign [OF rt' call maker(2), of U]
    by (simp_all only: at_time_campaign) blast+
  from none cp have "F \<noteq> av_address f" by auto
  with maker touch show ?thesis
    by (intro campaign_stepI [OF cp, of "av_address f" "av_address maker" "{}"])
      (auto simp: only_touches_def)
qed

lemma contribute_step:
  assumes rt: "documented_runtime rt" "token_program_ID rt \<noteq> fundraiser_ID"
    and call: "contribute_with (at_time rt now) c mint f ca cata v data L = Inr L'"
    and accounts: "accounts = c # mint # f # ca # cata # v # sp # tp # rest"
    and honest: "honest_accounts rt U F accounts"
    and cp: "campaign_of rt U F L = Some cp"
  shows "campaign_step rt U F now accounts cp L L'"
proof -
  note rt' = at_time_documented [OF rt]
  from call have "av_is_signer c" by (rule contributeE)
  with accounts honest_signer [OF honest, of c]
  have c: "av_address c \<in> U" "av_address c \<noteq> F" by auto
  from contribute_campaign [OF rt' call c(1)] obtain cp0 where
    cp0: "campaign_of rt U (av_address f) L = Some cp0"
    and new: "av_address c \<noteq> av_address f \<Longrightarrow> campaign_of rt U (av_address f) L' =
      Some (spec_contribute (av_address ca) (contribution_amount data) cp0)"
    and ca: "av_address ca \<in> contributor_pdas rt U (av_address f)"
    and lim: "cp_paid cp0 (av_address ca) + contribution_amount data \<le> cp_limit cp0"
    and time: "\<not> cp_ended cp0 (sint now)"
    and touch: "only_touches (at_time rt now) (av_address f) (av_address c) {av_address ca} L L'"
    and bumps: "bumps_ok rt U (av_address f) L \<Longrightarrow> bumps_ok rt U (av_address f) L'"
    by auto
  show ?thesis
  proof (cases "av_address f = F")
    case True
    with cp0 cp c(2) new lim time bumps accounts show ?thesis
      by (auto simp: campaign_step_def intro: contributed)
  next
    case False
    with c(2) touch accounts honest_apart [OF honest, of f] ca show ?thesis
      by (intro campaign_stepI [OF cp, of "av_address f" "av_address c" "{av_address ca}"])
        (auto simp: only_touches_def)
  qed
qed

lemma check_step:
  assumes rt: "documented_runtime rt" "token_program_ID rt \<noteq> fundraiser_ID"
    and call: "check_contributions_with (at_time rt now) maker mint f v mata tp sp L = Inr L'"
    and accounts: "accounts = maker # mint # f # v # mata # tp # sp # rest"
    and honest: "honest_accounts rt U F accounts"
    and cp: "campaign_of rt U F L = Some cp"
  shows "campaign_step rt U F now accounts cp L L'"
proof -
  note rt' = at_time_documented [OF rt]
  from call obtain b where "av_is_signer maker"
    and "derive_address rt (fundraiser_seeds (av_address maker) b) fundraiser_ID =
      av_address f"
    by (rule checkE) simp
  with accounts honest_signer [OF honest, of maker]
  have maker: "av_address maker \<noteq> F" "av_address maker \<noteq> av_address f"
    by auto
  obtain cp0 where
    cp0: "campaign_of rt U (av_address f) L = Some cp0"
    and none: "campaign_of rt U (av_address f) L' = None"
    and met: "cp_target cp0 \<le> cp_held cp0"
    and touch: "only_touches (at_time rt now) (av_address f) (av_address maker) {} L L'"
    by (rule check_campaign [OF rt' call maker(2), of U])
      (rule that; simp only: at_time_simps at_time_campaign)
  show ?thesis
  proof (cases "av_address f = F")
    case True
    with cp0 cp none met accounts show ?thesis
      by (auto simp: campaign_step_def intro: paid_out)
  next
    case False
    with maker touch show ?thesis
      by (intro campaign_stepI [OF cp, of "av_address f" "av_address maker" "{}"])
        (auto simp: only_touches_def)
  qed
qed

lemma refund_step:
  assumes rt: "documented_runtime rt" "token_program_ID rt \<noteq> fundraiser_ID"
    and call: "refund_with (at_time rt now) c maker mint f ca cata v L = Inr L'"
    and accounts: "accounts = c # maker # mint # f # ca # cata # v # tp # rest"
    and honest: "honest_accounts rt U F accounts"
    and cp: "campaign_of rt U F L = Some cp"
  shows "campaign_step rt U F now accounts cp L L'"
proof -
  note rt' = at_time_documented [OF rt]
  from call have "av_is_signer c" by (rule refundE)
  with accounts honest_signer [OF honest, of c]
  have c: "av_address c \<in> U" "av_address c \<noteq> F" by auto
  from refund_campaign [OF rt' call c(1)] obtain cp0 where
    cp0: "campaign_of rt U (av_address f) L = Some cp0"
    and new: "av_address c \<noteq> av_address f \<Longrightarrow> campaign_of rt U (av_address f) L' =
      Some (spec_refund (av_address ca) cp0)"
    and ca: "av_address ca \<in> contributor_pdas rt U (av_address f)"
    and le: "cp_paid cp0 (av_address ca) \<le> cp_raised cp0"
    and time: "cp_ended cp0 (sint now)"
    and touch: "only_touches (at_time rt now) (av_address f) (av_address c) {av_address ca} L L'"
    and bumps: "bumps_ok rt U (av_address f) L \<Longrightarrow> bumps_ok rt U (av_address f) L'"
    by auto
  show ?thesis
  proof (cases "av_address f = F")
    case True
    with cp0 cp c(2) new le time bumps accounts show ?thesis
      by (auto simp: campaign_step_def intro: refunded)
  next
    case False
    with c(2) touch accounts honest_apart [OF honest, of f] ca show ?thesis
      by (intro campaign_stepI [OF cp, of "av_address f" "av_address c" "{av_address ca}"])
        (auto simp: only_touches_def)
  qed
qed

lemma instruction_campaign:
  assumes rt: "documented_runtime rt" "token_program_ID rt \<noteq> fundraiser_ID"
    and call: "fundraiser_process_instruction (at_time rt now) fundraiser_ID accounts idata L =
      Inr L'"
    and honest: "honest_accounts rt U F accounts"
    and cp: "campaign_of rt U F L = Some cp"
  shows "campaign_step rt U F now accounts cp L L'"
  using call
proof (cases rule: process_instructionE)
  case initialize
  then show ?thesis using initialize_step [OF rt _ _ honest cp] by blast
next
  case contribute
  then show ?thesis using contribute_step [OF rt _ _ honest cp] by blast
next
  case check
  then show ?thesis using check_step [OF rt _ _ honest cp] by blast
next
  case refund
  then show ?thesis using refund_step [OF rt _ _ honest cp] by blast
qed

lemmas instruction_spec_step = instruction_campaign [unfolded campaign_step_def, THEN conjunct1]

lemmas instruction_apart =
  instruction_campaign [unfolded campaign_step_def, THEN conjunct2, THEN conjunct1, rule_format]

lemmas instruction_bumps =
  instruction_campaign [unfolded campaign_step_def, THEN conjunct2, THEN conjunct2, rule_format]

section \<open>The books balance throughout\<close>

lemma spec_step_inv:
  assumes "spec_step now cp r" and "campaign_inv cp" and "r = Some cp'"
  shows "campaign_inv cp'"
  using assms by (cases rule: spec_step.cases) (auto intro: spec_contribute_inv spec_refund_inv)

lemma foreign_step_campaign:
  assumes "foreign_step rt U F L L'" and "campaign_of rt U F L = Some cp"
  obtains held where "campaign_of rt U F L' = Some (cp\<lparr>cp_held := held\<rparr>)" "cp_held cp \<le> held"
proof -
  from assms(2) obtain s where s: "fundraiser_at L F = Some s"
    and cp: "cp = campaign_view rt U F L s"
    by (auto simp: campaign_of_def)
  have "fundraiser_at L' F = Some s"
    using assms(1) s fundraiser_at_same_state [of L' F L] fundraiser_at_owner [OF s]
    by (simp add: foreign_step_def)
  moreover have "recorded L' C = recorded L C" if "C \<in> contributor_pdas rt U F" for C
    using assms(1) that recorded_same_state recorded_not_owned
    unfolding foreign_step_def by metis
  then have "paid_at rt U F L' = paid_at rt U F L"
    by (auto simp: paid_at_def fun_eq_iff)
  ultimately have "campaign_of rt U F L' =
      Some (cp\<lparr>cp_held := tokens_held rt F (mint_to_raise_of s) L'\<rparr>)"
    by (simp add: campaign_of_def campaign_view_def cp)
  moreover have "cp_held cp \<le> tokens_held rt F (mint_to_raise_of s) L'"
    using assms(1) by (simp add: cp foreign_step_def)
  ultimately show ?thesis by (rule that)
qed

lemma foreign_step_bumps:
  assumes "foreign_step rt U F L L'" and "campaign_of rt U F L = Some cp" and "bumps_ok rt U F L"
  shows "bumps_ok rt U F L'"
proof (rule bumps_ok_same [OF assms(3)])
  obtain s where s: "fundraiser_at L F = Some s"
    using assms(2) by (auto simp: campaign_of_def)
  then show "fundraiser_at L' F = fundraiser_at L F"
    using assms(1) fundraiser_at_same_state [of L' F L] fundraiser_at_owner [OF s]
    by (simp add: foreign_step_def)
  show "record_at L' C = record_at L C" if "C \<in> contributor_pdas rt U F" for C
    using assms(1) that record_at_same_state [of L' C L]
    by (cases "acc_owner (L C) = fundraiser_ID") (simp_all add: foreign_step_def record_at_def)
qed

lemma campaign_inv_held:
  "campaign_inv cp \<Longrightarrow> cp_held cp \<le> held \<Longrightarrow> campaign_inv (cp\<lparr>cp_held := held\<rparr>)"
  by (simp add: campaign_inv_def cp_limit_def)

lemma fundraiser_step_inv:
  assumes rt: "documented_runtime rt" "token_program_ID rt \<noteq> fundraiser_ID"
    and step: "fundraiser_step rt U F L L'"
    and cp: "campaign_of rt U F L = Some cp" "campaign_inv cp"
    and cp': "campaign_of rt U F L' = Some cp'"
  shows "campaign_inv cp'"
  using step
proof cases
  case (instruction now accounts data)
  from instruction_spec_step [OF rt instruction cp(1)] cp(2) cp' show ?thesis
    by (rule spec_step_inv)
next
  case foreign
  from foreign_step_campaign [OF foreign cp(1)] cp(2) cp' show ?thesis
    using campaign_inv_held by (metis option.inject)
qed

lemma process_initialize_Inr:
  "process_initialize rt accounts data L = Inr L' \<longleftrightarrow>
     (\<exists>maker mint f v sp tp rest. accounts = maker # mint # f # v # sp # tp # rest \<and>
        initialize_with rt maker mint f v sp tp data L = Inr L')"
  by (auto simp: process_initialize_def split: list.splits)

lemma start_campaign:
  assumes rt: "documented_runtime rt" "token_program_ID rt \<noteq> fundraiser_ID"
    and call: "process_initialize (at_time rt now) (maker # mint # f # rest) data L0 = Inr L"
    and maker: "av_address maker \<noteq> av_address f"
  obtains cp where "campaign_of rt U (av_address f) L = Some cp" "cp_raised cp = 0"
    "cp_paid cp = paid_at rt U (av_address f) L0"
proof -
  have rt': "documented_runtime (at_time rt now)"
    "token_program_ID (at_time rt now) \<noteq> fundraiser_ID"
    using rt by simp_all
  from call obtain v sp tp where
    "initialize_with (at_time rt now) maker mint f v sp tp data L0 = Inr L"
    unfolding process_initialize_Inr list.inject by blast
  from initialize_campaign [OF rt' this maker, where U = U] obtain cp where
    "campaign_of (at_time rt now) U (av_address f) L = Some cp" "cp_raised cp = 0"
    "cp_paid cp = paid_at (at_time rt now) U (av_address f) L0"
    by (metis campaign.select_convs(6,7))
  then show ?thesis by (intro that) simp_all
qed

lemma start_inv:
  assumes rt: "documented_runtime rt" "token_program_ID rt \<noteq> fundraiser_ID"
    and call: "process_initialize (at_time rt now) (maker # mint # f # rest) data L0 = Inr L"
    and maker: "av_address maker \<noteq> av_address f"
    and fresh: "\<And>C. C \<in> contributor_pdas rt U (av_address f) \<Longrightarrow> recorded L0 C = 0"
    and cp: "campaign_of rt U (av_address f) L = Some cp"
  shows "campaign_inv cp"
proof -
  have "paid_at rt U (av_address f) L0 = (\<lambda>_. 0)"
    using fresh by (simp add: paid_at_def fun_eq_iff)
  moreover obtain cp0 where "campaign_of rt U (av_address f) L = Some cp0" "cp_raised cp0 = 0"
    "cp_paid cp0 = paid_at rt U (av_address f) L0"
    using start_campaign [OF rt call maker] .
  ultimately show ?thesis
    using cp by (simp add: campaign_inv_def)
qed

lemma campaign_run_alive:
  assumes rt: "documented_runtime rt" "token_program_ID rt \<noteq> fundraiser_ID"
    and "campaign_run rt U F L"
  shows "campaign_of rt U F L \<noteq> None"
  using assms(3)
proof cases
  case (start now maker mint f rest data L0)
  then show ?thesis
    using start_campaign [OF rt start(1), of U] by (metis option.distinct(1))
qed

lemma campaign_run_inv:
  assumes rt: "documented_runtime rt" "token_program_ID rt \<noteq> fundraiser_ID"
    and "campaign_run rt U F L" and "campaign_of rt U F L = Some cp"
  shows "campaign_inv cp"
  using assms(3,4)
proof (induction arbitrary: cp)
  case (start now maker mint f rest data L0 L)
  show ?case
    using start_inv [OF rt start(1), of U cp] start(2-5) by simp
next
  case (step L L')
  obtain cp0 where cp0: "campaign_of rt U F L = Some cp0"
    using campaign_run_alive [OF rt step(1)] by auto
  show ?case
    using fundraiser_step_inv [OF rt step(2) cp0 step.IH [OF cp0] step(5)] .
qed

section \<open>The stored bumps\<close>

lemma start_bumps:
  assumes rt: "documented_runtime rt" "token_program_ID rt \<noteq> fundraiser_ID"
    and call: "process_initialize (at_time rt now) (maker # mint # f # rest) data L0 = Inr L"
    and maker: "av_address maker \<noteq> av_address f"
    and fresh: "\<And>C. C \<in> contributor_pdas rt U (av_address f) \<Longrightarrow> recorded L0 C = 0"
  shows "bumps_ok rt U (av_address f) L"
proof -
  note rt' = at_time_documented [OF rt]
  from call obtain v sp tp where
    init: "initialize_with (at_time rt now) maker mint f v sp tp data L0 = Inr L"
    unfolding process_initialize_Inr list.inject by blast
  show ?thesis
    by (rule initialize_campaign [OF rt' init maker, where U = U]) (use fresh in simp)
qed

lemma campaign_run_bumps:
  assumes rt: "documented_runtime rt" "token_program_ID rt \<noteq> fundraiser_ID"
    and "campaign_run rt U F L"
  shows "bumps_ok rt U F L"
  using assms(3)
proof induction
  case (start now maker mint f rest data L0 L)
  show ?case
    using start_bumps [OF rt start(1), of U] start(2-4) by simp
next
  case (step L L')
  obtain cp where cp: "campaign_of rt U F L = Some cp"
    using campaign_run_alive [OF rt step(1)] by auto
  from step(2) show ?case
  proof cases
    case (instruction now accounts data)
    show ?thesis
      using instruction_bumps [OF rt instruction cp] step.IH step(3) by simp
  next
    case foreign
    show ?thesis
      by (rule foreign_step_bumps [OF foreign cp step.IH])
  qed
qed

end
