(* ===== verification/Fundraiser_Available.thy ===== *)
theory Fundraiser_Available
  imports Fundraiser_Steps
begin

text \<open>
  When a refund is carried out. The run of a campaign gives everything the handler checks of its
  own accounts: the bumps they store derive their addresses, and what was raised covers each
  record. What is left is what the user names, the clock, and the called programs.
\<close>

section \<open>What the called programs do not refuse\<close>

text \<open>
  Token program, \<open>Transfer\<close>: between accounts of one mint that are initialized and not frozen
  (\<open>usable\<close>), with enough tokens and room for them, signed by the owner: a signer, or an address
  off the curve that the signer seeds derive. \<open>AccountView::close\<close> fails only while the
  account's data is borrowed, which no handler does when it closes.
\<close>

definition transfer_available :: "(address \<Rightarrow> bool) \<Rightarrow> (account \<Rightarrow> bool) \<Rightarrow> runtime \<Rightarrow> bool" where
  "transfer_available off_curve usable rt \<longleftrightarrow>
     (\<forall>from to auth n seeds L s d.
        token_account_at rt L from = Inr s \<and> token_account_at rt L to = Inr d \<and>
        usable (L (av_address from)) \<and> usable (L (av_address to)) \<and>
        ta_mint s = ta_mint d \<and> n \<le> ta_amount s \<and> unat (ta_amount d) + unat n < 2 ^ 64 \<and>
        ta_owner s = av_address auth \<and>
        (av_is_signer auth \<or>
          off_curve (av_address auth) \<and> derive_address rt seeds fundraiser_ID = av_address auth) \<longrightarrow>
        (\<exists>L'. token_transfer rt from to auth n [seeds] L = Inr L'))"

definition close_available :: "runtime \<Rightarrow> bool" where
  "close_available rt \<longleftrightarrow> (\<forall>v L. \<exists>L'. account_close rt v L = Inr L')"

lemma at_time_available [simp]:
  "transfer_available off_curve usable (at_time rt now) = transfer_available off_curve usable rt"
  "close_available (at_time rt now) = close_available rt"
  by (simp_all add: transfer_available_def close_available_def at_time_def token_account_at_def
      token_account_of_def)

section \<open>The handler\<close>

text \<open>Every check of the handler, and the two calls it makes.\<close>

lemma refund_succeeds:
  assumes rt: "documented_runtime rt" "token_program_ID rt \<noteq> fundraiser_ID"
    and c: "av_is_signer c" "acc_owner (L (av_address c)) = system_program_ID"
    and s: "fundraiser_at L (av_address f) = Some s" and k: "record_at L (av_address ca) = Some k"
    and names: "maker_of s = av_address maker" "mint_to_raise_of s = av_address mint"
    and pdas: "derive_address rt (fundraiser_seeds (av_address maker) (fr_bump s)) fundraiser_ID =
        av_address f"
      "derive_address rt (contributor_seeds (av_address f) (av_address c) (co_bump k))
        fundraiser_ID = av_address ca"
    and tokens: "validate_token_account rt L cata (av_address c) (av_address mint) = Inr ()"
      "validate_token_account rt L v (av_address f) (av_address mint) = Inr ()"
    and over: "clock_unix_timestamp rt = Inr now" "has_ended s now"
      "token_account_at rt L v = Inr tv" "ta_amount tv < amount_to_raise_of s"
    and books: "amount_of k \<le> current_amount_of s"
    and transfer: "token_transfer rt v cata f (amount_of k)
        [fundraiser_seeds (av_address maker) (fr_bump s)] L = Inr L1"
    and lamports: "unat (lamports_of L c) + unat (lamports_of L ca) < 2 ^ 64"
    and close: "close_available rt"
  shows "\<exists>L'. refund_with rt c maker mint f ca cata v L = Inr L'"
proof -
  have own: "owned_by L f fundraiser_ID" "owned_by L ca fundraiser_ID"
    using s k by (simp_all add: owned_by_def fundraiser_at_owner record_at_owner)
  have s1: "fundraiser_from_account_info L f = Inr s"
    using s by (simp add: fundraiser_at_def fundraiser_from_account_info_def data_of_def
        split: if_splits)
  have k1: "contributor_from_account_info L ca = Inr k"
    using k by (simp add: record_at_def contributor_from_account_info_def data_of_def
        split: if_splits)
  have s2: "fundraiser_from_account_info L1 f = Inr s"
    using s transfer_fundraiser_at(1) [OF rt transfer] fundraiser_at_iff [of L1 f s] by simp
  have "av_address c \<noteq> av_address f" and "av_address ca \<noteq> av_address f"
    using own c s k fundraiser_not_record [of L "av_address f"]
    by (auto simp: owned_by_def fundraiser_ID_def system_program_ID_def)
  moreover have "L1 (av_address c) = L (av_address c)" and "L1 (av_address ca) = L (av_address ca)"
    using transfer_keeps [OF rt(1) transfer] c own rt token_program_not_system [OF rt(1)]
    by (simp_all add: owned_by_def)
  ultimately have lam: "lamports_of (fundraiser_store L1 f x) c = lamports_of L c"
    "lamports_of (fundraiser_store L1 f x) ca = lamports_of L ca" for x
    by (simp_all add: lamports_of_def store_other)
  define n where "n = current_amount_of s - amount_of k"
  have sub: "checked_sub (current_amount_of s) (amount_of k) = Some n"
    using books by (simp add: checked_sub_def n_def word_le_nat_alt)
  define total where "total = lamports_of L c + lamports_of L ca"
  have add: "checked_add (lamports_of L c) (lamports_of L ca) = Some total"
    using lamports by (simp add: checked_add_def total_def)
  obtain L' where "account_close rt ca
      (set_lamports (set_lamports (fundraiser_store L1 f (set_current_amount s n)) c total) ca 0) =
      Inr L'"
    using close unfolding close_available_def by blast
  then have "close_program_account rt (fundraiser_store L1 f (set_current_amount s n)) ca c = Inr L'"
    by (simp add: close_program_account_def lam add)
  then show ?thesis
    using c own s1 k1 s2 names pdas tokens over transfer sub
    by (simp add: refund_with_def verify_fundraiser_pda_def verify_fundraiser_pda_with_maker_def
        verify_contributor_pda_def token_amount_def)
qed

section \<open>In a run\<close>

text \<open>
  The contributor account \<open>C\<close> is nobody's but \<open>c\<close>'s: no other user derives it.
\<close>

definition only_contributor :: "runtime \<Rightarrow> address set \<Rightarrow> address \<Rightarrow> address \<Rightarrow> address \<Rightarrow> bool" where
  "only_contributor rt U F c C \<longleftrightarrow>
     (\<forall>c'\<in>U. \<forall>b. derive_address rt (contributor_seeds F c' b) fundraiser_ID = C \<longrightarrow> c' = c)"

lemma owed_record:
  assumes "bumps_ok rt U F L" and "only_contributor rt U F c C" and "0 < paid_at rt U F L C"
  obtains k where "record_at L C = Some k" and "paid_at rt U F L C = unat (amount_of k)"
    and "derive_address rt (contributor_seeds F c (co_bump k)) fundraiser_ID = C" and "c \<in> U"
proof -
  from assms(3) obtain k where C: "C \<in> contributor_pdas rt U F" and k: "record_at L C = Some k"
    and n: "amount_of k \<noteq> 0" and p: "paid_at rt U F L C = unat (amount_of k)"
    by (auto simp: paid_at_def recorded_def unat_gt_0 split: if_splits option.splits)
  with assms(1) obtain c' where "c' \<in> U"
    and "derive_address rt (contributor_seeds F c' (co_bump k)) fundraiser_ID = C"
    unfolding bumps_ok_def by blast
  moreover from this have "c' = c"
    using assms(2) unfolding only_contributor_def by blast
  ultimately show ?thesis
    using that k p by blast
qed

end
