(* ===== verification/Reference_Runtime.thy ===== *)
theory Reference_Runtime
  imports Token_Ledger
begin

text \<open>
  A runtime that keeps every documented promise: token accounts of 165 bytes (mint, owner,
  amount, the rest untouched), mints of 82 bytes with the decimals at offset 44, and the five
  calls as plain functions on account memory. It shows that the promises can be kept together
  and runs the handlers on concrete inputs.
\<close>

definition ref_token_ID :: address where "ref_token_ID = 6"

definition ref_native_mint :: address where "ref_native_mint = 7"

definition ref_clock :: i64 where "ref_clock = 1000000"

definition token_encode :: "token_account \<Rightarrow> u8 list \<Rightarrow> u8 list" where
  "token_encode t rest =
     address_bytes (ta_mint t) @ address_bytes (ta_owner t) @ to_le_bytes 8 (ta_amount t) @ rest"

definition ref_token_view :: "address \<Rightarrow> u8 list \<Rightarrow> token_account res" where
  "ref_token_view own bs =
     (if own \<noteq> ref_token_ID then Inl (Err IllegalOwner)
      else if length bs \<noteq> 165 then Inl (Err InvalidAccountData)
      else Inr \<lparr>ta_mint = from_le_bytes (slice 0 32 bs), ta_owner = from_le_bytes (slice 32 32 bs),
                ta_amount = from_le_bytes (slice 64 8 bs)\<rparr>)"

definition ref_mint_decimals :: "address \<Rightarrow> u8 list \<Rightarrow> u8 res" where
  "ref_mint_decimals own bs =
     (if own \<noteq> ref_token_ID then Inl (Err IllegalOwner)
      else if length bs \<noteq> 82 then Inl (Err InvalidAccountData)
      else Inr (bs ! 44))"

text \<open>A stand-in for the hash: injective enough for examples.\<close>

definition ref_derive :: "u8 list list \<Rightarrow> address \<Rightarrow> address" where
  "ref_derive seeds p =
     fold (\<lambda>s a. 3 * a + from_le_bytes s) (tl seeds) (of_nat (1000 * length seeds))"

definition ref_create ::
    "account_view \<Rightarrow> account_view \<Rightarrow> u64 \<Rightarrow> u64 \<Rightarrow> address \<Rightarrow> signer_seeds list \<Rightarrow> ledger \<Rightarrow> ledger res" where
  "ref_create from to n space own signers L =
     (if av_is_signer from \<and>
       acc_owner (L (av_address to)) = system_program_ID \<and> acc_data (L (av_address to)) = []
       \<and> av_address from \<noteq> av_address to \<and> n \<le> lamports_of L from
      then Inr ((set_lamports L from (lamports_of L from - n))
        (av_address to :=
           \<lparr>acc_lamports = n, acc_owner = own, acc_data = replicate (unat space) 0\<rparr>))
      else Inl (Err InvalidArgument))"

definition ref_ata_create ::
    "account_view \<Rightarrow> account_view \<Rightarrow> account_view \<Rightarrow> account_view \<Rightarrow> account_view \<Rightarrow> account_view \<Rightarrow> ledger \<Rightarrow> ledger res" where
  "ref_ata_create payer acct wallet mint tp sp L =
     (if acc_owner (L (av_address acct)) = system_program_ID
       \<and> av_address payer \<noteq> av_address acct
      then Inr (L(av_address acct :=
           \<lparr>acc_lamports = lamports_of L acct, acc_owner = ref_token_ID,
            acc_data = token_encode \<lparr>ta_mint = av_address mint, ta_owner = av_address wallet,
              ta_amount = 0\<rparr> (replicate 93 0)\<rparr>))
      else Inl (Err IllegalOwner))"

definition ref_set_amount :: "account_view \<Rightarrow> token_account \<Rightarrow> u64 \<Rightarrow> ledger \<Rightarrow> ledger" where
  "ref_set_amount v t n L =
     set_data L v (token_encode (t\<lparr>ta_amount := n\<rparr>) (drop 72 (data_of L v)))"

definition ref_transfer ::
    "account_view \<Rightarrow> account_view \<Rightarrow> account_view \<Rightarrow> u64 \<Rightarrow> signer_seeds list \<Rightarrow> ledger \<Rightarrow> ledger res" where
  "ref_transfer from to auth n signers L =
     and_then (ref_token_view (acc_owner (L (av_address from))) (data_of L from)) (\<lambda>s.
     and_then (ref_token_view (acc_owner (L (av_address to))) (data_of L to)) (\<lambda>d.
     if ta_mint s \<noteq> ta_mint d \<or> ta_owner s \<noteq> av_address auth then Inl (Err InvalidArgument)
     else if ta_amount s < n then Inl (Err InsufficientFunds)
     else if av_address from = av_address to then Inr L
     else and_then (ok_or (checked_add (ta_amount d) n) (Err ArithmeticOverflow)) (\<lambda>m.
       Inr (ref_set_amount to d m (ref_set_amount from s (ta_amount s - n) L)))))"

definition ref_token_close ::
    "account_view \<Rightarrow> account_view \<Rightarrow> account_view \<Rightarrow> signer_seeds list \<Rightarrow> ledger \<Rightarrow> ledger res" where
  "ref_token_close acct dest auth signers L =
     and_then (ref_token_view (acc_owner (L (av_address acct))) (data_of L acct)) (\<lambda>t.
     if av_address acct = av_address dest \<or> ta_owner t \<noteq> av_address auth
     then Inl (Err InvalidArgument)
     else if ta_amount t \<noteq> 0 \<and> ta_mint t \<noteq> ref_native_mint then Inl (Err InvalidAccountData)
     else and_then (ok_or (checked_add (lamports_of L dest) (lamports_of L acct))
                      (Err ArithmeticOverflow)) (\<lambda>n.
       Inr ((set_lamports L dest n)(av_address acct := closed_account))))"

definition ref_close :: "account_view \<Rightarrow> ledger \<Rightarrow> ledger res" where
  "ref_close v L = Inr (L(av_address v := closed_account))"

definition ref_runtime :: runtime where
  "ref_runtime =
     \<lparr>derive_address = ref_derive, clock_unix_timestamp = Inr ref_clock,
      rent_minimum_balance = (\<lambda>n. Inr (of_nat (n + 128))),
      token_program_ID = ref_token_ID, native_mint_ID = ref_native_mint,
      token_account_view = ref_token_view, mint_decimals = ref_mint_decimals,
      system_create_account = ref_create, ata_create = ref_ata_create,
      token_transfer = ref_transfer, token_close_account = ref_token_close,
      account_close = ref_close\<rparr>"

lemma ref_runtime_simps [simp]:
  "derive_address ref_runtime = ref_derive"
  "clock_unix_timestamp ref_runtime = Inr ref_clock"
  "rent_minimum_balance ref_runtime n = Inr (of_nat (n + 128))"
  "token_program_ID ref_runtime = ref_token_ID"
  "native_mint_ID ref_runtime = ref_native_mint"
  "token_account_view ref_runtime = ref_token_view"
  "mint_decimals ref_runtime = ref_mint_decimals"
  "system_create_account ref_runtime = ref_create"
  "ata_create ref_runtime = ref_ata_create"
  "token_transfer ref_runtime = ref_transfer"
  "token_close_account ref_runtime = ref_token_close"
  "account_close ref_runtime = ref_close"
  by (simp_all add: ref_runtime_def)

lemma address_of_bytes [simp]: "from_le_bytes (address_bytes a) = a"
  by (simp add: address_bytes_def from_to_le_bytes)

lemma ref_token_view_encode [simp]:
  "length rest = 93 \<Longrightarrow> ref_token_view ref_token_ID (token_encode t rest) = Inr t"
  by (simp add: ref_token_view_def token_encode_def slice_simps from_to_le_bytes)

lemma ref_token_view_Inr:
  "ref_token_view own bs = Inr t \<Longrightarrow> own = ref_token_ID \<and> length bs = 165"
  by (simp add: ref_token_view_def split: if_splits)

text \<open>Writing an amount into a token account.\<close>

lemma ref_set_amount_simps:
  assumes "ref_token_view (acc_owner (L (av_address v))) (data_of L v) = Inr t"
  shows "ref_token_view (acc_owner (ref_set_amount v t n L (av_address v)))
      (acc_data (ref_set_amount v t n L (av_address v))) = Inr (t\<lparr>ta_amount := n\<rparr>)"
    and "a \<noteq> av_address v \<Longrightarrow> ref_set_amount v t n L a = L a"
  using ref_token_view_Inr [OF assms]
  by (simp_all add: ref_set_amount_def set_data_def)

lemma ref_transfer_law: "token_transfer_law ref_runtime"
  unfolding token_transfer_law_def
proof (intro allI impI)
  fix src dst auth n signers L L'
  assume "token_transfer ref_runtime src dst auth n signers L = Inr L'"
  then obtain s d where
    s: "ref_token_view (acc_owner (L (av_address src))) (data_of L src) = Inr s"
    and d: "ref_token_view (acc_owner (L (av_address dst))) (data_of L dst) = Inr d"
    and m: "ta_mint s = ta_mint d" and "\<not> ta_amount s < n"
    and L': "(if av_address src = av_address dst then Inr L
      else and_then (ok_or (checked_add (ta_amount d) n) (Err ArithmeticOverflow)) (\<lambda>m.
        Inr (ref_set_amount dst d m (ref_set_amount src s (ta_amount s - n) L)))) = Inr L'"
    unfolding ref_runtime_simps ref_transfer_def and_then_Inr_iff if_Inl_Inr_iff de_Morgan_disj
      not_not
    by blast
  then have n: "n \<le> ta_amount s" by simp
  have view: "token_account_at ref_runtime M v =
      ref_token_view (acc_owner (M (av_address v))) (data_of M v)" for M v
    by (simp add: token_account_at_def token_account_of_def data_of_def)
  note out = m n s d view
  show "unchanged_except {av_address src, av_address dst} L L' \<and>
        (\<exists>s d. token_account_at ref_runtime L src = Inr s \<and>
           token_account_at ref_runtime L dst = Inr d \<and>
           ta_mint s = ta_mint d \<and> n \<le> ta_amount s \<and>
           (if av_address src = av_address dst
            then token_account_at ref_runtime L' src = Inr s
            else unat (ta_amount d) + unat n < 2 ^ 64 \<and>
              token_account_at ref_runtime L' src = Inr (s\<lparr>ta_amount := ta_amount s - n\<rparr>) \<and>
              token_account_at ref_runtime L' dst = Inr (d\<lparr>ta_amount := ta_amount d + n\<rparr>)))"
  proof (cases "av_address src = av_address dst")
    case True
    with L' have "L' = L" by simp
    with True out show ?thesis by (auto simp: unchanged_except_def)
  next
    case False
    let ?M = "ref_set_amount src s (ta_amount s - n) L"
    from False L' obtain m where m': "unat m = unat (ta_amount d) + unat n"
      and L': "L' = ref_set_amount dst d m ?M"
      by (auto simp: res_simps)
    note src = ref_set_amount_simps [OF s, where n = "ta_amount s - n"]
    have d': "ref_token_view (acc_owner (?M (av_address dst))) (data_of ?M dst) = Inr d"
      using d False src(2) by (simp add: data_of_def)
    note dst = ref_set_amount_simps [OF d', where n = m]
    have "unat m < 2 ^ 64"
      using unsigned_less [of m] by simp
    moreover from this have "m = ta_amount d + n"
      using m' by (simp add: word_unat_eq_iff unat_word_ariths)
    ultimately show ?thesis
      using out False src dst m' L' by (simp add: data_of_def unchanged_except_def)
  qed
qed

lemma ref_runtime_documented: "documented_runtime ref_runtime"
  unfolding documented_runtime_def
proof (intro conjI)
  show "token_view_law ref_runtime"
    by (auto simp: token_view_law_def token_account_of_def ref_token_ID_def system_program_ID_def
        dest: ref_token_view_Inr)
  show "create_account_law ref_runtime"
    by (auto simp: create_account_law_def ref_create_def unchanged_except_def set_lamports_def
        same_state_def split: if_splits)
  show "ata_create_law ref_runtime"
    by (auto simp: ata_create_law_def ref_ata_create_def unchanged_except_def
        token_account_of_def split: if_splits)
  show "account_close_law ref_runtime"
    by (simp add: account_close_law_def ref_close_def)
  show "token_close_law ref_runtime"
    by (auto simp: token_close_law_def ref_token_close_def unchanged_except_def set_lamports_def
        same_state_def lamports_of_def token_account_at_def token_account_of_def data_of_def
        res_simps split: if_splits)
  show "token_transfer_law ref_runtime"
    by (rule ref_transfer_law)
qed

section \<open>Example accounts\<close>

definition view :: "address \<Rightarrow> account_view" where
  "view a = \<lparr>av_address = a, av_is_signer = False\<rparr>"

definition signer :: "address \<Rightarrow> account_view" where
  "signer a = \<lparr>av_address = a, av_is_signer = True\<rparr>"

definition wallet :: account where
  "wallet = \<lparr>acc_lamports = 1000000, acc_owner = system_program_ID, acc_data = []\<rparr>"

definition token_acc :: "address \<Rightarrow> address \<Rightarrow> u64 \<Rightarrow> account" where
  "token_acc mint own n =
     \<lparr>acc_lamports = 100, acc_owner = ref_token_ID,
      acc_data = token_encode \<lparr>ta_mint = mint, ta_owner = own, ta_amount = n\<rparr> (replicate 93 0)\<rparr>"

definition mint_acc :: "u8 \<Rightarrow> account" where
  "mint_acc decimals =
     \<lparr>acc_lamports = 100, acc_owner = ref_token_ID,
      acc_data = replicate 44 0 @ [decimals] @ replicate 37 0\<rparr>"

lemma view_simps [simp]:
  "av_address (view a) = a" "av_address (signer a) = a"
  "\<not> av_is_signer (view a)" "av_is_signer (signer a)"
  by (simp_all add: view_def signer_def)

lemma account_simps [simp]:
  "acc_owner wallet = system_program_ID" "acc_data wallet = []" "acc_lamports wallet = 1000000"
  "acc_owner (token_acc m o' n) = ref_token_ID" "acc_lamports (token_acc m o' n) = 100"
  "acc_owner (mint_acc d) = ref_token_ID" "acc_lamports (mint_acc d) = 100"
  by (simp_all add: wallet_def token_acc_def mint_acc_def)

lemma closed_simps [simp]:
  "acc_owner closed_account = system_program_ID" "acc_data closed_account = []"
  "acc_lamports closed_account = 0"
  by (simp_all add: closed_account_def)

lemma ref_ID_simps [simp]:
  "ref_token_ID \<noteq> system_program_ID" "system_program_ID \<noteq> ref_token_ID"
  by (simp_all add: ref_token_ID_def system_program_ID_def)

lemma token_view_acc [simp]:
  "ref_token_view ref_token_ID (acc_data (token_acc m o' n)) =
     Inr \<lparr>ta_mint = m, ta_owner = o', ta_amount = n\<rparr>"
  by (simp add: token_acc_def)

lemma token_drop [simp]: "drop 72 (token_encode t rest) = rest"
  by (simp add: token_encode_def)

lemma token_acc_drop [simp]: "drop 72 (acc_data (token_acc m o' n)) = replicate 93 0"
  by (simp add: token_acc_def)

lemma mint_view_acc [simp]: "ref_mint_decimals ref_token_ID (acc_data (mint_acc d)) = Inr d"
  by (simp add: ref_mint_decimals_def mint_acc_def nth_append)

lemma token_acc_set [simp]:
  "(token_acc m o' n)\<lparr>acc_data :=
     token_encode \<lparr>ta_mint = m, ta_owner = o', ta_amount = k\<rparr> (replicate 93 0)\<rparr> = token_acc m o' k"
  by (simp add: token_acc_def)

lemma from_le_bytes_byte [simp]: "from_le_bytes [b] = ucast b"
  by simp

lemmas ref_call_defs =
  ref_create_def ref_ata_create_def ref_transfer_def ref_set_amount_def ref_token_close_def
  ref_close_def set_data_def set_lamports_def data_of_def lamports_of_def owned_by_def
  token_account_at_def token_account_of_def mint_decimals_at_def

lemma token_acc_lamports [simp]:
  "acc_data ((token_acc m o' n)\<lparr>acc_lamports := k\<rparr>) = acc_data (token_acc m o' n)"
  by simp


end
