(* ===== verification/Fundraiser_Scenario.thy ===== *)
theory Fundraiser_Scenario
  imports Fundraiser_Available Reference_Runtime
begin

text \<open>
  Concrete account memory for the fundraiser on \<open>ref_runtime\<close>: a maker, a mint with one
  decimal, a contributor, and a campaign before, during and after it runs.
\<close>

section \<open>Accounts\<close>

definition program_acc :: "u8 list \<Rightarrow> account" where
  "program_acc bs = \<lparr>acc_lamports = 200, acc_owner = fundraiser_ID, acc_data = bs\<rparr>"

lemma program_acc_simps [simp]:
  "acc_owner (program_acc bs) = fundraiser_ID" "acc_data (program_acc bs) = bs"
  "acc_lamports (program_acc bs) = 200"
  by (simp_all add: program_acc_def)

lemma ID_simps [simp]:
  "fundraiser_ID \<noteq> system_program_ID" "system_program_ID \<noteq> fundraiser_ID"
  "ref_token_ID \<noteq> fundraiser_ID" "fundraiser_ID \<noteq> ref_token_ID"
  by (simp_all add: fundraiser_ID_def ref_token_ID_def system_program_ID_def)

lemma program_acc_set [simp]: "(program_acc bs)\<lparr>acc_data := cs\<rparr> = program_acc cs"
  by (simp add: program_acc_def)

section \<open>Addresses\<close>

definition the_fundraiser :: address where "the_fundraiser = 27031"

definition the_record :: address where "the_record = 351371"

lemma derive_fundraiser:
  "ref_derive (fundraiser_seeds m b) p = 27000 + 3 * m + ucast b"
  by (simp add: ref_derive_def fundraiser_seeds_def)

lemma derive_contributor:
  "ref_derive (contributor_seeds f c b) p = 108000 + 9 * f + 3 * c + ucast b"
  by (simp add: ref_derive_def contributor_seeds_def)

section \<open>Account memory\<close>

definition fund_state :: "u64 \<Rightarrow> fundraiser" where
  "fund_state current =
     \<lparr>fr_maker = address_bytes 10, fr_mint_to_raise = address_bytes 20,
      fr_amount_to_raise = to_le_bytes 8 (1000 :: u64), fr_current_amount = to_le_bytes 8 current,
      fr_time_started = to_le_bytes 8 (1000000 :: u64), fr_duration = 1, fr_bump = 1\<rparr>"

definition record_state :: "u64 \<Rightarrow> contributor" where
  "record_state n = \<lparr>co_amount = to_le_bytes 8 n, co_bump = 2\<rparr>"

text \<open>Before the campaign: the maker 10, the mint 20, the contributor 30 with its tokens at 31.\<close>

definition before_campaign :: ledger where
  "before_campaign =
     (\<lambda>_. closed_account)
       (10 := wallet, 20 := mint_acc 1, 30 := wallet, 31 := token_acc 20 30 500)"

text \<open>While it runs: the contributor has paid \<open>n\<close>, others the rest of what is raised.\<close>

definition in_campaign :: "u64 \<Rightarrow> u64 \<Rightarrow> ledger" where
  "in_campaign current n =
     before_campaign
       (the_fundraiser := program_acc (fundraiser_encode (fund_state current)),
        40 := token_acc 20 the_fundraiser current,
        the_record := program_acc (contributor_encode (record_state n)))"

lemma fund_state_wf [simp]: "fundraiser_wf (fund_state n)"
  by (simp add: fund_state_def fundraiser_wf_def)

lemma record_state_wf [simp]: "contributor_wf (record_state n)"
  by (simp add: record_state_def contributor_wf_def)

lemma fund_state_simps [simp]:
  "maker_of (fund_state n) = 10" "mint_to_raise_of (fund_state n) = 20"
  "amount_to_raise_of (fund_state n) = 1000" "current_amount_of (fund_state n) = n"
  "time_started_of (fund_state n) = 1000000" "duration_of (fund_state n) = 1"
  "fr_bump (fund_state n) = 1"
  by (simp_all add: fund_state_def fundraiser_get_defs from_to_le_bytes)

lemma record_state_simps [simp]: "amount_of (record_state n) = n" "co_bump (record_state n) = 2"
  by (simp_all add: record_state_def amount_of_def from_to_le_bytes)

lemma state_set_simps [simp]:
  "set_current_amount (fund_state n) k = fund_state k"
  "set_amount (record_state n) k = record_state k"
  by (simp_all add: fund_state_def record_state_def set_current_amount_def set_amount_def)

lemmas scenario_defs =
  in_campaign_def before_campaign_def the_fundraiser_def the_record_def

lemma from_info_program [simp]:
  "L (av_address v) = program_acc (fundraiser_encode (fund_state n)) \<Longrightarrow>
     fundraiser_from_account_info L v = Inr (fund_state n)"
  "L (av_address v) = program_acc (contributor_encode (record_state n)) \<Longrightarrow>
     contributor_from_account_info L v = Inr (record_state n)"
  by (simp_all add: fundraiser_from_account_info_def contributor_from_account_info_def data_of_def
      fundraiser_data.length_encode fundraiser_data.decode_encode
      contributor_data.length_encode contributor_data.decode_encode)

lemma not_ended_example [simp]: "\<not> has_ended (fund_state n) 1000000"
  by (simp add: has_ended_def div_i64_def saturating_sub_i64_def SECONDS_TO_DAYS_def
      i64_MIN_def i64_MAX_def)

lemma at_time_fields [simp]:
  "token_account_view (at_time rt now) = token_account_view rt"
  "mint_decimals (at_time rt now) = mint_decimals rt"
  "rent_minimum_balance (at_time rt now) = rent_minimum_balance rt"
  "system_create_account (at_time rt now) = system_create_account rt"
  "ata_create (at_time rt now) = ata_create rt"
  "token_transfer (at_time rt now) = token_transfer rt"
  "token_close_account (at_time rt now) = token_close_account rt"
  "account_close (at_time rt now) = account_close rt"
  by (simp_all add: at_time_def)

lemmas run_defs =
  owned_by_def read_u64_def slice_def from_to_le_bytes verify_fundraiser_pda_with_maker_def
  verify_fundraiser_pda_def verify_contributor_pda_def derive_fundraiser derive_contributor
  create_contributor_if_needed_def validate_token_account_def token_account_at_def
  token_account_of_def mint_decimals_at_def data_of_def lamports_of_def token_amount_def
  pow10_def checked_pow_def checked_mul_def checked_add_def checked_sub_def
  MAX_CONTRIBUTION_PERCENTAGE_def PERCENTAGE_SCALER_def MIN_AMOUNT_TO_RAISE_def
  ref_transfer_def ref_set_amount_def set_data_def fundraiser_store_def contributor_store_def
  close_program_account_def ref_close_def set_lamports_def

section \<open>Runs\<close>

lemma contribute_example:
  "contribute_with (at_time ref_runtime 1000000) (signer 30) (view 20) (view the_fundraiser)
     (view the_record) (view 31) (view 40) (2 # to_le_bytes 8 (60 :: u64)) (in_campaign 200 40) =
     Inr ((in_campaign 260 100)(31 := token_acc 20 30 440))"
  by (simp add: contribute_with_def run_defs scenario_defs) (simp add: fun_eq_iff)

lemma ended_example [simp]: "has_ended (fund_state n) 1086400"
  by (simp add: has_ended_def div_i64_def saturating_sub_i64_def SECONDS_TO_DAYS_def
      i64_MIN_def i64_MAX_def)

lemma refund_example:
  "refund_with (at_time ref_runtime 1086400) (signer 30) (view 10) (view 20)
     (view the_fundraiser) (view the_record) (view 31) (view 40) (in_campaign 260 100) =
     Inr ((in_campaign 160 0)(31 := token_acc 20 30 600, the_record := closed_account,
       30 := wallet\<lparr>acc_lamports := 1000200\<rparr>))"
  by (simp add: refund_with_def run_defs scenario_defs) (simp add: fun_eq_iff)

lemma initialized_state [simp]:
  "(set_duration (set_time_started (set_current_amount (set_amount_to_raise
     (set_mint_to_raise (set_maker s 10) 20) 1000) 0) 1000000) 1)\<lparr>fr_bump := 1\<rparr> = fund_state 0"
  by (cases s) (simp add: fundraiser_set_defs fund_state_def)

text \<open>After the campaign started at 1000000.\<close>

definition started_campaign :: ledger where
  "started_campaign =
     before_campaign
       (10 := wallet\<lparr>acc_lamports := 999782\<rparr>,
        the_fundraiser := (program_acc (fundraiser_encode (fund_state 0)))\<lparr>acc_lamports := 218\<rparr>,
        40 := (token_acc 20 the_fundraiser 0)\<lparr>acc_lamports := 0\<rparr>)"

lemma initialize_example:
  "initialize_with (at_time ref_runtime 1000000) (signer 10) (view 20) (view the_fundraiser)
     (view 40) (view 0) (view 6) (1 # to_le_bytes 8 (1000 :: u64) @ [1]) before_campaign =
     Inr started_campaign"
  by (simp add: initialize_with_def run_defs scenario_defs ref_create_def ref_ata_create_def
      fundraiser_LEN_def fundraiser_from_account_info_def nth_append)
    (simp add: started_campaign_def scenario_defs fun_eq_iff program_acc_def token_acc_def)

lemma check_example:
  "check_contributions_with (at_time ref_runtime 1000000) (signer 10) (view 20)
     (view the_fundraiser) (view 40) (view 11) (view 6) (view 0) (in_campaign 1000 100) =
     Inr ((in_campaign 1000 100)
       (the_fundraiser := closed_account, 40 := closed_account,
        11 := (token_acc 20 10 1000)\<lparr>acc_lamports := 0\<rparr>, 10 := wallet\<lparr>acc_lamports := 1000300\<rparr>))"
  by (simp add: check_contributions_with_def run_defs scenario_defs ref_ata_create_def
      ref_token_close_def)
    (simp add: fun_eq_iff token_acc_def)

text \<open>The first contribution creates the contributor's record.\<close>

definition contributed_campaign :: ledger where
  "contributed_campaign =
     started_campaign
       (30 := wallet\<lparr>acc_lamports := 999863\<rparr>, 31 := token_acc 20 30 440,
        the_fundraiser := (program_acc (fundraiser_encode (fund_state 60)))\<lparr>acc_lamports := 218\<rparr>,
        40 := (token_acc 20 the_fundraiser 60)\<lparr>acc_lamports := 0\<rparr>,
        the_record := (program_acc (contributor_encode (record_state 60)))\<lparr>acc_lamports := 137\<rparr>)"

lemma first_record [simp]: "(set_amount s 0)\<lparr>co_bump := 2\<rparr> = record_state 0"
  by (cases s) (simp add: set_amount_def record_state_def)

lemma program_acc_lamports [simp]:
  "acc_data ((program_acc bs)\<lparr>acc_lamports := k\<rparr>) = bs"
  "acc_owner ((program_acc bs)\<lparr>acc_lamports := k\<rparr>) = fundraiser_ID"
  by simp_all

lemma first_contribution_example:
  "contribute_with (at_time ref_runtime 1000000) (signer 30) (view 20) (view the_fundraiser)
     (view the_record) (view 31) (view 40) (2 # to_le_bytes 8 (60 :: u64)) started_campaign =
     Inr contributed_campaign"
  by (simp add: contribute_with_def run_defs scenario_defs started_campaign_def ref_create_def
      contributor_LEN_def contributor_from_account_info_def fundraiser_from_account_info_def
      fundraiser_data.length_encode fundraiser_data.decode_encode
      contributor_data.length_encode contributor_data.decode_encode)
    (simp add: contributed_campaign_def started_campaign_def scenario_defs fun_eq_iff
      program_acc_def token_acc_def)

section \<open>The reference runtime refuses nothing without a reason\<close>

lemma ref_transfer_available: "transfer_available off_curve usable ref_runtime"
  unfolding transfer_available_def
proof (intro allI impI, elim conjE)
  fix src dst auth :: account_view and n seeds L s d
  assume s: "token_account_at ref_runtime L src = Inr s"
    and d: "token_account_at ref_runtime L dst = Inr d"
    and "ta_mint s = ta_mint d" "n \<le> ta_amount s" "unat (ta_amount d) + unat n < 2 ^ 64"
      "ta_owner s = av_address auth"
  then show "\<exists>L'. token_transfer ref_runtime src dst auth n [seeds] L = Inr L'"
    by (auto simp: ref_transfer_def token_account_at_def token_account_of_def data_of_def
        checked_add_def not_less)
qed

lemma ref_close_available: "close_available ref_runtime"
  by (simp add: close_available_def ref_close_def)

end
