(* ===== verification/Fundraiser_Theorems.thy ===== *)
theory Fundraiser_Theorems
  imports Fundraiser_Scenario
begin

text \<open>
  The properties of pinocchio-fundraiser, each with a run of the program on concrete account
  memory where its hypotheses hold.
\<close>

section \<open>Concrete calls are honest\<close>

lemma ref_runtime_ok: "documented_runtime ref_runtime" "token_program_ID ref_runtime \<noteq> fundraiser_ID"
  by (simp_all add: ref_runtime_documented)

lemma derive_bounds:
  "derive_address ref_runtime (fundraiser_seeds m b) fundraiser_ID = 27000 + 3 * m + ucast b"
  "derive_address ref_runtime (contributor_seeds f c b) fundraiser_ID =
     108000 + 9 * f + 3 * c + ucast b"
  by (simp_all add: derive_fundraiser derive_contributor)

lemma unat_plus_byte:
  assumes "n < 2 ^ 200"
  shows "unat (of_nat n + ucast (b :: u8) :: address) = n + unat b"
proof -
  have "unat b < 256" using unsigned_less [of b] by simp
  moreover have "unat (ucast b :: address) = unat b"
    by (rule unat_ucast_widen) simp
  moreover have "unat (of_nat n :: address) = n"
    using assms by (simp add: unat_of_nat)
  ultimately show ?thesis
    using assms by (simp add: unat_word_ariths)
qed

lemma contributor_pdas_bounds:
  assumes "C \<in> contributor_pdas ref_runtime {10, 30} (of_nat f)" and "f < 1000000"
  shows "unat C \<in> {108030 + 9 * f .. 108345 + 9 * f}"
proof -
  have "\<exists>b :: u8. C = of_nat (108000 + 9 * f + 3 * 10) + ucast b \<or>
      C = of_nat (108000 + 9 * f + 3 * 30) + ucast b"
    using assms(1) by (auto simp: contributor_pdas_def derive_contributor)
  then obtain k and b :: u8 where C: "C = of_nat (108000 + 9 * f + 3 * k) + ucast b" and k: "k = 10 \<or> k = 30"
    by metis
  have "unat C = 108000 + 9 * f + 3 * k + unat b"
    unfolding C using assms(2) k by (intro unat_plus_byte) auto
  moreover have "unat b < 256" using unsigned_less [of b] by simp
  ultimately show ?thesis using k by auto
qed

lemma pdas_apart:
  assumes "f < 1000000" and "g < 1000000" and "f + 40 < g \<or> g + 40 < f"
  shows "contributor_pdas ref_runtime {10, 30} (of_nat f) \<inter>
    contributor_pdas ref_runtime {10, 30} (of_nat g) = {}"
  using contributor_pdas_bounds [of _ f] contributor_pdas_bounds [of _ g] assms
  by fastforce

lemma users_apart:
  assumes "m \<in> {10, 30}"
  shows "derive_address ref_runtime (fundraiser_seeds m b) fundraiser_ID \<notin> {10, 30}"
proof -
  have "27000 + 3 * m + ucast b = of_nat 27030 + ucast b \<or>
      27000 + 3 * m + ucast b = (of_nat 27090 + ucast b :: address)"
    using assms by auto
  then have "unat (27000 + 3 * m + ucast b :: address) \<ge> 27030"
    using unat_plus_byte [of 27030 b] unat_plus_byte [of 27090 b] by auto
  moreover have "\<not> 27030 \<le> unat (10 :: address)" and "\<not> 27030 \<le> unat (30 :: address)"
    by simp_all
  ultimately show ?thesis
    unfolding ref_runtime_simps derive_fundraiser by (metis empty_iff insert_iff)
qed

lemma contribute_honest:
  "honest_accounts ref_runtime {10, 30} the_fundraiser
     [signer 30, view 20, view the_fundraiser, view the_record, view 31, view 40, view 0, view 6]"
  using pdas_apart [of 30 27031] pdas_apart [of 20 27031] pdas_apart [of 351371 27031]
    pdas_apart [of 31 27031] pdas_apart [of 40 27031] pdas_apart [of 0 27031]
    pdas_apart [of 6 27031] users_apart
  unfolding honest_accounts_def
  by (simp add: the_record_def) (simp add: the_fundraiser_def)

lemma initialize_honest_other:
  "honest_accounts ref_runtime {10, 30} 27091
     [signer 10, view 20, view the_fundraiser, view 40, view 0, view 6]"
  using pdas_apart [of 10 27091] pdas_apart [of 20 27091] pdas_apart [of 27031 27091]
    pdas_apart [of 40 27091] pdas_apart [of 0 27091] pdas_apart [of 6 27091] users_apart
  unfolding honest_accounts_def
  by (simp add: the_record_def) (simp add: the_fundraiser_def)

lemma contribute_call:
  "fundraiser_process_instruction (at_time ref_runtime 1000000) fundraiser_ID
     [signer 30, view 20, view the_fundraiser, view the_record, view 31, view 40, view 0, view 6]
     (1 # 2 # to_le_bytes 8 (60 :: u64)) started_campaign = Inr contributed_campaign"
  by (simp add: fundraiser_process_instruction_def fundraiser_instruction_try_from_def
      process_contribute_def first_contribution_example)

lemma initialize_call:
  "process_initialize (at_time ref_runtime 1000000)
     [signer 10, view 20, view the_fundraiser, view 40, view 0, view 6]
     (1 # to_le_bytes 8 (1000 :: u64) @ [1]) before_campaign = Inr started_campaign"
  by (simp add: process_initialize_def initialize_example)

lemma before_fresh: "recorded before_campaign C = 0"
  by (rule recorded_not_owned) (simp add: before_campaign_def)

lemma started_run: "campaign_run ref_runtime {10, 30} the_fundraiser started_campaign"
  by (rule campaign_run.start [OF initialize_call]) (simp_all add: before_fresh the_fundraiser_def)

lemma contributed_at: "fundraiser_at contributed_campaign the_fundraiser = Some (fund_state 60)"
  by (simp add: fundraiser_at_def contributed_campaign_def the_fundraiser_def the_record_def
      fundraiser_data.length_encode fundraiser_data.decode_encode)

lemma contributed_run: "campaign_run ref_runtime {10, 30} the_fundraiser contributed_campaign"
  by (rule campaign_run.step [OF started_run])
    (rule fundraiser_step.instruction [OF contribute_call contribute_honest],
      simp add: campaign_of_def contributed_at)

section \<open>Solvency\<close>

text \<open>C1: (pinocchio-fundraiser) As long as a campaign runs, whatever instructions and foreign
  transactions happen and in whatever order, what the fundraiser account says was raised is
  exactly what the contributor records add up to, the campaign's token accounts hold at least
  that much, and no record is above ten percent of the target.\<close>

theorem campaign_solvent:
  assumes "documented_runtime rt" and "token_program_ID rt \<noteq> fundraiser_ID"
    and "campaign_run rt U F L"
  shows "\<exists>s. fundraiser_at L F = Some s \<and>
    unat (current_amount_of s) = (\<Sum>C\<in>contributor_pdas rt U F. recorded L C) \<and>
    unat (current_amount_of s) \<le> tokens_held rt F (mint_to_raise_of s) L \<and>
    (\<forall>C\<in>contributor_pdas rt U F. recorded L C \<le> unat (amount_to_raise_of s) * 10 div 100)"
proof -
  obtain s where s: "fundraiser_at L F = Some s"
    using campaign_run_alive [OF assms] by (auto simp: campaign_of_def)
  then have inv: "campaign_inv (campaign_view rt U F L s)"
    by (intro campaign_run_inv [OF assms]) (simp add: campaign_of_def)
  have "(\<Sum>C\<in>UNIV. paid_at rt U F L C) = (\<Sum>C\<in>contributor_pdas rt U F. recorded L C)"
    unfolding paid_at_def by (simp add: sum.If_cases)
  moreover have "recorded L C \<le> cp_limit (campaign_view rt U F L s)"
    if "C \<in> contributor_pdas rt U F" for C
    using inv that by (metis campaign_inv_def campaign_view_simps(7) paid_at_def)
  ultimately show ?thesis
    using inv s by (auto simp: campaign_inv_def cp_limit_def)
qed

theorem campaign_solvent_witness:
  "\<exists>s. fundraiser_at contributed_campaign the_fundraiser = Some s \<and>
    unat (current_amount_of s) =
      (\<Sum>C\<in>contributor_pdas ref_runtime {10, 30} the_fundraiser. recorded contributed_campaign C)"
  using campaign_solvent [OF ref_runtime_ok contributed_run] by blast

text \<open>C2: (pinocchio-fundraiser) Every instruction the program accepts, whatever its accounts
  and data, is one step of the abstract campaign at every fundraiser address: it is left alone,
  one contributor pays in while it runs, one is refunded after it has ended, or it is paid out
  with the target met.\<close>

theorem instruction_implements_campaign_step:
  assumes "documented_runtime rt" and "token_program_ID rt \<noteq> fundraiser_ID"
    and "fundraiser_process_instruction (at_time rt now) fundraiser_ID accounts data L = Inr L'"
    and "honest_accounts rt U F accounts"
    and "campaign_of rt U F L = Some cp"
  shows "spec_step (sint now) cp (campaign_of rt U F L')"
  using assms by (rule instruction_spec_step)

lemma started_campaign_of:
  "\<exists>cp. campaign_of ref_runtime {10, 30} the_fundraiser started_campaign = Some cp"
  using campaign_run_alive [OF ref_runtime_ok started_run] by auto

theorem instruction_implements_campaign_step_witness:
  "\<exists>cp. campaign_of ref_runtime {10, 30} the_fundraiser started_campaign = Some cp \<and>
     spec_step (sint (1000000 :: i64)) cp
       (campaign_of ref_runtime {10, 30} the_fundraiser contributed_campaign)"
  using started_campaign_of instruction_implements_campaign_step
    [OF ref_runtime_ok contribute_call contribute_honest] by blast

text \<open>C3: (pinocchio-fundraiser) An instruction that does not name a campaign's fundraiser
  account leaves that campaign exactly as it was: its terms, what was raised, every
  contributor's record and the tokens it holds.\<close>

theorem other_campaigns_untouched:
  assumes "documented_runtime rt" and "token_program_ID rt \<noteq> fundraiser_ID"
    and "fundraiser_process_instruction (at_time rt now) fundraiser_ID accounts data L = Inr L'"
    and "honest_accounts rt U F accounts"
    and "campaign_of rt U F L = Some cp"
    and "F \<notin> av_address ` set accounts"
  shows "campaign_of rt U F L' = Some cp"
  using assms by (rule instruction_apart)

lemma other_campaign_call:
  "fundraiser_process_instruction (at_time ref_runtime 1000000) fundraiser_ID
     [signer 10, view 20, view the_fundraiser, view 40, view 0, view 6]
     (0 # 1 # to_le_bytes 8 (1000 :: u64) @ [1])
     (before_campaign(27091 := program_acc (fundraiser_encode (fund_state 5)))) =
   Inr (started_campaign(27091 := program_acc (fundraiser_encode (fund_state 5))))"
  by (simp add: fundraiser_process_instruction_def fundraiser_instruction_try_from_def
      process_initialize_def initialize_with_def run_defs scenario_defs ref_create_def
      ref_ata_create_def fundraiser_LEN_def fundraiser_from_account_info_def nth_append)
    (simp add: started_campaign_def scenario_defs fun_eq_iff program_acc_def token_acc_def)

theorem other_campaigns_untouched_witness:
  "\<exists>cp. cp_raised cp = 5 \<and>
     campaign_of ref_runtime {10, 30} 27091
       (started_campaign(27091 := program_acc (fundraiser_encode (fund_state 5)))) = Some cp"
proof -
  let ?L = "before_campaign(27091 := program_acc (fundraiser_encode (fund_state 5)))"
  have "campaign_of ref_runtime {10, 30} 27091 ?L =
      Some (campaign_view ref_runtime {10, 30} 27091 ?L (fund_state 5))"
    by (simp add: campaign_of_def fundraiser_at_def fundraiser_data.length_encode
        fundraiser_data.decode_encode)
  from other_campaigns_untouched
    [OF ref_runtime_ok other_campaign_call initialize_honest_other this]
  show ?thesis by (auto simp: the_fundraiser_def)
qed

section \<open>The four instructions\<close>

text \<open>C4: (process_contribute) An accepted contribution adds its amount to what was raised, to
  the contributor's record and to the tokens the campaign holds, and changes nothing else of
  the campaign; the record stays within ten percent of the target and the campaign has not
  ended.\<close>

theorem contribute_implements_spec:
  assumes "documented_runtime rt" and "token_program_ID rt \<noteq> fundraiser_ID"
    and "contribute_with rt c mint f ca cata v data L = Inr L'"
    and "av_address c \<in> U" and "av_address c \<noteq> av_address f"
  shows "\<exists>cp now. campaign_of rt U (av_address f) L = Some cp \<and>
    campaign_of rt U (av_address f) L' =
      Some (spec_contribute (av_address ca) (contribution_amount data) cp) \<and>
    cp_paid cp (av_address ca) + contribution_amount data \<le> cp_limit cp \<and>
    cp_mint cp = av_address mint \<and>
    clock_unix_timestamp rt = Inr now \<and> \<not> cp_ended cp (sint now)"
  by (rule contribute_campaign [OF assms(1-4)]) (use assms(5) in blast)

theorem contribute_implements_spec_witness:
  "\<exists>cp. campaign_of ref_runtime {30} the_fundraiser (in_campaign 200 40) = Some cp \<and>
     campaign_of ref_runtime {30} the_fundraiser ((in_campaign 260 100)(31 := token_acc 20 30 440)) =
       Some (spec_contribute the_record 60 cp)"
proof -
  have "contribution_amount (2 # to_le_bytes 8 (60 :: u64)) = 60"
    by (simp add: contribution_amount_def slice_def from_to_le_bytes)
  then show ?thesis
    using contribute_implements_spec [OF _ _ contribute_example, of "{30}"] ref_runtime_ok
    by (auto simp: the_fundraiser_def)
qed

text \<open>C5: (process_refund) An accepted refund pays the contributor exactly what its record says,
  takes the amount off what was raised and off the tokens the campaign holds, and removes the
  record, and it is accepted only after the campaign has ended.\<close>

theorem refund_implements_spec:
  assumes "documented_runtime rt" and "token_program_ID rt \<noteq> fundraiser_ID"
    and "refund_with rt c maker mint f ca cata v L = Inr L'"
    and "av_address c \<in> U" and "av_address c \<noteq> av_address f"
  shows "\<exists>cp now. campaign_of rt U (av_address f) L = Some cp \<and>
    campaign_of rt U (av_address f) L' = Some (spec_refund (av_address ca) cp) \<and>
    cp_paid cp (av_address ca) \<le> cp_raised cp \<and>
    tokens_held rt (av_address c) (cp_mint cp) L' =
      tokens_held rt (av_address c) (cp_mint cp) L + cp_paid cp (av_address ca) \<and>
    record_at L' (av_address ca) = None \<and>
    clock_unix_timestamp rt = Inr now \<and> cp_ended cp (sint now)"
  by (rule refund_campaign [OF assms(1-4)]) (use assms(5) in auto)

theorem refund_implements_spec_witness:
  "\<exists>cp. campaign_of ref_runtime {30} the_fundraiser (in_campaign 260 100) = Some cp \<and>
     campaign_of ref_runtime {30} the_fundraiser
       ((in_campaign 160 0)(31 := token_acc 20 30 600, the_record := closed_account,
         30 := wallet\<lparr>acc_lamports := 1000200\<rparr>)) = Some (spec_refund the_record cp)"
  using refund_implements_spec [OF _ _ refund_example, of "{30}"] ref_runtime_ok
  by (auto simp: the_fundraiser_def)

text \<open>C6: (process_initialize) An accepted initialize starts a campaign where none was, with the
  maker, mint, target, duration and start time of the call and nothing raised, and creates its
  vault empty; the target is above three whole tokens.\<close>

theorem initialize_starts_campaign:
  assumes "documented_runtime rt" and "token_program_ID rt \<noteq> fundraiser_ID"
    and "initialize_with rt maker mint f v sp tp data L = Inr L'"
    and "av_address maker \<noteq> av_address f"
  shows "\<exists>cp now dec. campaign_of rt U (av_address f) L = None \<and>
    campaign_of rt U (av_address f) L' = Some cp \<and>
    cp_maker cp = av_address maker \<and> cp_mint cp = av_address mint \<and>
    cp_target cp = contribution_amount data \<and> cp_days cp = unat (data ! 9) \<and>
    clock_unix_timestamp rt = Inr now \<and> cp_started cp = sint now \<and> cp_raised cp = 0 \<and>
    mint_decimals_at rt L mint = Inr dec \<and> 3 * 10 ^ unat dec < cp_target cp \<and>
    token_account_at rt L' v =
      Inr \<lparr>ta_mint = av_address mint, ta_owner = av_address f, ta_amount = 0\<rparr>"
  by (rule initialize_campaign [OF assms, of U]) auto

theorem initialize_starts_campaign_witness:
  "\<exists>cp. campaign_of ref_runtime {30} the_fundraiser started_campaign = Some cp \<and>
     cp_maker cp = 10 \<and> cp_raised cp = 0"
  using initialize_starts_campaign [OF _ _ initialize_example, of "{30}"] ref_runtime_ok
  by (auto simp: the_fundraiser_def)

text \<open>C7: (process_check_contributions) An accepted payout moves the whole balance of the vault,
  at least the target, from the campaign to the maker, and closes the vault and the fundraiser
  account; every contributor record stays where it was.\<close>

theorem check_contributions_pays_out:
  assumes "documented_runtime rt" and "token_program_ID rt \<noteq> fundraiser_ID"
    and "check_contributions_with rt maker mint f v mata tp sp L = Inr L'"
    and "av_address maker \<noteq> av_address f"
  shows "\<exists>s vault. fundraiser_at L (av_address f) = Some s \<and> maker_of s = av_address maker \<and>
    token_account_at rt L v = Inr vault \<and>
    unat (amount_to_raise_of s) \<le> unat (ta_amount vault) \<and>
    tokens_held rt (av_address maker) (mint_to_raise_of s) L' =
      tokens_held rt (av_address maker) (mint_to_raise_of s) L + unat (ta_amount vault) \<and>
    tokens_held rt (av_address f) (mint_to_raise_of s) L' + unat (ta_amount vault) =
      tokens_held rt (av_address f) (mint_to_raise_of s) L \<and>
    L' (av_address v) = closed_account \<and> L' (av_address f) = closed_account \<and>
    (\<forall>C. recorded L' C = recorded L C)"
  by (rule check_campaign [OF assms, of UNIV]) (auto simp: campaign_of_def)

theorem check_contributions_pays_out_witness:
  "\<forall>C. recorded ((in_campaign 1000 100)
       (the_fundraiser := closed_account, 40 := closed_account,
        11 := (token_acc 20 10 1000)\<lparr>acc_lamports := 0\<rparr>, 10 := wallet\<lparr>acc_lamports := 1000300\<rparr>)) C =
     recorded (in_campaign 1000 100) C"
  using check_contributions_pays_out [OF _ _ check_example] ref_runtime_ok
  by (auto simp: the_fundraiser_def)

section \<open>Time and exclusion\<close>

text \<open>C11: (has_ended) A campaign has ended exactly when its duration is not zero and that many
  whole days have passed since its start; the saturating subtraction and the truncating division
  never change the answer.\<close>

theorem has_ended_correct:
  "has_ended s now \<longleftrightarrow>
     duration_of s \<noteq> 0 \<and>
     sint (time_started_of s) + int (unat (duration_of s)) * 86400 \<le> sint now"
proof -
  have "duration_of s \<noteq> 0 \<longleftrightarrow> unat (duration_of s) \<noteq> 0"
    by (metis unat_eq_zero)
  then show ?thesis
    unfolding has_ended_iff [where rt = rt and U = U and F = F and L = L] cp_ended_def
      campaign_view_simps by metis
qed

text \<open>C9: (process_refund) Nobody is refunded twice from one record: after an accepted refund
  every further refund with the same contributor account is turned down, whoever sends it and
  whatever else it names.\<close>

theorem refund_once:
  assumes "documented_runtime rt"
    and "refund_with rt c maker mint f ca cata v L = Inr L'"
    and "av_address ca' = av_address ca"
  shows "isl (refund_with rt' c' maker' mint' f' ca' cata' v' L')"
proof -
  obtain M where cl: "close_program_account rt M ca c = Inr L'"
    using assms(2) by (rule refundE)
  have "record_at L' (av_address ca') = None"
    using close_program_account_effect(2) [OF assms(1) cl] assms(3)
    by (simp add: record_at_def closed_account_def contributor_LEN_def)
  then show ?thesis
    by (cases "refund_with rt' c' maker' mint' f' ca' cata' v' L'") (auto elim!: refundE)
qed

theorem refund_once_witness:
  "isl (refund_with ref_runtime (signer 30) (view 10) (view 20) (view the_fundraiser)
     (view the_record) (view 31) (view 40)
     ((in_campaign 160 0)(31 := token_acc 20 30 600, the_record := closed_account,
       30 := wallet\<lparr>acc_lamports := 1000200\<rparr>)))"
  using refund_once [OF _ refund_example, of "view the_record"] ref_runtime_documented by simp

text \<open>C10: (process_refund, process_check_contributions) In no state can a campaign be paid out
  and also refunded from the same vault: a vault with the target met takes no refund.\<close>

theorem payout_excludes_refund:
  assumes "documented_runtime rt" and "token_program_ID rt \<noteq> fundraiser_ID"
    and "check_contributions_with rt maker mint f v mata tp sp L = Inr L'"
    and "av_address maker \<noteq> av_address f"
  shows "isl (refund_with rt' c maker' mint' f ca cata v L)
    \<or> token_account_view rt' \<noteq> token_account_view rt"
proof (rule disjCI)
  assume "\<not> token_account_view rt' \<noteq> token_account_view rt"
  then have same: "token_account_at rt' = token_account_at rt"
    by (simp add: token_account_at_def token_account_of_def fun_eq_iff)
  obtain s tv where s: "fundraiser_at L (av_address f) = Some s"
    and tv: "token_account_at rt L v = Inr tv"
    and met: "unat (amount_to_raise_of s) \<le> unat (ta_amount tv)"
    by (rule check_campaign [OF assms, of UNIV]) (auto simp: campaign_of_def)
  show "isl (refund_with rt' c maker' mint' f ca cata v L)"
  proof (cases "refund_with rt' c maker' mint' f ca cata v L")
    case (Inr L'')
    then obtain s' tv' where "fundraiser_at L (av_address f) = Some s'"
      and "token_account_at rt' L v = Inr tv'"
      and "unat (ta_amount tv') < unat (amount_to_raise_of s')"
      by (rule refundE)
    with s tv met same show ?thesis by simp
  qed simp
qed

theorem payout_excludes_refund_witness:
  "isl (refund_with (at_time ref_runtime 1086400) (signer 30) (view 10) (view 20)
     (view the_fundraiser) (view the_record) (view 31) (view 40) (in_campaign 1000 100))"
  using payout_excludes_refund [OF _ _ check_example, where rt' = "at_time ref_runtime 1086400"]
    ref_runtime_ok
  by (auto simp: the_fundraiser_def)

text \<open>C8: (process_refund) In any run of a campaign that started with no older records left at its
  addresses, whatever instructions and foreign transactions came before: once the campaign has ended below its target, a contributor with a record that is
  nobody else's gets a refund of the whole record. The books of the program always cover it and
  the bumps it stores always derive its addresses; what is asked for is the time, the accounts of
  the call (the vault with the campaign's tokens, an account for the contributor with room), and
  that the token program carries out a transfer it has no documented reason to refuse.\<close>

theorem refund_available:
  assumes rt: "documented_runtime rt" "token_program_ID rt \<noteq> fundraiser_ID"
    and live: "transfer_available off_curve usable rt" "close_available rt"
    and run: "campaign_run rt U (av_address f) L"
    and cp: "campaign_of rt U (av_address f) L = Some cp"
    and over: "cp_days cp \<noteq> 0" "cp_started cp + int (cp_days cp) * 86400 \<le> sint now"
      "cp_held cp < cp_target cp"
    and c: "av_is_signer c" "acc_owner (L (av_address c)) = system_program_ID"
    and owed: "only_contributor rt U (av_address f) (av_address c) (av_address ca)"
      "0 < cp_paid cp (av_address ca)"
    and names: "cp_maker cp = av_address maker" "cp_mint cp = av_address mint"
    and vault: "token_account_at rt L v = Inr \<lparr>ta_mint = av_address mint,
        ta_owner = av_address f, ta_amount = held\<rparr>" "unat held = cp_held cp"
    and own: "token_account_at rt L cata = Inr \<lparr>ta_mint = av_address mint,
        ta_owner = av_address c, ta_amount = mine\<rparr>" "unat mine + cp_held cp < 2 ^ 64"
    and usable: "usable (L (av_address v))" "usable (L (av_address cata))" "off_curve (av_address f)"
    and lamports: "unat (lamports_of L c) + unat (lamports_of L ca) < 2 ^ 64"
  shows "\<exists>L'. fundraiser_process_instruction (at_time rt now) fundraiser_ID
      (c # maker # mint # f # ca # cata # v # tp # rest) (3 # data) L = Inr L' \<and>
    tokens_held rt (av_address c) (cp_mint cp) L' =
      tokens_held rt (av_address c) (cp_mint cp) L + cp_paid cp (av_address ca)"
proof -
  let ?rt = "at_time rt now" and ?F = "av_address f" and ?C = "av_address ca"
  note rt' = at_time_documented [OF rt] and bumps = campaign_run_bumps [OF rt run]
  obtain s where s: "fundraiser_at L ?F = Some s" and cps: "cp = campaign_view rt U ?F L s"
    using cp by (auto simp: campaign_of_def)
  obtain k where k: "record_at L ?C = Some k" and paid: "paid_at rt U ?F L ?C = unat (amount_of k)"
    and pda: "derive_address rt (contributor_seeds ?F (av_address c) (co_bump k)) fundraiser_ID = ?C"
    and U: "av_address c \<in> U"
    by (rule owed_record [OF bumps owed(1)]) (use owed(2) cps in auto)
  have maker: "maker_of s = av_address maker" and mint: "mint_to_raise_of s = av_address mint"
    using names by (simp_all add: cps)
  have pda_f: "derive_address rt (fundraiser_seeds (av_address maker) (fr_bump s)) fundraiser_ID = ?F"
    using bumps s maker by (simp add: bumps_ok_def)
  have books: "unat (amount_of k) \<le> unat (current_amount_of s)" "unat (current_amount_of s) \<le> cp_held cp"
    using campaign_run_inv [OF rt run cp] campaign_inv_paid_le [of cp ?C] paid
    by (simp_all add: cps campaign_inv_def)
  obtain L1 where tr: "token_transfer ?rt v cata f (amount_of k)
      [fundraiser_seeds (av_address maker) (fr_bump s)] L = Inr L1"
    using live(1) vault own usable pda_f books
    unfolding transfer_available_def at_time_def
    by (fastforce simp: word_le_nat_alt)
  have "has_ended s now"
    using over(1,2) by (simp add: has_ended_iff [where rt = rt and U = U and F = ?F and L = L]
        cp_ended_def cps)
  moreover have "held < amount_to_raise_of s"
    using over(3) vault(2) by (simp add: cps word_less_nat_alt)
  ultimately have "\<exists>L'. refund_with ?rt c maker mint f ca cata v L = Inr L'"
    using refund_succeeds [where rt = ?rt and L = L and now = now and cata = cata and v = v
        and tv = "\<lparr>ta_mint = av_address mint, ta_owner = ?F, ta_amount = held\<rparr>",
        OF rt' c s k maker mint]
      tr lamports pda_f pda books(1) vault(1) own(1) live(2)
    by (simp add: word_le_nat_alt validate_token_account_Inr)
  then obtain L' where L': "refund_with ?rt c maker mint f ca cata v L = Inr L'"
    by blast
  have ne: "av_address c \<noteq> ?F"
    using c(2) s fundraiser_at_owner [OF s] by (auto simp: fundraiser_ID_def system_program_ID_def)
  have "tokens_held rt (av_address c) (cp_mint cp) L' =
      tokens_held rt (av_address c) (cp_mint cp) L + cp_paid cp ?C"
    by (rule refund_campaign [OF rt' L' U]) (use cp ne names in simp)
  with L' show ?thesis
    by (auto simp: fundraiser_process_instruction_def fundraiser_instruction_try_from_def
        process_refund_def)
qed

text \<open>On the reference runtime, after the contribution of the run above, with its one contributor.\<close>

lemma honest_fewer:
  assumes "honest_accounts rt U F accounts" and "U' \<subseteq> U"
    and "\<And>v. v \<in> set accounts \<Longrightarrow> av_is_signer v \<Longrightarrow> av_address v \<in> U'"
  shows "honest_accounts rt U' F accounts"
proof -
  have "contributor_pdas rt U' A \<subseteq> contributor_pdas rt U A" for A
    using assms(2) by (auto simp: contributor_pdas_def)
  then show ?thesis
    using assms unfolding honest_accounts_def by (meson disjoint_iff subset_iff)
qed

lemma contributed_run_30: "campaign_run ref_runtime {30} the_fundraiser contributed_campaign"
proof (rule campaign_run.step)
  show "campaign_run ref_runtime {30} the_fundraiser started_campaign"
    by (rule campaign_run.start [OF initialize_call]) (simp_all add: before_fresh the_fundraiser_def)
  have "honest_accounts ref_runtime {30} the_fundraiser
     [signer 30, view 20, view the_fundraiser, view the_record, view 31, view 40, view 0, view 6]"
    by (rule honest_fewer [OF contribute_honest]) auto
  then show "fundraiser_step ref_runtime {30} the_fundraiser started_campaign contributed_campaign"
    by (rule fundraiser_step.instruction [OF contribute_call])
qed (simp add: campaign_of_def contributed_at)

lemma contributed_accounts:
  "contributed_campaign 30 = wallet\<lparr>acc_lamports := 999863\<rparr>"
  "contributed_campaign 31 = token_acc 20 30 440"
  "contributed_campaign 40 = (token_acc 20 the_fundraiser 60)\<lparr>acc_lamports := 0\<rparr>"
  "acc_lamports (contributed_campaign the_record) = 137"
  by (simp_all add: contributed_campaign_def the_fundraiser_def the_record_def)

lemma contributed_held: "tokens_held ref_runtime the_fundraiser 20 contributed_campaign = 60"
proof -
  have "holding ref_runtime the_fundraiser 20 (contributed_campaign a) = (if a = 40 then 60 else 0)" for a
    by (auto simp: holding_def token_account_of_def contributed_campaign_def started_campaign_def
        before_campaign_def the_fundraiser_def the_record_def)
      (simp_all add: ref_token_view_def mint_acc_def)
  then show ?thesis
    by (simp add: tokens_held_def)
qed

lemma contributed_paid: "paid_at ref_runtime {30} the_fundraiser contributed_campaign the_record = 60"
proof -
  have "the_record \<in> contributor_pdas ref_runtime {30} the_fundraiser"
    by (rule contributor_pdasI [where c = 30 and b = 2])
      (simp_all add: derive_contributor the_record_def the_fundraiser_def)
  then show ?thesis
    by (simp add: paid_at_def recorded_def record_at_def contributed_campaign_def the_record_def
        contributor_data.length_encode contributor_data.decode_encode)
qed

theorem refund_available_witness:
  "\<exists>L'. fundraiser_process_instruction (at_time ref_runtime 1086400) fundraiser_ID
      [signer 30, view 10, view 20, view the_fundraiser, view the_record, view 31, view 40, view 6]
      [3] contributed_campaign = Inr L' \<and>
    tokens_held ref_runtime 30 20 L' = tokens_held ref_runtime 30 20 contributed_campaign + 60"
proof -
  let ?cp = "campaign_view ref_runtime {30} the_fundraiser contributed_campaign (fund_state 60)"
  have cp: "campaign_of ref_runtime {30} the_fundraiser contributed_campaign = Some ?cp"
    by (simp add: campaign_of_def contributed_at)
  show ?thesis
    using refund_available [where cp = ?cp and rt = ref_runtime and U = "{30}" and now = 1086400 and
        L = contributed_campaign and c = "signer 30" and maker = "view 10" and mint = "view 20" and
        f = "view the_fundraiser" and ca = "view the_record" and cata = "view 31" and v = "view 40"
        and tp = "view 6" and rest = "[]" and data = "[]" and off_curve = "\<lambda>_. True" and
        usable = "\<lambda>_. True" and held = 60 and mine = 440]
      ref_runtime_ok ref_transfer_available ref_close_available contributed_run_30 cp
    by (simp add: contributed_held contributed_paid contributed_accounts only_contributor_def
        lamports_of_def token_account_at_def token_account_of_def)
qed

section \<open>What the program does not rule out\<close>

text \<open>C12: (process_check_contributions, process_initialize) A campaign started at the address of
  an earlier one inherits the records its contributors left there: nothing is raised, yet each
  such record still counts against the cap and is owed a refund, so the books of the new campaign
  do not balance.\<close>

theorem restarted_campaign_inherits_records:
  assumes "documented_runtime rt" and "token_program_ID rt \<noteq> fundraiser_ID"
    and "initialize_with rt maker mint f v sp tp data L = Inr L'"
    and "av_address maker \<noteq> av_address f"
    and "C \<in> contributor_pdas rt U (av_address f)" and "recorded L C \<noteq> 0"
  shows "\<exists>cp. campaign_of rt U (av_address f) L' = Some cp \<and> cp_raised cp = 0 \<and>
    cp_paid cp C = recorded L C \<and> \<not> campaign_inv cp"
proof (rule initialize_campaign [OF assms(1-4), of U])
  fix now
  assume cp: "campaign_of rt U (av_address f) L' =
      Some \<lparr>cp_maker = av_address maker, cp_mint = av_address mint,
        cp_target = contribution_amount data, cp_started = sint now,
        cp_days = unat (data ! 9), cp_raised = 0, cp_paid = paid_at rt U (av_address f) L,
        cp_held = tokens_held rt (av_address f) (av_address mint) L\<rparr>" (is "_ = Some ?cp")
  have paid: "cp_paid ?cp C = recorded L C"
    using assms(5) by (simp add: paid_at_def)
  then have "\<not> campaign_inv ?cp"
    using assms(6) campaign_inv_paid_le [of ?cp C] by auto
  with cp paid show ?thesis by auto
qed

definition after_payout :: ledger where
  "after_payout = before_campaign(the_record := program_acc (contributor_encode (record_state 60)))"

lemma restart_example:
  "initialize_with (at_time ref_runtime 1000000) (signer 10) (view 20) (view the_fundraiser)
     (view 40) (view 0) (view 6) (1 # to_le_bytes 8 (1000 :: u64) @ [1]) after_payout =
     Inr (started_campaign(the_record := program_acc (contributor_encode (record_state 60))))"
  by (simp add: initialize_with_def run_defs scenario_defs after_payout_def ref_create_def
      ref_ata_create_def fundraiser_LEN_def fundraiser_from_account_info_def nth_append)
    (simp add: started_campaign_def scenario_defs fun_eq_iff program_acc_def token_acc_def)

theorem restarted_campaign_inherits_records_witness:
  "\<exists>cp. campaign_of ref_runtime {30} the_fundraiser
      (started_campaign(the_record := program_acc (contributor_encode (record_state 60)))) = Some cp \<and>
     cp_raised cp = 0 \<and> cp_paid cp the_record = 60"
proof -
  have "the_record \<in> contributor_pdas ref_runtime {30} the_fundraiser"
    by (rule contributor_pdasI [where c = 30 and b = 2])
      (simp_all add: derive_contributor the_record_def the_fundraiser_def)
  moreover have "recorded after_payout the_record = 60"
    by (simp add: after_payout_def recorded_def record_at_def contributor_data.length_encode
        contributor_data.decode_encode)
  ultimately show ?thesis
    using restarted_campaign_inherits_records [OF _ _ restart_example, of the_record "{30}"]
      ref_runtime_ok
    by (auto simp: the_fundraiser_def)
qed

text \<open>C13: (process_initialize, process_contribute) A target below ten whole tokens, which
  initialize accepts from just above three, can never be funded through the program: a tenth of it
  is less than the least contribution of one whole token, so every contribution is turned down.\<close>

theorem small_target_unfundable:
  assumes "documented_runtime rt" and "token_program_ID rt \<noteq> fundraiser_ID"
    and "fundraiser_at L (av_address f) = Some s"
    and "mint_decimals_at rt L mint = Inr dec"
    and "acc_owner (L (av_address mint)) = token_program_ID rt"
    and "unat (amount_to_raise_of s) < 10 * 10 ^ unat dec"
  shows "isl (contribute_with rt c mint f ca cata v data L)"
proof (cases "contribute_with rt c mint f ca cata v data L")
  case (Inr L')
  then obtain s' L1 d and n :: u64 and k :: contributor where
    s': "fundraiser_at L (av_address f) = Some s'"
    and cr: "create_contributor_if_needed rt c f ca (data ! 0) L = Inr L1"
    and d: "mint_decimals_at rt L1 mint = Inr d" and n: "10 ^ unat d \<le> unat n"
    and lim: "unat (amount_of k) + unat n \<le> unat (amount_to_raise_of s') * 10 div 100"
    by (rule contributeE)
  have "same_state (L1 (av_address mint)) (L (av_address mint))"
  proof (cases "owned_by L ca fundraiser_ID")
    case True
    with cr show ?thesis by (simp add: create_contributor_if_needed_def)
  next
    case False
    then have "av_address mint \<noteq> av_address ca"
      using create_contributor_effect(5) [OF assms(1,2) cr] assms(5)
        token_program_not_system [OF assms(1)]
      by (auto simp: owned_by_def)
    then show ?thesis
      by (rule create_contributor_effect(1) [OF assms(1,2) cr])
  qed
  then have "mint_decimals_at rt L1 mint = mint_decimals_at rt L mint"
    by (simp add: mint_decimals_at_def same_state_def data_of_def)
  with assms s' d n lim show ?thesis by simp
qed simp

definition small_state :: fundraiser where
  "small_state = set_amount_to_raise (fund_state 0) 40"

definition small_campaign :: ledger where
  "small_campaign =
     started_campaign
       (the_fundraiser := (program_acc (fundraiser_encode small_state))\<lparr>acc_lamports := 218\<rparr>)"

lemma initialized_small [simp]:
  "(set_duration (set_time_started (set_current_amount (set_amount_to_raise
     (set_mint_to_raise (set_maker s 10) 20) 40) 0) 1000000) 1)\<lparr>fr_bump := 1\<rparr> = small_state"
  by (cases s) (simp add: small_state_def fundraiser_set_defs fund_state_def)

lemma small_target_accepted:
  "initialize_with (at_time ref_runtime 1000000) (signer 10) (view 20) (view the_fundraiser)
     (view 40) (view 0) (view 6) (1 # to_le_bytes 8 (40 :: u64) @ [1]) before_campaign =
     Inr small_campaign"
  by (simp add: initialize_with_def run_defs scenario_defs ref_create_def ref_ata_create_def
      fundraiser_LEN_def fundraiser_from_account_info_def nth_append)
    (simp add: small_campaign_def started_campaign_def scenario_defs fun_eq_iff program_acc_def
      token_acc_def)

theorem small_target_unfundable_witness:
  "initialize_with (at_time ref_runtime 1000000) (signer 10) (view 20) (view the_fundraiser)
     (view 40) (view 0) (view 6) (1 # to_le_bytes 8 (40 :: u64) @ [1]) before_campaign =
     Inr small_campaign \<and>
   (\<forall>c ca cata v data. isl (contribute_with ref_runtime c (view 20) (view the_fundraiser) ca cata
     v data small_campaign))"
proof (intro conjI allI)
  fix c ca cata v data
  have "fundraiser_at small_campaign (av_address (view the_fundraiser)) = Some small_state"
    by (simp add: fundraiser_at_def small_campaign_def small_state_def
        fundraiser_data.length_encode fundraiser_data.decode_encode)
  moreover have "mint_decimals_at ref_runtime small_campaign (view 20) = Inr 1"
    and "acc_owner (small_campaign (av_address (view 20))) = token_program_ID ref_runtime"
    by (simp_all add: mint_decimals_at_def data_of_def small_campaign_def started_campaign_def
        before_campaign_def the_fundraiser_def)
  ultimately show "isl (contribute_with ref_runtime c (view 20) (view the_fundraiser) ca cata
     v data small_campaign)"
    by (rule small_target_unfundable [OF ref_runtime_ok]) (simp add: small_state_def)
qed (rule small_target_accepted)

section \<open>Dispatch\<close>

text \<open>(process_instruction) Every instruction has exactly one meaning: a call for another
  program panics, empty data and an unknown first byte are InvalidInstructionData, and the bytes
  0 to 3 run initialize, contribute, check contributions and refund on the rest of the data.\<close>

lemma fundraiser_dispatch:
  "fundraiser_process_instruction rt pid accounts data L =
     (if pid \<noteq> fundraiser_ID then Inl Panic
      else if data = [] then Inl (Err InvalidInstructionData)
      else if hd data = 0 then process_initialize rt accounts (tl data) L
      else if hd data = 1 then process_contribute rt accounts (tl data) L
      else if hd data = 2 then process_check_contributions rt accounts (tl data) L
      else if hd data = 3 then process_refund rt accounts (tl data) L
      else Inl (Err InvalidInstructionData))"
  by (cases data)
    (simp_all add: fundraiser_process_instruction_def fundraiser_instruction_try_from_def)

section \<open>Account data\<close>

text \<open>C14: (Fundraiser::from_account_info) The struct laid over an account's data is an exact view
  of it: a well-formed fundraiser written to an account is read back unchanged, and writing back
  what was read changes nothing.\<close>

theorem fundraiser_account_roundtrip:
  "fundraiser_wf s \<Longrightarrow>
     fundraiser_from_account_info (fundraiser_store L v s) v = Inr s \<and>
     (\<forall>s'. fundraiser_from_account_info L v = Inr s' \<longrightarrow> fundraiser_store L v s' = L)"
  by (auto simp: fundraiser_from_account_info_def fundraiser_store_def fundraiser_data.length_store
      fundraiser_data.load_store fundraiser_data.store_load split: if_splits)

theorem fundraiser_account_roundtrip_witness:
  "fundraiser_from_account_info (fundraiser_store before_campaign (view 5) (fund_state 7)) (view 5) =
     Inr (fund_state 7)"
  using fundraiser_account_roundtrip [OF fund_state_wf] by blast

end
