(* ===== verification/Escrow_State.thy ===== *)
theory Escrow_State
  imports Account_Codec
begin

text \<open>
  The account struct of accel-p-escrow (\<open>src/state/escrow.rs\<close>) and its accessors, a codec
  in the sense of \<open>account_codec\<close>.
\<close>

record escrow =
  es_maker :: "u8 list"
  es_mint_a :: "u8 list"
  es_mint_b :: "u8 list"
  es_amount_to_receive :: "u8 list"
  es_amount_to_give :: "u8 list"
  es_bump :: u8

definition escrow_LEN :: nat where
  "escrow_LEN = 32 + 32 + 32 + 8 + 8 + 1"

definition escrow_wf :: "escrow \<Rightarrow> bool" where
  "escrow_wf s \<longleftrightarrow>
     length (es_maker s) = 32 \<and> length (es_mint_a s) = 32 \<and> length (es_mint_b s) = 32 \<and>
     length (es_amount_to_receive s) = 8 \<and> length (es_amount_to_give s) = 8"

definition escrow_encode :: "escrow \<Rightarrow> u8 list" where
  "escrow_encode s =
     es_maker s @ es_mint_a s @ es_mint_b s @ es_amount_to_receive s @ es_amount_to_give s @
     [es_bump s]"

definition escrow_decode :: "u8 list \<Rightarrow> escrow" where
  "escrow_decode bs =
     \<lparr>es_maker = slice 0 32 bs, es_mint_a = slice 32 32 bs, es_mint_b = slice 64 32 bs,
      es_amount_to_receive = slice 96 8 bs, es_amount_to_give = slice 104 8 bs,
      es_bump = bs ! 112\<rparr>"

definition escrow_from_account_info :: "ledger \<Rightarrow> account_view \<Rightarrow> escrow res" where
  "escrow_from_account_info L account_info =
     (if length (data_of L account_info) \<noteq> escrow_LEN then Inl (Err InvalidAccountData)
      else Inr (escrow_decode (data_of L account_info)))"

text \<open>Writing through the reference \<open>from_account_info\<close> returned.\<close>

definition escrow_store :: "ledger \<Rightarrow> account_view \<Rightarrow> escrow \<Rightarrow> ledger" where
  "escrow_store L account_info s = set_data L account_info (escrow_encode s)"

definition es_maker_of :: "escrow \<Rightarrow> address" where
  "es_maker_of s = from_le_bytes (es_maker s)"

definition es_maker_raw :: "escrow \<Rightarrow> u8 list" where
  "es_maker_raw s = es_maker s"

definition es_set_maker :: "escrow \<Rightarrow> address \<Rightarrow> escrow" where
  "es_set_maker s maker = s\<lparr>es_maker := address_bytes maker\<rparr>"

definition mint_a_of :: "escrow \<Rightarrow> address" where
  "mint_a_of s = from_le_bytes (es_mint_a s)"

definition set_mint_a :: "escrow \<Rightarrow> address \<Rightarrow> escrow" where
  "set_mint_a s mint_a = s\<lparr>es_mint_a := address_bytes mint_a\<rparr>"

definition mint_b_of :: "escrow \<Rightarrow> address" where
  "mint_b_of s = from_le_bytes (es_mint_b s)"

definition set_mint_b :: "escrow \<Rightarrow> address \<Rightarrow> escrow" where
  "set_mint_b s mint_b = s\<lparr>es_mint_b := address_bytes mint_b\<rparr>"

definition amount_to_receive_of :: "escrow \<Rightarrow> u64" where
  "amount_to_receive_of s = from_le_bytes (es_amount_to_receive s)"

definition set_amount_to_receive :: "escrow \<Rightarrow> u64 \<Rightarrow> escrow" where
  "set_amount_to_receive s amount = s\<lparr>es_amount_to_receive := to_le_bytes 8 amount\<rparr>"

definition amount_to_give_of :: "escrow \<Rightarrow> u64" where
  "amount_to_give_of s = from_le_bytes (es_amount_to_give s)"

definition set_amount_to_give :: "escrow \<Rightarrow> u64 \<Rightarrow> escrow" where
  "set_amount_to_give s amount = s\<lparr>es_amount_to_give := to_le_bytes 8 amount\<rparr>"

lemmas escrow_get_defs =
  es_maker_of_def mint_a_of_def mint_b_of_def amount_to_receive_of_def amount_to_give_of_def

lemmas escrow_set_defs =
  es_set_maker_def set_mint_a_def set_mint_b_def set_amount_to_receive_def set_amount_to_give_def

text \<open>The struct \<open>make\<close> writes, from whatever was there.\<close>

definition escrow_terms :: "address \<Rightarrow> address \<Rightarrow> address \<Rightarrow> u64 \<Rightarrow> u64 \<Rightarrow> u8 \<Rightarrow> escrow" where
  "escrow_terms maker mint_a mint_b amount_to_receive amount_to_give bump =
     \<lparr>es_maker = address_bytes maker, es_mint_a = address_bytes mint_a,
      es_mint_b = address_bytes mint_b, es_amount_to_receive = to_le_bytes 8 amount_to_receive,
      es_amount_to_give = to_le_bytes 8 amount_to_give, es_bump = bump\<rparr>"

lemma escrow_all_set [simp]:
  "(set_amount_to_give (set_amount_to_receive (set_mint_b (set_mint_a (es_set_maker s m) a) b) r)
      g)\<lparr>es_bump := k\<rparr> = escrow_terms m a b r g k"
  by (cases s) (simp add: escrow_set_defs escrow_terms_def)

lemma escrow_terms_simps [simp]:
  "es_maker_of (escrow_terms m a b r g k) = m"
  "mint_a_of (escrow_terms m a b r g k) = a"
  "mint_b_of (escrow_terms m a b r g k) = b"
  "amount_to_receive_of (escrow_terms m a b r g k) = r"
  "amount_to_give_of (escrow_terms m a b r g k) = g"
  "es_bump (escrow_terms m a b r g k) = k"
  "escrow_wf (escrow_terms m a b r g k)"
  by (simp_all add: escrow_get_defs escrow_terms_def address_bytes_def from_to_le_bytes escrow_wf_def)

interpretation escrow_data: account_codec escrow_wf escrow_encode escrow_decode escrow_LEN
proof unfold_locales
  fix s :: escrow
  assume wf: "escrow_wf s"
  then show "length (escrow_encode s) = escrow_LEN"
    by (simp add: escrow_wf_def escrow_encode_def escrow_LEN_def)
  from wf show "escrow_decode (escrow_encode s) = s"
    by (simp add: escrow_wf_def escrow_encode_def escrow_decode_def slice_simps nth_append)
next
  fix bs :: "u8 list"
  assume len: "length bs = escrow_LEN"
  then show "escrow_wf (escrow_decode bs)"
    by (simp add: escrow_wf_def escrow_decode_def escrow_LEN_def)
  from len have "[bs ! 112] = drop 112 bs"
    by (simp add: escrow_LEN_def Cons_nth_drop_Suc [symmetric])
  then show "escrow_encode (escrow_decode bs) = bs"
    using take_slice_append [of 104 8 bs] take_slice_append [of 96 8 bs]
      take_slice_append [of 64 32 bs] take_slice_append [of 32 32 bs]
      take_slice_append [of 0 32 bs]
    by (simp add: escrow_encode_def escrow_decode_def)
qed

end
