(* ===== verification/Escrow_Program.thy ===== *)
theory Escrow_Program
  imports Escrow_State
begin

text \<open>
  The instructions of accel-p-escrow (\<open>src/instructions/*.rs\<close>, \<open>src/lib.rs\<close>): a maker
  offers an amount of mint A for an amount of mint B, a taker accepts, or the maker takes the
  offer back.
\<close>

text \<open>
  \<open>declare_id!("4ibrEMW5F6hKnkW4jVedswYv6H6VtwPN6ar6dvXDN1nT")\<close>: the base-58 text read as
  32 bytes, these as a little-endian number.
\<close>

definition escrow_ID :: address where
  "escrow_ID = 0x5455a083fd8115c0d73c125e555c2cf6fb9542e40d94a2128a52858e11473b37"

definition escrow_seeds :: "address \<Rightarrow> u8 \<Rightarrow> signer_seeds" where
  "escrow_seeds maker bump =
     [byte_string ''escrow'', address_bytes maker, [bump]]"

text \<open>
  \<open>*(data.as_ptr().add(i) as *const u64)\<close>: eight bytes from offset \<open>i\<close> on, with no check
  that the data has them.
\<close>

definition read_u64_unchecked :: "u8 list \<Rightarrow> nat \<Rightarrow> u64 res" where
  "read_u64_unchecked data i =
     (if i + 8 \<le> length data then Inr (from_le_bytes (slice i 8 data)) else Inl Out_Of_Bounds_Read)"

text \<open>Both \<open>refund.rs\<close> and \<open>take.rs\<close> have these two functions, word for word.\<close>

definition verify_escrow_pda ::
    "runtime \<Rightarrow> account_view \<Rightarrow> account_view \<Rightarrow> u8 \<Rightarrow> unit res" where
  "verify_escrow_pda rt escrow_account maker bump =
     (if derive_address rt (escrow_seeds (av_address maker) bump) escrow_ID
         \<noteq> av_address escrow_account
      then Inl (Err InvalidAccountData) else Inr ())"

definition close_escrow_account ::
    "runtime \<Rightarrow> ledger \<Rightarrow> account_view \<Rightarrow> account_view \<Rightarrow> ledger res" where
  "close_escrow_account rt L escrow_account destination =
     (let lamports = lamports_of L escrow_account in
      and_then (ok_or (checked_add (lamports_of L destination) lamports) (Err ArithmeticOverflow))
        (\<lambda>new_lamports.
      account_close rt escrow_account
        (set_lamports (set_lamports L destination new_lamports) escrow_account 0)))"

section \<open>Make\<close>

definition make_with ::
    "runtime \<Rightarrow> account_view \<Rightarrow> account_view \<Rightarrow> account_view \<Rightarrow> account_view \<Rightarrow> account_view \<Rightarrow>
     account_view \<Rightarrow> account_view \<Rightarrow> account_view \<Rightarrow> u8 list \<Rightarrow> ledger \<Rightarrow> ledger res" where
  "make_with rt maker mint_a mint_b escrow_account maker_ata escrow_ata system_program
     token_program data L =
     and_then (token_account_at rt L maker_ata) (\<lambda>maker_ata_state.
     if ta_owner maker_ata_state \<noteq> av_address maker then Inl (Err IllegalOwner)
     else if ta_mint maker_ata_state \<noteq> av_address mint_a then Inl (Err InvalidAccountData)
     else if data = [] then Inl Panic
     else
       let bump = data ! 0 in
       if derive_address rt (escrow_seeds (av_address maker) bump) escrow_ID
         \<noteq> av_address escrow_account
       then Inl Panic
       else
       and_then (read_u64_unchecked data 1) (\<lambda>amount_to_receive.
       and_then (read_u64_unchecked data 9) (\<lambda>amount_to_give.
       let signer = escrow_seeds (av_address maker) bump in
       if owned_by L escrow_account escrow_ID then Inl (Err AccountAlreadyInitialized)
       else
       and_then (rent_minimum_balance rt escrow_LEN) (\<lambda>lamports.
       and_then (system_create_account rt maker escrow_account lamports (of_nat escrow_LEN)
                   escrow_ID [signer] L) (\<lambda>L1.
       and_then (escrow_from_account_info L1 escrow_account) (\<lambda>s0.
       let s1 = es_set_maker s0 (av_address maker);
           s2 = set_mint_a s1 (av_address mint_a);
           s3 = set_mint_b s2 (av_address mint_b);
           s4 = set_amount_to_receive s3 amount_to_receive;
           s5 = set_amount_to_give s4 amount_to_give;
           s6 = s5\<lparr>es_bump := bump\<rparr>;
           L2 = escrow_store L1 escrow_account s6 in
       and_then (ata_create rt maker escrow_ata escrow_account mint_a token_program
                   system_program L2) (\<lambda>L3.
       token_transfer rt maker_ata escrow_ata maker amount_to_give [] L3)))))))"

definition process_make_instruction ::
    "runtime \<Rightarrow> account_view list \<Rightarrow> u8 list \<Rightarrow> ledger \<Rightarrow> ledger res" where
  "process_make_instruction rt accounts data L =
     (case accounts of
        maker # mint_a # mint_b # escrow_account # maker_ata # escrow_ata # system_program #
          token_program # _ \<Rightarrow>
          make_with rt maker mint_a mint_b escrow_account maker_ata escrow_ata system_program
            token_program data L
      | _ \<Rightarrow> Inl (Err NotEnoughAccountKeys))"

section \<open>Refund\<close>

definition escrow_refund_with ::
    "runtime \<Rightarrow> account_view \<Rightarrow> account_view \<Rightarrow> account_view \<Rightarrow> account_view \<Rightarrow> account_view \<Rightarrow>
     ledger \<Rightarrow> ledger res" where
  "escrow_refund_with rt maker mint_a escrow_account maker_ata escrow_ata L =
     (if \<not> av_is_signer maker then Inl (Err MissingRequiredSignature)
      else if \<not> owned_by L escrow_account escrow_ID then Inl (Err IllegalOwner)
      else
        and_then (escrow_from_account_info L escrow_account) (\<lambda>escrow.
        if es_maker_of escrow \<noteq> av_address maker \<or> mint_a_of escrow \<noteq> av_address mint_a
        then Inl (Err InvalidAccountData)
        else
        and_then (verify_escrow_pda rt escrow_account maker (es_bump escrow)) (\<lambda>_.
        and_then (token_account_at rt L maker_ata) (\<lambda>maker_ata_state.
        if ta_owner maker_ata_state \<noteq> av_address maker
          \<or> ta_mint maker_ata_state \<noteq> av_address mint_a
        then Inl (Err InvalidAccountData)
        else
        and_then (token_account_at rt L escrow_ata) (\<lambda>escrow_ata_state.
        if ta_owner escrow_ata_state \<noteq> av_address escrow_account
          \<or> ta_mint escrow_ata_state \<noteq> av_address mint_a
        then Inl (Err InvalidAccountData)
        else
          let signers = [escrow_seeds (av_address maker) (es_bump escrow)] in
          and_then (token_transfer rt escrow_ata maker_ata escrow_account
                      (amount_to_give_of escrow) signers L) (\<lambda>L1.
          and_then (token_close_account rt escrow_ata maker escrow_account signers L1) (\<lambda>L2.
          close_escrow_account rt L2 escrow_account maker)))))))"

definition process_refund_instruction ::
    "runtime \<Rightarrow> account_view list \<Rightarrow> u8 list \<Rightarrow> ledger \<Rightarrow> ledger res" where
  "process_refund_instruction rt accounts data L =
     (case accounts of
        maker # mint_a # escrow_account # maker_ata # escrow_ata # token_program # _ \<Rightarrow>
          escrow_refund_with rt maker mint_a escrow_account maker_ata escrow_ata L
      | _ \<Rightarrow> Inl (Err NotEnoughAccountKeys))"

section \<open>Take\<close>

definition take_with ::
    "runtime \<Rightarrow> account_view \<Rightarrow> account_view \<Rightarrow> account_view \<Rightarrow> account_view \<Rightarrow> account_view \<Rightarrow>
     account_view \<Rightarrow> account_view \<Rightarrow> account_view \<Rightarrow> account_view \<Rightarrow> ledger \<Rightarrow> ledger res" where
  "take_with rt taker maker mint_a mint_b escrow_account taker_ata_a taker_ata_b maker_ata_b
     escrow_ata L =
     (if \<not> av_is_signer taker then Inl (Err MissingRequiredSignature)
      else if \<not> owned_by L escrow_account escrow_ID then Inl (Err IllegalOwner)
      else
        and_then (escrow_from_account_info L escrow_account) (\<lambda>escrow.
        if es_maker_of escrow \<noteq> av_address maker \<or> mint_a_of escrow \<noteq> av_address mint_a
          \<or> mint_b_of escrow \<noteq> av_address mint_b
        then Inl (Err InvalidAccountData)
        else
        and_then (verify_escrow_pda rt escrow_account maker (es_bump escrow)) (\<lambda>_.
        and_then (token_account_at rt L taker_ata_a) (\<lambda>taker_ata_a_state.
        if ta_owner taker_ata_a_state \<noteq> av_address taker
          \<or> ta_mint taker_ata_a_state \<noteq> av_address mint_a
        then Inl (Err InvalidAccountData)
        else
        and_then (token_account_at rt L taker_ata_b) (\<lambda>taker_ata_b_state.
        if ta_owner taker_ata_b_state \<noteq> av_address taker
          \<or> ta_mint taker_ata_b_state \<noteq> av_address mint_b
        then Inl (Err InvalidAccountData)
        else
        and_then (token_account_at rt L maker_ata_b) (\<lambda>maker_ata_b_state.
        if ta_owner maker_ata_b_state \<noteq> av_address maker
          \<or> ta_mint maker_ata_b_state \<noteq> av_address mint_b
        then Inl (Err InvalidAccountData)
        else
        and_then (token_account_at rt L escrow_ata) (\<lambda>escrow_ata_state.
        if ta_owner escrow_ata_state \<noteq> av_address escrow_account
          \<or> ta_mint escrow_ata_state \<noteq> av_address mint_a
        then Inl (Err InvalidAccountData)
        else
        and_then (token_transfer rt taker_ata_b maker_ata_b taker
                    (amount_to_receive_of escrow) [] L) (\<lambda>L1.
        let signers = [escrow_seeds (av_address maker) (es_bump escrow)] in
        and_then (token_transfer rt escrow_ata taker_ata_a escrow_account
                    (amount_to_give_of escrow) signers L1) (\<lambda>L2.
        and_then (token_close_account rt escrow_ata maker escrow_account signers L2) (\<lambda>L3.
        close_escrow_account rt L3 escrow_account maker))))))))))"

definition process_take_instruction ::
    "runtime \<Rightarrow> account_view list \<Rightarrow> u8 list \<Rightarrow> ledger \<Rightarrow> ledger res" where
  "process_take_instruction rt accounts data L =
     (case accounts of
        taker # maker # mint_a # mint_b # escrow_account # taker_ata_a # taker_ata_b #
          maker_ata_b # escrow_ata # token_program # _ \<Rightarrow>
          take_with rt taker maker mint_a mint_b escrow_account taker_ata_a taker_ata_b
            maker_ata_b escrow_ata L
      | _ \<Rightarrow> Inl (Err NotEnoughAccountKeys))"

section \<open>Entry point\<close>

datatype escrow_instructions = Make | Refund_Made | Take

definition escrow_instructions_try_from :: "u8 \<Rightarrow> escrow_instructions res" where
  "escrow_instructions_try_from value =
     (if value = 0 then Inr Make
      else if value = 1 then Inr Refund_Made
      else if value = 2 then Inr Take
      else Inl (Err InvalidInstructionData))"

definition escrow_process_instruction ::
    "runtime \<Rightarrow> address \<Rightarrow> account_view list \<Rightarrow> u8 list \<Rightarrow> ledger \<Rightarrow> ledger res" where
  "escrow_process_instruction rt program_id accounts instruction_data L =
     (if program_id \<noteq> escrow_ID then Inl Panic
      else
        case instruction_data of
          [] \<Rightarrow> Inl (Err InvalidInstructionData)
        | discriminator # data \<Rightarrow>
            and_then (escrow_instructions_try_from discriminator) (\<lambda>i.
            case i of
              Make \<Rightarrow> process_make_instruction rt accounts data L
            | Refund_Made \<Rightarrow> process_refund_instruction rt accounts data L
            | Take \<Rightarrow> process_take_instruction rt accounts data L))"

end
