(* ===== verification/Escrow_Effects.thy ===== *)
theory Escrow_Effects
  imports Escrow_Program
begin

text \<open>
  What the escrow's handlers check and do: one elimination rule per handler, the offer read
  off account memory, and the effect of each handler on every offer.
\<close>

section \<open>Offers in account memory\<close>

definition escrow_at :: "ledger \<Rightarrow> address \<Rightarrow> escrow option" where
  "escrow_at L E =
     (if acc_owner (L E) = escrow_ID \<and> length (acc_data (L E)) = escrow_LEN
      then Some (escrow_decode (acc_data (L E))) else None)"

lemma escrow_at_same_state: "same_state (L' E) (L E) \<Longrightarrow> escrow_at L' E = escrow_at L E"
  by (simp add: escrow_at_def same_state_def)

lemma escrow_atI:
  "escrow_from_account_info L v = Inr s \<Longrightarrow> owned_by L v escrow_ID \<Longrightarrow>
     escrow_at L (av_address v) = Some s"
  by (auto simp: escrow_from_account_info_def escrow_at_def owned_by_def data_of_def
      split: if_splits)

lemma escrow_at_owner: "escrow_at L E = Some s \<Longrightarrow> acc_owner (L E) = escrow_ID"
  by (simp add: escrow_at_def split: if_splits)

lemma escrow_at_store:
  assumes "acc_owner (L (av_address v)) = escrow_ID" and "escrow_wf s"
  shows "escrow_at (escrow_store L v s) (av_address v) = Some s"
  using assms
  by (simp add: escrow_at_def escrow_store_def set_data_def escrow_data.length_encode
      escrow_data.decode_encode)

lemma escrow_store_other [simp]: "a \<noteq> av_address v \<Longrightarrow> escrow_store L v s a = L a"
  by (simp add: escrow_store_def set_data_other)

lemma escrow_store_owner [simp]: "acc_owner (escrow_store L v s a) = acc_owner (L a)"
  by (simp add: escrow_store_def)

lemma escrow_closed [simp]: "L a = closed_account \<Longrightarrow> escrow_at L a = None"
  by (simp add: escrow_at_def closed_account_def escrow_LEN_def)

lemma escrow_ID_system [simp]:
  "escrow_ID \<noteq> system_program_ID" "system_program_ID \<noteq> escrow_ID"
  by (simp_all add: escrow_ID_def system_program_ID_def)

lemma transfer_escrow_at:
  assumes "documented_runtime rt" and "token_program_ID rt \<noteq> escrow_ID"
    and "token_transfer rt from to auth n signers L = Inr L'"
  shows "escrow_at L' a = escrow_at L a"
proof -
  have o: "acc_owner (L' a) = acc_owner (L a)"
    using assms(1,3) by (rule transfer_owner)
  have "acc_owner (L a) = escrow_ID \<Longrightarrow> L' a = L a"
    using transfer_keeps [OF assms(1,3)] assms(2) by metis
  with o show ?thesis by (auto simp: escrow_at_def)
qed

section \<open>What a successful call has checked\<close>

lemma verify_escrow_pda_Inr [res_simps]:
  "verify_escrow_pda rt e m b = Inr u \<longleftrightarrow>
     derive_address rt (escrow_seeds (av_address m) b) escrow_ID = av_address e"
  by (simp add: verify_escrow_pda_def)

lemma read_u64_unchecked_Inr [res_simps]:
  "read_u64_unchecked data i = Inr n \<longleftrightarrow>
     i + 8 \<le> length data \<and> n = from_le_bytes (slice i 8 data)"
  by (auto simp: read_u64_unchecked_def)

text \<open>The two amounts in the data of make.\<close>

definition asked_amount :: "u8 list \<Rightarrow> u64" where
  "asked_amount data = from_le_bytes (slice 1 8 data)"

definition given_amount :: "u8 list \<Rightarrow> u64" where
  "given_amount data = from_le_bytes (slice 9 8 data)"

lemma makeE:
  assumes "make_with rt maker mint_a mint_b e mata eata sp tp data L = Inr L'"
  obtains tm lam L1 s0 L3 where
    "token_account_at rt L mata = Inr tm" "ta_owner tm = av_address maker"
    "ta_mint tm = av_address mint_a" "17 \<le> length data"
    "derive_address rt (escrow_seeds (av_address maker) (data ! 0)) escrow_ID = av_address e"
    "\<not> owned_by L e escrow_ID"
    "system_create_account rt maker e lam (of_nat escrow_LEN) escrow_ID
       [escrow_seeds (av_address maker) (data ! 0)] L = Inr L1"
    "escrow_from_account_info L1 e = Inr s0"
    "ata_create rt maker eata e mint_a tp sp
       (escrow_store L1 e (escrow_terms (av_address maker) (av_address mint_a) (av_address mint_b)
          (asked_amount data) (given_amount data) (data ! 0))) = Inr L3"
    "token_transfer rt mata eata maker (given_amount data) [] L3 = Inr L'"
proof -
  from assms obtain tm lam L1 s0 L3 where *:
    "token_account_at rt L mata = Inr tm" "ta_owner tm = av_address maker"
    "ta_mint tm = av_address mint_a" "9 + 8 \<le> length data"
    "derive_address rt (escrow_seeds (av_address maker) (data ! 0)) escrow_ID = av_address e"
    "\<not> owned_by L e escrow_ID"
    "system_create_account rt maker e lam (of_nat escrow_LEN) escrow_ID
       [escrow_seeds (av_address maker) (data ! 0)] L = Inr L1"
    "escrow_from_account_info L1 e = Inr s0"
    "ata_create rt maker eata e mint_a tp sp
       (escrow_store L1 e (escrow_terms (av_address maker) (av_address mint_a) (av_address mint_b)
          (asked_amount data) (given_amount data) (data ! 0))) = Inr L3"
    "token_transfer rt mata eata maker (given_amount data) [] L3 = Inr L'"
    unfolding make_with_def res_simps Let_def not_not escrow_all_set asked_amount_def
      given_amount_def by blast
  then show ?thesis by (intro that [of tm lam L1 s0 L3]) simp_all
qed

lemma escrow_refundE:
  assumes "escrow_refund_with rt maker mint_a e mata eata L = Inr L'"
  obtains s tm te L1 L2 where
    "av_is_signer maker" "escrow_at L (av_address e) = Some s"
    "es_maker_of s = av_address maker" "mint_a_of s = av_address mint_a"
    "derive_address rt (escrow_seeds (av_address maker) (es_bump s)) escrow_ID = av_address e"
    "token_account_at rt L mata = Inr tm" "ta_owner tm = av_address maker"
    "ta_mint tm = av_address mint_a"
    "token_account_at rt L eata = Inr te" "ta_owner te = av_address e"
    "ta_mint te = av_address mint_a"
    "token_transfer rt eata mata e (amount_to_give_of s)
       [escrow_seeds (av_address maker) (es_bump s)] L = Inr L1"
    "token_close_account rt eata maker e [escrow_seeds (av_address maker) (es_bump s)] L1 = Inr L2"
    "close_escrow_account rt L2 e maker = Inr L'"
proof -
  from assms obtain s tm te L1 L2 where *:
    "av_is_signer maker" "owned_by L e escrow_ID" "escrow_from_account_info L e = Inr s"
    "es_maker_of s = av_address maker" "mint_a_of s = av_address mint_a"
    "derive_address rt (escrow_seeds (av_address maker) (es_bump s)) escrow_ID = av_address e"
    "token_account_at rt L mata = Inr tm" "ta_owner tm = av_address maker"
    "ta_mint tm = av_address mint_a"
    "token_account_at rt L eata = Inr te" "ta_owner te = av_address e"
    "ta_mint te = av_address mint_a"
    "token_transfer rt eata mata e (amount_to_give_of s)
       [escrow_seeds (av_address maker) (es_bump s)] L = Inr L1"
    "token_close_account rt eata maker e [escrow_seeds (av_address maker) (es_bump s)] L1 = Inr L2"
    "close_escrow_account rt L2 e maker = Inr L'"
    unfolding escrow_refund_with_def res_simps Let_def de_Morgan_disj not_not by blast
  then show ?thesis by (intro that [of s tm te L1 L2]) (simp_all add: escrow_atI)
qed

lemma takeE:
  assumes "take_with rt taker maker mint_a mint_b e tata tatb matb eata L = Inr L'"
  obtains s ta tb tm te L1 L2 L3 where
    "av_is_signer taker" "escrow_at L (av_address e) = Some s"
    "es_maker_of s = av_address maker" "mint_a_of s = av_address mint_a"
    "mint_b_of s = av_address mint_b"
    "derive_address rt (escrow_seeds (av_address maker) (es_bump s)) escrow_ID = av_address e"
    "token_account_at rt L tata = Inr ta" "ta_owner ta = av_address taker"
    "ta_mint ta = av_address mint_a"
    "token_account_at rt L tatb = Inr tb" "ta_owner tb = av_address taker"
    "ta_mint tb = av_address mint_b"
    "token_account_at rt L matb = Inr tm" "ta_owner tm = av_address maker"
    "ta_mint tm = av_address mint_b"
    "token_account_at rt L eata = Inr te" "ta_owner te = av_address e"
    "ta_mint te = av_address mint_a"
    "token_transfer rt tatb matb taker (amount_to_receive_of s) [] L = Inr L1"
    "token_transfer rt eata tata e (amount_to_give_of s)
       [escrow_seeds (av_address maker) (es_bump s)] L1 = Inr L2"
    "token_close_account rt eata maker e [escrow_seeds (av_address maker) (es_bump s)] L2 = Inr L3"
    "close_escrow_account rt L3 e maker = Inr L'"
proof -
  from assms obtain s ta tb tm te L1 L2 L3 where *:
    "av_is_signer taker" "owned_by L e escrow_ID" "escrow_from_account_info L e = Inr s"
    "es_maker_of s = av_address maker" "mint_a_of s = av_address mint_a"
    "mint_b_of s = av_address mint_b"
    "derive_address rt (escrow_seeds (av_address maker) (es_bump s)) escrow_ID = av_address e"
    "token_account_at rt L tata = Inr ta" "ta_owner ta = av_address taker"
    "ta_mint ta = av_address mint_a"
    "token_account_at rt L tatb = Inr tb" "ta_owner tb = av_address taker"
    "ta_mint tb = av_address mint_b"
    "token_account_at rt L matb = Inr tm" "ta_owner tm = av_address maker"
    "ta_mint tm = av_address mint_b"
    "token_account_at rt L eata = Inr te" "ta_owner te = av_address e"
    "ta_mint te = av_address mint_a"
    "token_transfer rt tatb matb taker (amount_to_receive_of s) [] L = Inr L1"
    "token_transfer rt eata tata e (amount_to_give_of s)
       [escrow_seeds (av_address maker) (es_bump s)] L1 = Inr L2"
    "token_close_account rt eata maker e [escrow_seeds (av_address maker) (es_bump s)] L2 = Inr L3"
    "close_escrow_account rt L3 e maker = Inr L'"
    unfolding take_with_def res_simps Let_def de_Morgan_disj not_not by blast
  then show ?thesis by (intro that [of s ta tb tm te L1 L2 L3]) (simp_all add: escrow_atI)
qed

section \<open>Settling\<close>

text \<open>
  Taking and refunding end alike: the vault's token account is closed, then the escrow account.
  Only what the escrow itself holds can change.
\<close>

lemma close_escrow_account_Inr:
  assumes "close_escrow_account rt L acct dest = Inr L'"
  obtains n where "unat n = unat (lamports_of L dest) + unat (lamports_of L acct)"
    and "account_close rt acct (set_lamports (set_lamports L dest n) acct 0) = Inr L'"
  using assms by (auto simp: close_escrow_account_def res_simps Let_def)

lemma settle_effect:
  assumes rt: "documented_runtime rt" "token_program_ID rt \<noteq> escrow_ID"
    and own: "acc_owner (L (av_address e)) = escrow_ID"
    and te: "token_account_at rt L eata = Inr te" "ta_owner te = av_address e"
    and tcl: "token_close_account rt eata dest auth sg L = Inr L3"
    and cl: "close_escrow_account rt L3 e dest' = Inr L'"
  shows "G \<noteq> av_address e \<Longrightarrow> tokens_held rt G m L' = tokens_held rt G m L"
    and "a \<noteq> av_address e \<Longrightarrow> escrow_at L' a = escrow_at L a"
    and "L' (av_address e) = closed_account"
    and "av_address eata \<noteq> av_address dest' \<Longrightarrow> L' (av_address eata) = closed_account"
proof -
  from cl obtain n where n: "unat n = unat (lamports_of L3 dest') + unat (lamports_of L3 e)"
    and c: "account_close rt e (set_lamports (set_lamports L3 dest' n) e 0) = Inr L'"
    by (rule close_escrow_account_Inr)
  note close = drained_close_result [OF rt(1) c n]
  have owne: "acc_owner (L (av_address eata)) = token_program_ID rt"
    using te(1) token_owner [OF rt(1)] by (simp add: token_account_at_def)
  with own rt(2) have ne: "av_address eata \<noteq> av_address e" by auto
  have own3: "acc_owner (L3 (av_address e)) = escrow_ID"
    using token_close_keeps [OF rt(1) tcl, of "av_address e"] own ne by (simp add: same_state_def)
  show "L' (av_address e) = closed_account"
    by (rule close(2))
  show "av_address eata \<noteq> av_address dest' \<Longrightarrow> L' (av_address eata) = closed_account"
    using close(4) [of "av_address eata"] ne token_close_result(1) [OF rt(1) tcl] by simp
  show "tokens_held rt G m L' = tokens_held rt G m L" if "G \<noteq> av_address e"
  proof -
    have "tokens_held rt G m L' = tokens_held rt G m L3"
      using tokens_held_drained_close [OF rt(1), where acct = "av_address e" and L = L3 and L' = L']
        close(1,2) own3 rt(2) by simp
    also have "\<dots> = tokens_held rt G m L"
      using that te(2) by (intro tokens_held_token_close [OF rt(1) tcl te(1)]) simp
    finally show ?thesis .
  qed
  show "escrow_at L' a = escrow_at L a" if "a \<noteq> av_address e"
  proof -
    have "escrow_at L' a = escrow_at L3 a"
      using close(1) that by (intro escrow_at_same_state)
    also have "\<dots> = escrow_at L a"
    proof (cases "a = av_address eata")
      case True
      then show ?thesis
        using token_close_result(1) [OF rt(1) tcl] owne rt(2) by (simp add: escrow_at_def [of L])
    qed (use token_close_keeps [OF rt(1) tcl] in \<open>simp add: escrow_at_same_state\<close>)
    finally show ?thesis .
  qed
qed

lemma token_account_at_address:
  "av_address v = av_address w \<Longrightarrow> token_account_at rt L v = token_account_at rt L w"
  by (simp add: token_account_at_def)

text \<open>
  The vault can be closed only when the transfer out of it left nothing (or it holds the native
  mint).
\<close>

lemma transfer_close_exact:
  assumes rt: "documented_runtime rt"
    and te: "token_account_at rt L eata = Inr te"
    and d: "token_account_at rt L dst = Inr td" "ta_owner td \<noteq> ta_owner te"
    and tr: "token_transfer rt eata dst auth n sg L = Inr L1"
    and tcl: "token_close_account rt eata dest auth' sg' L1 = Inr L2"
  shows "ta_amount te = n \<or> ta_mint te = native_mint_ID rt"
proof -
  have ne: "av_address eata \<noteq> av_address dst"
    using te d token_account_at_address [of eata dst rt L] by auto
  from rt tr te ne have "token_account_at rt L1 eata = Inr (te\<lparr>ta_amount := ta_amount te - n\<rparr>)"
    by (auto elim!: transfer_views)
  moreover from rt tcl obtain t where "token_account_at rt L1 eata = Inr t"
    "ta_amount t = 0 \<or> ta_mint t = native_mint_ID rt"
    by (rule token_close_views)
  ultimately show ?thesis by auto
qed

text \<open>
  What taking and refunding have in common: the vault pays out, then it and the escrow account are
  closed.
\<close>

lemma release_effect:
  assumes rt: "documented_runtime rt" "token_program_ID rt \<noteq> escrow_ID"
    and own: "acc_owner (L (av_address e)) = escrow_ID"
    and te: "token_account_at rt L eata = Inr te" "ta_owner te = av_address e"
    and td: "token_account_at rt L dst = Inr td"
    and tr: "token_transfer rt eata dst e n sg L = Inr L1"
    and tcl: "token_close_account rt eata dest e sg L1 = Inr L2"
    and cl: "close_escrow_account rt L2 e dest = Inr L'"
  shows "L' (av_address e) = closed_account"
    and "a \<noteq> av_address e \<Longrightarrow> escrow_at L' a = escrow_at L a"
    and "G \<noteq> av_address e \<Longrightarrow> tokens_held rt G m L' = tokens_held rt G m L +
      (if G = ta_owner td \<and> m = ta_mint td then unat n else 0)"
    and "ta_owner td \<noteq> av_address e \<Longrightarrow> ta_amount te = n \<or> ta_mint te = native_mint_ID rt"
proof -
  have own1: "acc_owner (L1 (av_address e)) = escrow_ID"
    using own transfer_owner [OF rt(1) tr] by simp
  obtain k where te1: "token_account_at rt L1 eata = Inr (te\<lparr>ta_amount := k\<rparr>)"
    by (rule transfer_token_account [OF rt(1) tr te(1)])
  have o1: "ta_owner (te\<lparr>ta_amount := k\<rparr>) = av_address e"
    by (simp add: te(2))
  note settle = settle_effect [OF rt own1 te1 o1 tcl cl]
  show "L' (av_address e) = closed_account"
    by (rule settle(3))
  show "escrow_at L' a = escrow_at L a" if "a \<noteq> av_address e"
    using settle(2) [OF that] transfer_escrow_at [OF rt tr] by simp
  show "tokens_held rt G m L' = tokens_held rt G m L +
      (if G = ta_owner td \<and> m = ta_mint td then unat n else 0)" if "G \<noteq> av_address e"
    using settle(1) [OF that, of m] tokens_held_transfer [OF rt(1) tr te(1) td, of G m] that te(2)
    by auto
  show "ta_amount te = n \<or> ta_mint te = native_mint_ID rt" if "ta_owner td \<noteq> av_address e"
    using that te(2) by (intro transfer_close_exact [OF rt(1) te(1) td _ tr tcl]) simp
qed

section \<open>Effects of the handlers\<close>

text \<open>
  The first half of make: the offer is stored, its vault exists and is empty, and no token has
  moved.
\<close>

lemma prepare_effect:
  assumes rt: "documented_runtime rt" "token_program_ID rt \<noteq> escrow_ID"
    and cr: "system_create_account rt maker e lam n escrow_ID sg L = Inr L1"
      "n = of_nat escrow_LEN" and wf: "escrow_wf s"
    and ata: "ata_create rt maker eata e mint_a tp sp (escrow_store L1 e s) = Inr L3"
    and tm: "token_account_at rt L mata = Inr tm"
  shows "escrow_at L3 (av_address e) = Some s"
    and "a \<noteq> av_address e \<Longrightarrow> escrow_at L3 a = escrow_at L a"
    and "token_account_at rt L3 mata = Inr tm" and "av_address mata \<noteq> av_address eata"
    and "token_account_at rt L3 eata =
      Inr \<lparr>ta_mint = av_address mint_a, ta_owner = av_address e, ta_amount = 0\<rparr>"
    and "tokens_held rt G m L3 = tokens_held rt G m L"
proof -
  let ?E = "av_address e" and ?L2 = "escrow_store L1 e s"
  note cre = create_result [OF rt(1) cr(1)] and at = ata_result [OF rt(1) ata]
  have own2: "acc_owner (?L2 ?E) = escrow_ID" by (simp add: cre)
  have ata_other: "escrow_at L3 a = escrow_at ?L2 a" for a
  proof (cases "a = av_address eata")
    case True
    have "acc_owner (L3 (av_address eata)) = token_program_ID rt"
      using at(2) token_owner [OF rt(1)] by blast
    then show ?thesis
      using True at(1) rt(2) by (simp add: escrow_at_def)
  qed (use ata_keeps [OF rt(1) ata] in \<open>simp add: escrow_at_same_state\<close>)
  have "escrow_at ?L2 ?E = Some s"
    using wf by (intro escrow_at_store) (simp_all add: cre)
  then show "escrow_at L3 ?E = Some s"
    using ata_other by simp
  show "escrow_at L3 a = escrow_at L a" if "a \<noteq> ?E"
    using that create_keeps [OF rt(1) cr(1) that] ata_other [of a] by (simp add: escrow_at_same_state)
  have ownm: "acc_owner (L (av_address mata)) = token_program_ID rt"
    using tm token_owner [OF rt(1)] by (simp add: token_account_at_def)
  then have mata: "av_address mata \<noteq> ?E"
    using cre(1) token_program_not_system [OF rt(1)] by auto
  have keep: "same_state (?L2 (av_address mata)) (L (av_address mata))"
    using create_keeps [OF rt(1) cr(1) mata] mata by simp
  with ownm show mata': "av_address mata \<noteq> av_address eata"
    using at(1) token_program_not_system [OF rt(1)] by (auto simp: same_state_def)
  have "same_state (L3 (av_address mata)) (?L2 (av_address mata))"
    using ata_keeps [OF rt(1) ata mata'] .
  with keep show "token_account_at rt L3 mata = Inr tm"
    using tm same_state_trans same_state_token by (metis token_account_at_def)
  show "token_account_at rt L3 eata =
      Inr \<lparr>ta_mint = av_address mint_a, ta_owner = ?E, ta_amount = 0\<rparr>"
    using at(2) by (simp add: token_account_at_def)
  have "tokens_held rt G m ?L2 = tokens_held rt G m L1"
    using own2 rt by (intro tokens_held_write [where a = ?E]) auto
  then show "tokens_held rt G m L3 = tokens_held rt G m L"
    using tokens_held_ata [OF rt(1) ata] tokens_held_create [OF rt(1) cr(1)] rt(2) by simp
qed

lemma make_effect:
  assumes rt: "documented_runtime rt" "token_program_ID rt \<noteq> escrow_ID"
    and call: "make_with rt maker mint_a mint_b e mata eata sp tp data L = Inr L'"
  shows "escrow_at L (av_address e) = None"
    and "escrow_at L' (av_address e) =
      Some (escrow_terms (av_address maker) (av_address mint_a) (av_address mint_b)
        (asked_amount data) (given_amount data) (data ! 0))"
    and "token_account_at rt L' eata =
      Inr \<lparr>ta_mint = av_address mint_a, ta_owner = av_address e, ta_amount = given_amount data\<rparr>"
    and "tokens_held rt G m L' + (if G = av_address maker \<and> m = av_address mint_a
        then unat (given_amount data) else 0) =
      tokens_held rt G m L + (if G = av_address e \<and> m = av_address mint_a
        then unat (given_amount data) else 0)"
    and "a \<noteq> av_address e \<Longrightarrow> escrow_at L' a = escrow_at L a"
    and "av_is_signer maker" and "av_address maker \<noteq> av_address e"
proof -
  let ?E = "av_address e"
  from call obtain tm lam L1 s0 L3 where
    tm: "token_account_at rt L mata = Inr tm" "ta_owner tm = av_address maker"
      "ta_mint tm = av_address mint_a"
    and pda: "derive_address rt (escrow_seeds (av_address maker) (data ! 0)) escrow_ID = ?E"
    and new: "\<not> owned_by L e escrow_ID"
    and cr: "system_create_account rt maker e lam (of_nat escrow_LEN) escrow_ID
       [escrow_seeds (av_address maker) (data ! 0)] L = Inr L1"
    and ata: "ata_create rt maker eata e mint_a tp sp
       (escrow_store L1 e (escrow_terms (av_address maker) (av_address mint_a) (av_address mint_b)
          (asked_amount data) (given_amount data) (data ! 0))) = Inr L3"
      (is "ata_create rt maker eata e mint_a tp sp (escrow_store L1 e ?s) = _")
    and tr: "token_transfer rt mata eata maker (given_amount data) [] L3 = Inr L'"
    by (rule makeE)
  note prep = prepare_effect [OF rt cr refl _ ata tm(1), simplified]
  show maker: "av_address maker \<noteq> ?E"
    using create_signed(2) [OF rt(1) cr] by (simp add: escrow_LEN_def)
  show "av_is_signer maker"
    using create_signed(1) [OF rt(1) cr] maker pda by simp
  show "escrow_at L ?E = None"
    using new by (simp add: escrow_at_def owned_by_def)
  show "escrow_at L' ?E = Some ?s" and "a \<noteq> ?E \<Longrightarrow> escrow_at L' a = escrow_at L a"
    using prep(1,2) transfer_escrow_at [OF rt tr] by simp_all
  show "token_account_at rt L' eata =
      Inr \<lparr>ta_mint = av_address mint_a, ta_owner = ?E, ta_amount = given_amount data\<rparr>"
    using transfer_views [OF rt(1) tr] prep(3-5) by (metis add_0 sum.inject(2)
        token_account.select_convs(3) token_account.update_convs(3))
  show "tokens_held rt G m L' + (if G = av_address maker \<and> m = av_address mint_a
        then unat (given_amount data) else 0) =
      tokens_held rt G m L + (if G = ?E \<and> m = av_address mint_a
        then unat (given_amount data) else 0)"
    using tokens_held_transfer [OF rt(1) tr prep(3,5), of G m] tm prep(6)
    by (auto split: if_splits)
qed

lemma escrow_refund_effect:
  assumes rt: "documented_runtime rt" "token_program_ID rt \<noteq> escrow_ID"
    and call: "escrow_refund_with rt maker mint_a e mata eata L = Inr L'"
  obtains s te where
    "escrow_at L (av_address e) = Some s" "L' (av_address e) = closed_account"
    "es_maker_of s = av_address maker" "mint_a_of s = av_address mint_a" "av_is_signer maker"
    "derive_address rt (escrow_seeds (av_address maker) (es_bump s)) escrow_ID = av_address e"
    "\<And>G m. G \<noteq> av_address e \<Longrightarrow> tokens_held rt G m L' = tokens_held rt G m L +
       (if G = av_address maker \<and> m = av_address mint_a then unat (amount_to_give_of s) else 0)"
    "\<And>a. a \<noteq> av_address e \<Longrightarrow> escrow_at L' a = escrow_at L a"
    "token_account_at rt L eata = Inr te"
    "av_address maker \<noteq> av_address e \<Longrightarrow>
       ta_amount te = amount_to_give_of s \<or> ta_mint te = native_mint_ID rt"
proof -
  let ?E = "av_address e"
  from call obtain s tm te L1 L2 where
    sig: "av_is_signer maker" and s: "escrow_at L ?E = Some s"
    and m: "es_maker_of s = av_address maker" "mint_a_of s = av_address mint_a"
    and pda: "derive_address rt (escrow_seeds (av_address maker) (es_bump s)) escrow_ID = ?E"
    and tm: "token_account_at rt L mata = Inr tm" "ta_owner tm = av_address maker"
      "ta_mint tm = av_address mint_a"
    and te: "token_account_at rt L eata = Inr te" "ta_owner te = ?E" "ta_mint te = av_address mint_a"
    and tr: "token_transfer rt eata mata e (amount_to_give_of s)
       [escrow_seeds (av_address maker) (es_bump s)] L = Inr L1"
    and tcl: "token_close_account rt eata maker e
       [escrow_seeds (av_address maker) (es_bump s)] L1 = Inr L2"
    and cl: "close_escrow_account rt L2 e maker = Inr L'"
    by (rule escrow_refundE)
  note release = release_effect [OF rt escrow_at_owner [OF s] te(1,2) tm(1) tr tcl cl]
  show ?thesis
    using s m sig pda te(1) release tm(2,3) by (intro that [of s te]) simp_all
qed

lemma take_effect:
  assumes rt: "documented_runtime rt" "token_program_ID rt \<noteq> escrow_ID"
    and call: "take_with rt taker maker mint_a mint_b e tata tatb matb eata L = Inr L'"
  obtains s te where
    "escrow_at L (av_address e) = Some s" "L' (av_address e) = closed_account"
    "es_maker_of s = av_address maker" "mint_a_of s = av_address mint_a"
    "mint_b_of s = av_address mint_b" "av_is_signer taker"
    "\<And>G m. G \<noteq> av_address e \<Longrightarrow>
       tokens_held rt G m L' + (if G = av_address taker \<and> m = av_address mint_b
         then unat (amount_to_receive_of s) else 0) =
       tokens_held rt G m L + (if G = av_address maker \<and> m = av_address mint_b
         then unat (amount_to_receive_of s) else 0) +
         (if G = av_address taker \<and> m = av_address mint_a
          then unat (amount_to_give_of s) else 0)"
    "\<And>a. a \<noteq> av_address e \<Longrightarrow> escrow_at L' a = escrow_at L a"
    "token_account_at rt L eata = Inr te"
    "av_address taker \<noteq> av_address e \<Longrightarrow> av_address maker \<noteq> av_address e \<Longrightarrow>
       ta_amount te = amount_to_give_of s \<or> ta_mint te = native_mint_ID rt"
proof -
  let ?E = "av_address e"
  from call obtain s ta tb tm te L1 L2 L3 where
    sig: "av_is_signer taker" and s: "escrow_at L ?E = Some s"
    and m: "es_maker_of s = av_address maker" "mint_a_of s = av_address mint_a"
      "mint_b_of s = av_address mint_b"
    and ta: "token_account_at rt L tata = Inr ta" "ta_owner ta = av_address taker"
      "ta_mint ta = av_address mint_a"
    and tb: "token_account_at rt L tatb = Inr tb" "ta_owner tb = av_address taker"
      "ta_mint tb = av_address mint_b"
    and tm: "token_account_at rt L matb = Inr tm" "ta_owner tm = av_address maker"
      "ta_mint tm = av_address mint_b"
    and te: "token_account_at rt L eata = Inr te" "ta_owner te = ?E" "ta_mint te = av_address mint_a"
    and tr1: "token_transfer rt tatb matb taker (amount_to_receive_of s) [] L = Inr L1"
    and tr2: "token_transfer rt eata tata e (amount_to_give_of s)
       [escrow_seeds (av_address maker) (es_bump s)] L1 = Inr L2"
    and tcl: "token_close_account rt eata maker e
       [escrow_seeds (av_address maker) (es_bump s)] L2 = Inr L3"
    and cl: "close_escrow_account rt L3 e maker = Inr L'"
    by (rule takeE)
  have own1: "acc_owner (L1 ?E) = escrow_ID"
    using s transfer_owner [OF rt(1) tr1] escrow_at_owner by simp
  obtain k where te1: "token_account_at rt L1 eata = Inr (te\<lparr>ta_amount := k\<rparr>)"
    by (rule transfer_token_account [OF rt(1) tr1 te(1)])
  obtain j where ta1: "token_account_at rt L1 tata = Inr (ta\<lparr>ta_amount := j\<rparr>)"
    by (rule transfer_token_account [OF rt(1) tr1 ta(1)])
  have o1: "ta_owner (te\<lparr>ta_amount := k\<rparr>) = ?E"
    by (simp add: te(2))
  note release = release_effect [OF rt own1 te1 o1 ta1 tr2 tcl cl]
  have "tokens_held rt G m L' + (if G = av_address taker \<and> m = av_address mint_b
         then unat (amount_to_receive_of s) else 0) =
       tokens_held rt G m L + (if G = av_address maker \<and> m = av_address mint_b
         then unat (amount_to_receive_of s) else 0) +
         (if G = av_address taker \<and> m = av_address mint_a
          then unat (amount_to_give_of s) else 0)" if "G \<noteq> ?E" for G m
    using release(3) [OF that, of m] that ta(2,3) tb(2,3) tm(2,3)
      tokens_held_transfer [OF rt(1) tr1 tb(1) tm(1), of G m]
    by auto
  moreover have "escrow_at L' a = escrow_at L a" if "a \<noteq> ?E" for a
    using release(2) [OF that] transfer_escrow_at [OF rt tr1] by simp
  moreover have "ta_amount te = amount_to_give_of s \<or> ta_mint te = native_mint_ID rt"
    if ne: "av_address taker \<noteq> ?E" "av_address maker \<noteq> ?E"
  proof -
    have "av_address eata \<noteq> av_address tatb" and "av_address eata \<noteq> av_address matb"
      using ne te tb tm token_account_at_address [of eata tatb rt L]
        token_account_at_address [of eata matb rt L] by auto
    then have "token_account_at rt L1 eata = Inr te"
      using transfer_other_account [OF rt(1) tr1] te(1) by (simp add: token_account_at_def)
    then show ?thesis
      using ne(1) ta(2) te1 release(4) by simp
  qed
  ultimately show ?thesis
    using s m sig te(1) release(1) by (intro that [of s te])
qed

end
