(* ===== verification/Escrow_Steps.thy ===== *)
theory Escrow_Steps
  imports Escrow_Effects
begin

text \<open>
  The abstract offer: what accel-p-escrow promises, without accounts and calls. At an escrow
  address there is no offer, or an offer with fixed terms whose tokens the escrow holds;
  every instruction, and anything other programs can do, is a step of that machine.
\<close>

section \<open>The abstract offer\<close>

record offer =
  of_maker :: address
  of_mint_a :: address
  of_mint_b :: address
  of_receive :: nat
  of_give :: nat
  of_held :: nat

definition offer_backed :: "offer \<Rightarrow> bool" where
  "offer_backed x \<longleftrightarrow> of_give x \<le> of_held x"

inductive offer_step :: "offer option \<Rightarrow> offer option \<Rightarrow> bool" where
  no_offer: "offer_step None None"
| made: "offer_backed x \<Longrightarrow> offer_step None (Some x)"
| kept: "of_held x \<le> h \<Longrightarrow> offer_step (Some x) (Some (x\<lparr>of_held := h\<rparr>))"
| settled: "offer_step (Some x) None"

inductive_cases offer_step_SomeE: "offer_step (Some x) r"

inductive_simps offer_step_simps: "offer_step None r" "offer_step (Some x) (Some y)"

definition offer_view :: "runtime \<Rightarrow> address \<Rightarrow> ledger \<Rightarrow> escrow \<Rightarrow> offer" where
  "offer_view rt E L s =
     \<lparr>of_maker = es_maker_of s, of_mint_a = mint_a_of s, of_mint_b = mint_b_of s,
      of_receive = unat (amount_to_receive_of s), of_give = unat (amount_to_give_of s),
      of_held = tokens_held rt E (mint_a_of s) L\<rparr>"

definition offer_of :: "runtime \<Rightarrow> address \<Rightarrow> ledger \<Rightarrow> offer option" where
  "offer_of rt E L = map_option (offer_view rt E L) (escrow_at L E)"

lemma offer_of_None [simp]: "offer_of rt E L = None \<longleftrightarrow> escrow_at L E = None"
  by (simp add: offer_of_def)

text \<open>An instruction or a foreign transaction that keeps the offer and takes no tokens away.\<close>

lemma offer_kept:
  assumes "escrow_at L' E = escrow_at L E"
    and "\<And>m. tokens_held rt E m L \<le> tokens_held rt E m L'"
  shows "offer_step (offer_of rt E L) (offer_of rt E L')"
proof (cases "escrow_at L E")
  case None
  with assms show ?thesis by (simp add: offer_of_def no_offer)
next
  case (Some s)
  have "offer_view rt E L' s =
      (offer_view rt E L s)\<lparr>of_held := tokens_held rt E (mint_a_of s) L'\<rparr>"
    by (simp add: offer_view_def)
  moreover have "offer_step (Some (offer_view rt E L s))
      (Some ((offer_view rt E L s)\<lparr>of_held := tokens_held rt E (mint_a_of s) L'\<rparr>))"
    using assms(2) by (intro kept) (simp add: offer_view_def)
  ultimately show ?thesis
    using Some assms(1) by (simp add: offer_of_def)
qed

section \<open>Every instruction is a step\<close>

text \<open>Whoever signs is a user; the escrow address, derived by the program, is none of them.\<close>

definition signed_by_users :: "address set \<Rightarrow> address \<Rightarrow> account_view list \<Rightarrow> bool" where
  "signed_by_users U E accounts \<longleftrightarrow>
     (\<forall>v\<in>set accounts. av_is_signer v \<longrightarrow> av_address v \<in> U) \<and> E \<notin> U"

lemma signed_by_usersD:
  "signed_by_users U E accounts \<Longrightarrow> v \<in> set accounts \<Longrightarrow> av_is_signer v \<Longrightarrow> av_address v \<noteq> E"
  by (auto simp: signed_by_users_def)

lemma escrow_process_instructionE:
  assumes "escrow_process_instruction rt escrow_ID accounts idata L = Inr L'"
  obtains
    (make) maker mint_a mint_b e mata eata sp tp rest data where "idata = 0 # data"
      "accounts = maker # mint_a # mint_b # e # mata # eata # sp # tp # rest"
      "make_with rt maker mint_a mint_b e mata eata sp tp data L = Inr L'"
  | (refund) maker mint_a e mata eata tp rest data where "idata = 1 # data"
      "accounts = maker # mint_a # e # mata # eata # tp # rest"
      "escrow_refund_with rt maker mint_a e mata eata L = Inr L'"
  | (take_offer) taker maker mint_a mint_b e tata tatb matb eata tp rest data where
      "idata = 2 # data"
      "accounts = taker # maker # mint_a # mint_b # e # tata # tatb # matb # eata # tp # rest"
      "take_with rt taker maker mint_a mint_b e tata tatb matb eata L = Inr L'"
proof -
  from assms obtain d data where idata: "idata = d # data"
    by (cases idata) (simp_all add: escrow_process_instruction_def)
  from assms obtain i where i: "escrow_instructions_try_from d = Inr i"
    and run: "(case i of
        Make \<Rightarrow> process_make_instruction rt accounts data L
      | Refund_Made \<Rightarrow> process_refund_instruction rt accounts data L
      | Take \<Rightarrow> process_take_instruction rt accounts data L) = Inr L'"
    by (auto simp: escrow_process_instruction_def idata res_simps)
  show ?thesis
  proof (cases i)
    case Make
    with i have "d = 0" by (simp add: escrow_instructions_try_from_def split: if_splits)
    with run Make idata make show ?thesis
      by (auto simp: process_make_instruction_def split: list.splits)
  next
    case Refund_Made
    with i have "d = 1" by (simp add: escrow_instructions_try_from_def split: if_splits)
    with run Refund_Made idata refund show ?thesis
      by (auto simp: process_refund_instruction_def split: list.splits)
  next
    case Take
    with i have "d = 2" by (simp add: escrow_instructions_try_from_def split: if_splits)
    with run Take idata take_offer show ?thesis
      by (auto simp: process_take_instruction_def split: list.splits)
  qed
qed

lemma make_offer_step:
  assumes rt: "documented_runtime rt" "token_program_ID rt \<noteq> escrow_ID"
    and call: "make_with rt maker mint_a mint_b e mata eata sp tp data L = Inr L'"
    and users: "signed_by_users U E accounts" "maker \<in> set accounts"
  shows "offer_step (offer_of rt E L) (offer_of rt E L')"
proof -
  note eff = make_effect [OF rt call]
  have maker: "av_address maker \<noteq> E"
    by (rule signed_by_usersD [OF users eff(6)])
  show ?thesis
  proof (cases "av_address e = E")
    case True
    let ?x = "offer_view rt E L' (escrow_terms (av_address maker) (av_address mint_a)
        (av_address mint_b) (asked_amount data) (given_amount data) (data ! 0))"
    have "offer_backed ?x"
      using eff(4) [of E "av_address mint_a"] maker True
      by (simp add: offer_backed_def offer_view_def)
    then show ?thesis
      using True eff(1,2) made by (simp add: offer_of_def)
  next
    case False
    then show ?thesis
      using eff(5) [of E] eff(4) [of E] maker by (intro offer_kept) auto
  qed
qed

text \<open>Closing the escrow account settles its offer, and must keep every other.\<close>

lemma settle_offer_step:
  assumes "escrow_at L F = Some s" and "L' F = closed_account"
    and "E \<noteq> F \<Longrightarrow> escrow_at L' E = escrow_at L E"
    and "\<And>m. E \<noteq> F \<Longrightarrow> tokens_held rt E m L \<le> tokens_held rt E m L'"
  shows "offer_step (offer_of rt E L) (offer_of rt E L')"
proof (cases "E = F")
  case True
  with assms(1,2) show ?thesis by (simp add: offer_of_def settled)
next
  case False
  with assms(3,4) show ?thesis by (intro offer_kept) auto
qed

lemma refund_offer_step:
  assumes rt: "documented_runtime rt" "token_program_ID rt \<noteq> escrow_ID"
    and call: "escrow_refund_with rt maker mint_a e mata eata L = Inr L'"
  shows "offer_step (offer_of rt E L) (offer_of rt E L')"
  using assms by (rule escrow_refund_effect) (erule settle_offer_step; simp)

lemma take_offer_step:
  assumes rt: "documented_runtime rt" "token_program_ID rt \<noteq> escrow_ID"
    and call: "take_with rt taker maker mint_a mint_b e tata tatb matb eata L = Inr L'"
    and users: "signed_by_users U E accounts" "taker \<in> set accounts"
  shows "offer_step (offer_of rt E L) (offer_of rt E L')"
proof -
  obtain s where s: "escrow_at L (av_address e) = Some s"
    and closed: "L' (av_address e) = closed_account" and sig: "av_is_signer taker"
    and held: "\<And>G m. G \<noteq> av_address e \<Longrightarrow>
       tokens_held rt G m L' + (if G = av_address taker \<and> m = av_address mint_b
         then unat (amount_to_receive_of s) else 0) =
       tokens_held rt G m L + (if G = av_address maker \<and> m = av_address mint_b
         then unat (amount_to_receive_of s) else 0) +
         (if G = av_address taker \<and> m = av_address mint_a
          then unat (amount_to_give_of s) else 0)"
    and keep: "\<And>a. a \<noteq> av_address e \<Longrightarrow> escrow_at L' a = escrow_at L a"
    by (rule take_effect [OF rt call]) (rule that)
  have "av_address taker \<noteq> E"
    by (rule signed_by_usersD [OF users sig])
  then have "tokens_held rt E m L \<le> tokens_held rt E m L'" if "E \<noteq> av_address e" for m
    using held [OF that, of m] by (simp split: if_splits)
  with keep show ?thesis by (intro settle_offer_step [where L = L and L' = L', OF s closed])
qed

lemma instruction_offer_step:
  assumes rt: "documented_runtime rt" "token_program_ID rt \<noteq> escrow_ID"
    and call: "escrow_process_instruction rt escrow_ID accounts idata L = Inr L'"
    and users: "signed_by_users U E accounts"
  shows "offer_step (offer_of rt E L) (offer_of rt E L')"
  using call
proof (cases rule: escrow_process_instructionE)
  case make
  then show ?thesis by (intro make_offer_step [OF rt make(3) users]) simp
next
  case refund
  then show ?thesis by (intro refund_offer_step [OF rt refund(3)])
next
  case take_offer
  then show ?thesis by (intro take_offer_step [OF rt take_offer(3) users]) simp
qed

section \<open>An open offer is always backed\<close>

text \<open>
  Anything another program can do: the escrow account, or its absence, stays as it is, because
  only this program writes its accounts and signs for its addresses, and the tokens the escrow
  owns do not decrease.
\<close>

definition foreign_to_escrow :: "runtime \<Rightarrow> address \<Rightarrow> ledger \<Rightarrow> ledger \<Rightarrow> bool" where
  "foreign_to_escrow rt E L L' \<longleftrightarrow>
     escrow_at L' E = escrow_at L E \<and> (\<forall>m. tokens_held rt E m L \<le> tokens_held rt E m L')"

inductive escrow_run :: "runtime \<Rightarrow> address set \<Rightarrow> address \<Rightarrow> ledger \<Rightarrow> bool"
  for rt :: runtime and U :: "address set" and E :: address where
  start: "escrow_at L E = None \<Longrightarrow> escrow_run rt U E L"
| instruction:
    "escrow_run rt U E L \<Longrightarrow>
     escrow_process_instruction rt escrow_ID accounts data L = Inr L' \<Longrightarrow>
     signed_by_users U E accounts \<Longrightarrow> escrow_run rt U E L'"
| foreign: "escrow_run rt U E L \<Longrightarrow> foreign_to_escrow rt E L L' \<Longrightarrow> escrow_run rt U E L'"

lemma offer_step_backed:
  assumes "offer_step r r'" and "\<And>x. r = Some x \<Longrightarrow> offer_backed x" and "r' = Some y"
  shows "offer_backed y"
  using assms by (cases rule: offer_step.cases) (auto simp: offer_backed_def)

lemma escrow_run_backed:
  assumes rt: "documented_runtime rt" "token_program_ID rt \<noteq> escrow_ID"
    and "escrow_run rt U E L" and "offer_of rt E L = Some x"
  shows "offer_backed x"
  using assms(3,4)
proof (induction arbitrary: x)
  case (start L)
  then show ?case by (simp add: offer_of_def)
next
  case (instruction L accounts data L')
  show ?case
    by (rule offer_step_backed [OF instruction_offer_step [OF rt instruction(2,3)]])
      (use instruction in auto)
next
  case (foreign L L')
  have "offer_step (offer_of rt E L) (offer_of rt E L')"
    using foreign(2) by (intro offer_kept) (simp_all add: foreign_to_escrow_def)
  then show ?case
    by (rule offer_step_backed) (use foreign in auto)
qed

end
