(* ===== verification/Escrow_Theorems.thy ===== *)
theory Escrow_Theorems
  imports Escrow_Steps Reference_Runtime
begin

text \<open>
  The properties of accel-p-escrow, each with a run on concrete account memory: maker 10,
  taker 50, mints 20 and 21, the maker's tokens at 31, the vault at 40.
\<close>

section \<open>A run\<close>

definition the_escrow :: address where "the_escrow = 27031"

lemma derive_escrow:
  "ref_derive (escrow_seeds m b) p = 27000 + 3 * m + ucast b"
  by (simp add: ref_derive_def escrow_seeds_def)

definition the_terms :: escrow where
  "the_terms = escrow_terms 10 20 21 70 60 1"

definition escrow_acc :: account where
  "escrow_acc =
     \<lparr>acc_lamports = 241, acc_owner = escrow_ID, acc_data = escrow_encode the_terms\<rparr>"

definition before_offer :: ledger where
  "before_offer =
     (\<lambda>_. closed_account)
       (10 := wallet, 20 := mint_acc 1, 21 := mint_acc 2, 50 := wallet,
        31 := token_acc 20 10 500, 51 := token_acc 20 50 0, 52 := token_acc 21 50 700,
        53 := token_acc 21 10 0)"

definition open_offer :: ledger where
  "open_offer =
     before_offer
       (10 := wallet\<lparr>acc_lamports := 999759\<rparr>, the_escrow := escrow_acc,
        31 := token_acc 20 10 440, 40 := (token_acc 20 the_escrow 60)\<lparr>acc_lamports := 0\<rparr>)"

definition make_data :: "u8 list" where
  "make_data = 1 # to_le_bytes 8 (70 :: u64) @ to_le_bytes 8 (60 :: u64)"

lemma escrow_acc_simps [simp]:
  "acc_owner escrow_acc = escrow_ID" "acc_lamports escrow_acc = 241"
  "acc_data escrow_acc = escrow_encode the_terms"
  by (simp_all add: escrow_acc_def)

lemma the_terms_simps [simp]:
  "es_maker_of the_terms = 10" "mint_a_of the_terms = 20" "mint_b_of the_terms = 21"
  "amount_to_receive_of the_terms = 70" "amount_to_give_of the_terms = 60"
  "es_bump the_terms = 1" "escrow_wf the_terms"
  by (simp_all add: the_terms_def)

lemma make_data_simps [simp]:
  "make_data ! 0 = 1" "make_data \<noteq> []" "length make_data = 17"
  "from_le_bytes (slice (Suc 0) 8 make_data) = (70 :: u64)"
  "from_le_bytes (slice 9 8 make_data) = (60 :: u64)"
  by (simp_all add: make_data_def slice_def from_to_le_bytes)

lemma escrow_ID_simps [simp]: "escrow_ID \<noteq> ref_token_ID" "ref_token_ID \<noteq> escrow_ID"
  by (simp_all add: escrow_ID_def ref_token_ID_def)

lemma escrow_runtime_ok: "documented_runtime ref_runtime" "token_program_ID ref_runtime \<noteq> escrow_ID"
  by (simp_all add: ref_runtime_documented)

lemmas escrow_run_defs =
  ref_call_defs derive_escrow read_u64_unchecked_def verify_escrow_pda_def
  close_escrow_account_def before_offer_def the_escrow_def checked_add_def

lemma make_example:
  "make_with ref_runtime (signer 10) (view 20) (view 21) (view the_escrow) (view 31) (view 40)
     (view 0) (view 6) make_data before_offer = Inr open_offer"
  by (simp add: make_with_def escrow_run_defs escrow_LEN_def escrow_from_account_info_def
      escrow_store_def)
    (simp add: open_offer_def escrow_run_defs fun_eq_iff escrow_acc_def the_terms_def
      token_acc_def)

lemma escrow_info_example [simp]:
  "acc_data (L (av_address v)) = escrow_encode the_terms \<Longrightarrow>
     escrow_from_account_info L v = Inr the_terms"
  by (simp add: escrow_from_account_info_def data_of_def escrow_data.length_encode
      escrow_data.decode_encode)

definition after_take :: ledger where
  "after_take =
     open_offer
       (10 := wallet, 40 := closed_account, the_escrow := closed_account,
        51 := token_acc 20 50 60, 52 := token_acc 21 50 630, 53 := token_acc 21 10 70)"

lemma take_example:
  "take_with ref_runtime (signer 50) (view 10) (view 20) (view 21) (view the_escrow) (view 51)
     (view 52) (view 53) (view 40) open_offer = Inr after_take"
  by (simp add: take_with_def open_offer_def escrow_run_defs)
    (simp add: after_take_def open_offer_def escrow_run_defs fun_eq_iff wallet_def)

lemma escrow_refund_example:
  "escrow_refund_with ref_runtime (signer 10) (view 20) (view the_escrow) (view 31) (view 40)
     open_offer = Inr before_offer"
  by (simp add: escrow_refund_with_def open_offer_def escrow_run_defs)
    (simp add: escrow_run_defs fun_eq_iff wallet_def)

lemma make_call:
  "escrow_process_instruction ref_runtime escrow_ID
     [signer 10, view 20, view 21, view the_escrow, view 31, view 40, view 0, view 6]
     (0 # make_data) before_offer = Inr open_offer"
  by (simp add: escrow_process_instruction_def escrow_instructions_try_from_def
      process_make_instruction_def make_example)

lemma users_example:
  "signed_by_users {10, 50} the_escrow
     [signer 10, view 20, view 21, view the_escrow, view 31, view 40, view 0, view 6]"
  by (simp add: signed_by_users_def) (simp add: the_escrow_def)

lemma before_offer_none: "escrow_at before_offer a = None"
  by (simp add: escrow_at_def before_offer_def)

lemma open_offer_at: "escrow_at open_offer the_escrow = Some the_terms"
  by (simp add: escrow_at_def open_offer_def the_escrow_def escrow_data.length_encode
      escrow_data.decode_encode)

lemma open_offer_run: "escrow_run ref_runtime {10, 50} the_escrow open_offer"
  by (rule escrow_run.instruction [OF escrow_run.start make_call users_example])
    (rule before_offer_none)

section \<open>Offers\<close>

text \<open>C15: (accel-p-escrow) In every sequence of instructions and foreign transactions, an open
  offer is backed: the escrow owns at least the tokens it has promised to the taker.\<close>

theorem open_offer_backed:
  assumes "documented_runtime rt" and "token_program_ID rt \<noteq> escrow_ID"
    and "escrow_run rt U E L" and "escrow_at L E = Some s"
  shows "unat (amount_to_give_of s) \<le> tokens_held rt E (mint_a_of s) L"
  using escrow_run_backed [OF assms(1-3)] assms(4)
  by (simp add: offer_of_def offer_backed_def offer_view_def)

theorem open_offer_backed_witness: "60 \<le> tokens_held ref_runtime the_escrow 20 open_offer"
  using open_offer_backed [OF escrow_runtime_ok open_offer_run open_offer_at] by simp

text \<open>C16: (accel-p-escrow) At every escrow address each accepted instruction, whatever its accounts
  and data, is one step of the abstract offer: it opens a backed offer where there was none,
  settles the one that is there, or leaves its terms untouched and its tokens in place.\<close>

theorem instruction_implements_offer_step:
  assumes "documented_runtime rt" and "token_program_ID rt \<noteq> escrow_ID"
    and "escrow_process_instruction rt escrow_ID accounts data L = Inr L'"
    and "signed_by_users U E accounts"
  shows "offer_step (offer_of rt E L) (offer_of rt E L')"
  using assms by (rule instruction_offer_step)

theorem instruction_implements_offer_step_witness:
  "offer_step (offer_of ref_runtime the_escrow before_offer)
     (offer_of ref_runtime the_escrow open_offer)"
  using instruction_implements_offer_step [OF escrow_runtime_ok make_call users_example] .

text \<open>C17: (process_make_instruction) An accepted make needs the maker's signature and at least 17
  bytes of data, opens an offer where none was with exactly the terms of the call, and moves
  exactly the amount to give from the maker to a new vault of the escrow.\<close>

theorem make_opens_offer:
  assumes "documented_runtime rt" and "token_program_ID rt \<noteq> escrow_ID"
    and "make_with rt maker mint_a mint_b e mata eata sp tp data L = Inr L'"
  shows "av_is_signer maker \<and> 17 \<le> length data \<and> escrow_at L (av_address e) = None \<and>
    escrow_at L' (av_address e) =
      Some (escrow_terms (av_address maker) (av_address mint_a) (av_address mint_b)
        (asked_amount data) (given_amount data) (data ! 0)) \<and>
    token_account_at rt L' eata =
      Inr \<lparr>ta_mint = av_address mint_a, ta_owner = av_address e, ta_amount = given_amount data\<rparr> \<and>
    tokens_held rt (av_address maker) (av_address mint_a) L' + unat (given_amount data) =
      tokens_held rt (av_address maker) (av_address mint_a) L"
proof -
  have "17 \<le> length data"
    using assms(3) by (rule makeE)
  then show ?thesis
    using make_effect(1-3,6,7) [OF assms]
      make_effect(4) [OF assms, of "av_address maker" "av_address mint_a"] by simp
qed

theorem make_opens_offer_witness:
  "escrow_at open_offer the_escrow = Some (escrow_terms 10 20 21 70 60 1) \<and>
   tokens_held ref_runtime 10 20 open_offer + 60 = tokens_held ref_runtime 10 20 before_offer"
  using make_opens_offer [OF escrow_runtime_ok make_example]
  by (simp add: asked_amount_def given_amount_def)

text \<open>C18: (process_take_instruction) An accepted take is the whole swap at the terms of the offer:
  the taker pays the maker the amount to receive and gets the amount to give, nobody else's
  tokens change (the closed escrow's own apart), and the offer is gone.\<close>

theorem take_swaps_at_terms:
  assumes "documented_runtime rt" and "token_program_ID rt \<noteq> escrow_ID"
    and "take_with rt taker maker mint_a mint_b e tata tatb matb eata L = Inr L'"
    and "G \<noteq> av_address e"
  shows "\<exists>s. escrow_at L (av_address e) = Some s \<and> es_maker_of s = av_address maker \<and>
    tokens_held rt G m L' + (if G = av_address taker \<and> m = mint_b_of s
      then unat (amount_to_receive_of s) else 0) =
    tokens_held rt G m L + (if G = av_address maker \<and> m = mint_b_of s
      then unat (amount_to_receive_of s) else 0) +
      (if G = av_address taker \<and> m = mint_a_of s then unat (amount_to_give_of s) else 0) \<and>
    L' (av_address e) = closed_account"
  by (rule take_effect [OF assms(1-3)]) (use assms(4) in auto)

theorem take_swaps_at_terms_witness:
  "tokens_held ref_runtime 50 20 after_take = tokens_held ref_runtime 50 20 open_offer + 60 \<and>
   tokens_held ref_runtime 50 21 after_take + 70 = tokens_held ref_runtime 50 21 open_offer \<and>
   tokens_held ref_runtime 10 21 after_take = tokens_held ref_runtime 10 21 open_offer + 70"
  using take_swaps_at_terms [OF escrow_runtime_ok take_example, of 50 20]
    take_swaps_at_terms [OF escrow_runtime_ok take_example, of 50 21]
    take_swaps_at_terms [OF escrow_runtime_ok take_example, of 10 21] open_offer_at
  by (auto simp: the_escrow_def)

text \<open>C19: (process_refund_instruction) Only the maker of an offer can take it back: an accepted
  refund is signed by the maker the escrow records, returns exactly the amount to give to the
  maker and removes the offer.\<close>

theorem refund_returns_to_maker:
  assumes "documented_runtime rt" and "token_program_ID rt \<noteq> escrow_ID"
    and "escrow_refund_with rt maker mint_a e mata eata L = Inr L'"
    and "av_address maker \<noteq> av_address e"
  shows "\<exists>s. escrow_at L (av_address e) = Some s \<and> av_is_signer maker \<and>
    es_maker_of s = av_address maker \<and>
    tokens_held rt (av_address maker) (mint_a_of s) L' =
      tokens_held rt (av_address maker) (mint_a_of s) L + unat (amount_to_give_of s) \<and>
    L' (av_address e) = closed_account \<and>
    (\<forall>a. a \<noteq> av_address e \<longrightarrow> escrow_at L' a = escrow_at L a)"
  by (rule escrow_refund_effect [OF assms(1-3)]) (use assms(4) in auto)

theorem refund_returns_to_maker_witness:
  "tokens_held ref_runtime 10 20 before_offer = tokens_held ref_runtime 10 20 open_offer + 60"
  using refund_returns_to_maker [OF escrow_runtime_ok escrow_refund_example] open_offer_at
  by (auto simp: the_escrow_def)

section \<open>What the program does not rule out\<close>

text \<open>C20: (process_take_instruction, process_refund_instruction) An offer can be blocked by anyone: a
  vault whose balance is not exactly the amount to give, one token sent to it is enough, can be
  neither taken nor refunded, because only that amount is moved out and the token program closes
  empty accounts only (the native mint excepted).\<close>

theorem dust_blocks_settlement:
  assumes "documented_runtime rt" and "token_program_ID rt \<noteq> escrow_ID"
    and "escrow_at L (av_address e) = Some s" and "token_account_at rt L eata = Inr vault"
    and "ta_amount vault \<noteq> amount_to_give_of s" and "ta_mint vault \<noteq> native_mint_ID rt"
    and "av_address maker \<noteq> av_address e" and "av_address taker \<noteq> av_address e"
  shows "isl (take_with rt taker maker mint_a mint_b e tata tatb matb eata L) \<and>
    isl (escrow_refund_with rt maker mint_a e mata eata L)"
proof (rule conjI)
  show "isl (take_with rt taker maker mint_a mint_b e tata tatb matb eata L)"
  proof (cases "take_with rt taker maker mint_a mint_b e tata tatb matb eata L")
    case (Inr L')
    show ?thesis
      by (rule take_effect [OF assms(1,2) Inr]) (use assms(3-8) in auto)
  qed simp
  show "isl (escrow_refund_with rt maker mint_a e mata eata L)"
  proof (cases "escrow_refund_with rt maker mint_a e mata eata L")
    case (Inr L')
    show ?thesis
      by (rule escrow_refund_effect [OF assms(1,2) Inr]) (use assms(3-8) in auto)
  qed simp
qed

theorem dust_blocks_settlement_witness:
  "isl (take_with ref_runtime (signer 50) (view 10) (view 20) (view 21) (view the_escrow) (view 51)
     (view 52) (view 53) (view 40) (open_offer(40 := token_acc 20 the_escrow 61))) \<and>
   isl (escrow_refund_with ref_runtime (signer 10) (view 20) (view the_escrow) (view 31) (view 40)
     (open_offer(40 := token_acc 20 the_escrow 61)))"
proof -
  let ?L = "open_offer(40 := token_acc 20 the_escrow 61)"
  have "escrow_at ?L (av_address (view the_escrow)) = Some the_terms"
    by (simp add: escrow_at_def open_offer_def the_escrow_def escrow_data.length_encode
        escrow_data.decode_encode)
  moreover have "token_account_at ref_runtime ?L (view 40) =
      Inr \<lparr>ta_mint = 20, ta_owner = the_escrow, ta_amount = 61\<rparr>"
    by (simp add: token_account_at_def token_account_of_def)
  ultimately show ?thesis
    using dust_blocks_settlement [OF escrow_runtime_ok, where L = ?L and eata = "view 40" and
        e = "view the_escrow" and maker = "view 10" and taker = "signer 50"]
      dust_blocks_settlement [OF escrow_runtime_ok, where L = ?L and eata = "view 40" and
        e = "view the_escrow" and maker = "signer 10" and taker = "signer 50"]
    by (simp add: ref_native_mint_def) (simp add: the_escrow_def)
qed

text \<open>C21: (process_make_instruction) With valid accounts the data of make is read through raw
  pointers before its length is known: no data panics, 1 to 16 bytes are read past their end.\<close>

theorem make_short_data:
  assumes "token_account_at rt L mata = Inr t" and "ta_owner t = av_address maker"
    and "ta_mint t = av_address mint_a" and "length data < 17"
    and "data \<noteq> [] \<Longrightarrow>
      derive_address rt (escrow_seeds (av_address maker) (data ! 0)) escrow_ID = av_address e"
  shows "make_with rt maker mint_a mint_b e mata eata sp tp data L =
    Inl (if data = [] then Panic else Out_Of_Bounds_Read)"
  using assms by (simp add: make_with_def read_u64_unchecked_def Let_def)

theorem make_short_data_witness:
  "make_with ref_runtime (signer 10) (view 20) (view 21) (view the_escrow) (view 31) (view 40)
     (view 0) (view 6) [1] before_offer = Inl Out_Of_Bounds_Read"
proof -
  have "token_account_at ref_runtime before_offer (view 31) =
      Inr \<lparr>ta_mint = 20, ta_owner = 10, ta_amount = 500\<rparr>"
    by (simp add: token_account_at_def token_account_of_def before_offer_def)
  then show ?thesis
    using make_short_data [of ref_runtime before_offer "view 31" _ "signer 10" "view 20" "[1]"
        "view the_escrow"]
    by (simp add: derive_escrow the_escrow_def)
qed

section \<open>Dispatch\<close>

text \<open>(process_instruction) Every instruction has exactly one meaning: a call for another
  program panics, empty data and an unknown first byte are InvalidInstructionData, and the bytes
  0 to 2 run make, refund and take on the rest of the data; there is no instruction 3.\<close>

lemma escrow_dispatch:
  "escrow_process_instruction rt pid accounts data L =
     (if pid \<noteq> escrow_ID then Inl Panic
      else if data = [] then Inl (Err InvalidInstructionData)
      else if hd data = 0 then process_make_instruction rt accounts (tl data) L
      else if hd data = 1 then process_refund_instruction rt accounts (tl data) L
      else if hd data = 2 then process_take_instruction rt accounts (tl data) L
      else Inl (Err InvalidInstructionData))"
  by (cases data)
    (simp_all add: escrow_process_instruction_def escrow_instructions_try_from_def)

end
