(* ===== verification/Todo_Queue.thy ===== *)
theory Todo_Queue
  imports Prelude
begin

text \<open>
  The generic FIFO queue of persistent-todo (\<open>src/queue.rs\<close>), and the contract its client
  relies on: \<open>fifo_queue\<close> relates every operation to the sequence of waiting elements.
\<close>

section \<open>The contract\<close>

locale fifo_queue =
  fixes empty :: 'q
    and enq :: "'q \<Rightarrow> 'a \<Rightarrow> 'q"
    and deq :: "'q \<Rightarrow> 'a option \<times> 'q"
    and front :: "'q \<Rightarrow> 'a option"
    and size_of :: "'q \<Rightarrow> nat"
    and none_left :: "'q \<Rightarrow> bool"
    and waiting :: "'q \<Rightarrow> 'a list"
  assumes waiting_empty: "waiting empty = []"
    and waiting_enq: "waiting (enq q x) = waiting q @ [x]"
    and deq_front: "fst (deq q) = (case waiting q of [] \<Rightarrow> None | x # xs \<Rightarrow> Some x)"
    and waiting_deq: "waiting (snd (deq q)) = tl (waiting q)"
    and front_waiting: "front q = (case waiting q of [] \<Rightarrow> None | x # xs \<Rightarrow> Some x)"
    and size_waiting: "size_of q = length (waiting q)"
    and none_left_waiting: "none_left q \<longleftrightarrow> waiting q = []"
begin

lemma waiting_fold: "waiting (fold (\<lambda>x q. enq q x) xs q) = waiting q @ xs"
  by (induction xs arbitrary: q) (simp_all add: waiting_enq)

lemma waiting_of_list: "waiting (fold (\<lambda>x q. enq q x) xs empty) = xs"
  by (simp add: waiting_fold waiting_empty)

lemma deq_None: "fst (deq q) = None \<longleftrightarrow> waiting q = []"
  by (simp add: deq_front split: list.split)

lemma deq_Some: "deq q = (Some x, q') \<Longrightarrow> waiting q = x # waiting q'"
  using deq_front [of q] waiting_deq [of q] by (auto split: list.splits)

lemma front_deq: "front q = fst (deq q)"
  by (simp add: front_waiting deq_front)

lemma size_empty: "size_of q = 0 \<longleftrightarrow> none_left q"
  by (simp add: size_waiting none_left_waiting)

text \<open>Taking \<open>n\<close> times, the elements come out in the order they were put in.\<close>

fun drain :: "nat \<Rightarrow> 'q \<Rightarrow> 'a list \<times> 'q" where
  "drain 0 q = ([], q)"
| "drain (Suc n) q =
     (case deq q of
        (None, q') \<Rightarrow> ([], q')
      | (Some x, q') \<Rightarrow> (case drain n q' of (xs, q'') \<Rightarrow> (x # xs, q'')))"

lemma drain_take:
  "fst (drain n q) = take n (waiting q) \<and> waiting (snd (drain n q)) = drop n (waiting q)"
proof (induction n arbitrary: q)
  case (Suc n)
  obtain r q' where d: "deq q = (r, q')" by fastforce
  have "r = (case waiting q of [] \<Rightarrow> None | x # xs \<Rightarrow> Some x)" and "waiting q' = tl (waiting q)"
    using deq_front [of q] waiting_deq [of q] d by simp_all
  with d Suc [of q'] show ?case
    by (cases "waiting q") (auto split: prod.split)
qed simp

end

section \<open>Queue\<close>

record 'a queue =
  items :: "'a list"

definition queue_new :: "'a queue" where
  "queue_new = \<lparr>items = []\<rparr>"

definition enqueue :: "'a queue \<Rightarrow> 'a \<Rightarrow> 'a queue" where
  "enqueue q value = q\<lparr>items := items q @ [value]\<rparr>"

definition dequeue :: "'a queue \<Rightarrow> 'a option \<times> 'a queue" where
  "dequeue q = (case items q of [] \<Rightarrow> (None, q) | x # xs \<Rightarrow> (Some x, q\<lparr>items := xs\<rparr>))"

definition peek :: "'a queue \<Rightarrow> 'a option" where
  "peek q = (case items q of [] \<Rightarrow> None | x # xs \<Rightarrow> Some x)"

definition queue_len :: "'a queue \<Rightarrow> nat" where
  "queue_len q = length (items q)"

definition queue_is_empty :: "'a queue \<Rightarrow> bool" where
  "queue_is_empty q \<longleftrightarrow> items q = []"

definition queue_iter :: "'a queue \<Rightarrow> 'a list" where
  "queue_iter q = items q"

definition queue_default :: "'a queue" where
  "queue_default = queue_new"

interpretation fifo: fifo_queue
  "queue_new :: 'a queue" enqueue dequeue peek queue_len queue_is_empty queue_iter
  by unfold_locales
    (simp_all add: queue_new_def enqueue_def dequeue_def peek_def queue_len_def
      queue_is_empty_def queue_iter_def split: list.split)

end
