(* ===== verification/Todo_Store.thy ===== *)
theory Todo_Store
  imports Todo_Queue
begin

text \<open>
  The persistent todo list (\<open>src/main.rs\<close>): the store file, its atomic replacement, and the
  three commands. The borsh codec, the clock and the failures of the file system are the record
  \<open>host\<close>; the files themselves are a map from paths to contents.
\<close>

section \<open>Data\<close>

record todo =
  todo_id :: u64
  description :: string
  created_at :: u64

record store_file =
  next_id :: u64
  todos :: "todo list"

datatype command = Add string | List | Done

text \<open>What the program prints, one message per line.\<close>

datatype message =
    Added u64 string
  | No_Tasks
  | Task nat u64 string
  | Completed u64 string
  | Nothing_To_Complete

datatype todo_error =
    Failed_To_Decode
  | Failed_To_Read
  | Encode_Failed
  | Failed_To_Write
  | Failed_To_Rename
  | Overflow_Panic

text \<open>A path is its directories and its file name.\<close>

record path =
  directory :: string
  file_name :: string

type_synonym files = "path \<Rightarrow> u8 list option"

record host =
  try_from_slice :: "u8 list \<Rightarrow> store_file option"
  to_vec :: "store_file \<Rightarrow> u8 list option"
  duration_since_epoch :: "u64 option"
  read_fails :: "path \<Rightarrow> bool"
  write_fails :: "path \<Rightarrow> bool"
  left_behind :: "path \<Rightarrow> u8 list option \<Rightarrow> u8 list option"
  rename_fails :: "path \<Rightarrow> bool"
  overflow_checks :: bool

text \<open>What borsh promises: what it encodes it decodes to the same value.\<close>

definition borsh_law :: "host \<Rightarrow> bool" where
  "borsh_law h \<longleftrightarrow> (\<forall>s bs. to_vec h s = Some bs \<longrightarrow> try_from_slice h bs = Some s)"

text \<open>A clock that stands before 1970 counts as 0.\<close>

definition now_unix :: "host \<Rightarrow> u64" where
  "now_unix h = (case duration_since_epoch h of Some secs \<Rightarrow> secs | None \<Rightarrow> 0)"

section \<open>Paths\<close>

text \<open>
  \<open>Path::with_extension\<close>: the part of the file name from its last dot on is replaced, unless
  that dot is the first character or there is none.
\<close>

definition file_stem :: "string \<Rightarrow> string" where
  "file_stem name =
     (let rest = dropWhile (\<lambda>c. c \<noteq> CHR ''.'') (rev name) in
      if length rest \<le> 1 then name else rev (tl rest))"

definition with_extension :: "path \<Rightarrow> string \<Rightarrow> path" where
  "with_extension p ext = p\<lparr>file_name := file_stem (file_name p) @ ''.'' @ ext\<rparr>"

definition default_path :: path where
  "default_path = \<lparr>directory = '''', file_name = ''todos.bin''\<rparr>"

section \<open>Loading and saving\<close>

definition load :: "host \<Rightarrow> path \<Rightarrow> files \<Rightarrow> todo_error + todo queue \<times> u64" where
  "load h p fs =
     (if read_fails h p then Inl Failed_To_Read
      else
        case fs p of
          None \<Rightarrow> Inr (queue_new, 0)
        | Some bytes \<Rightarrow>
            and_then (ok_or (try_from_slice h bytes) Failed_To_Decode) (\<lambda>store.
            Inr (fold (\<lambda>t q. enqueue q t) (todos store) queue_new, next_id store)))"

text \<open>
  The two system calls of \<open>save\<close>. What they did to the files stays done when a later step
  fails, so every step gives its result and the files after it; a write that fails may have
  truncated the file or written part of it (\<open>left_behind\<close>, given the old contents).
\<close>

definition write_file :: "host \<Rightarrow> path \<Rightarrow> u8 list \<Rightarrow> files \<Rightarrow> (todo_error + unit) \<times> files" where
  "write_file h p bytes fs =
     (if write_fails h p then (Inl Failed_To_Write, fs(p := left_behind h p (fs p)))
      else (Inr (), fs(p := Some bytes)))"

definition rename_file :: "host \<Rightarrow> path \<Rightarrow> path \<Rightarrow> files \<Rightarrow> (todo_error + unit) \<times> files" where
  "rename_file h src dst fs =
     (if rename_fails h dst then (Inl Failed_To_Rename, fs)
      else case fs src of
        None \<Rightarrow> (Inl Failed_To_Rename, fs)
      | Some bytes \<Rightarrow> (Inr (), fs(src := None, dst := Some bytes)))"

definition tmp_path :: "path \<Rightarrow> path" where
  "tmp_path p = with_extension p ''bin.tmp''"

definition save :: "host \<Rightarrow> path \<Rightarrow> todo queue \<Rightarrow> u64 \<Rightarrow> files \<Rightarrow> (todo_error + unit) \<times> files" where
  "save h p q next fs =
     (case to_vec h \<lparr>next_id = next, todos = queue_iter q\<rparr> of
        None \<Rightarrow> (Inl Encode_Failed, fs)
      | Some bytes \<Rightarrow>
          (case write_file h (tmp_path p) bytes fs of
             (Inl e, fs1) \<Rightarrow> (Inl e, fs1)
           | (Inr _, fs1) \<Rightarrow> rename_file h (tmp_path p) p fs1))"

section \<open>Commands\<close>

text \<open>\<open>next_id += 1\<close>: panics on overflow where overflow checks are on, wraps where not.\<close>

definition bump_id :: "host \<Rightarrow> u64 \<Rightarrow> todo_error + u64" where
  "bump_id h n = (if overflow_checks h \<and> n = - 1 then Inl Overflow_Panic else Inr (n + 1))"

definition list_messages :: "todo queue \<Rightarrow> message list" where
  "list_messages q =
     (if queue_is_empty q then [No_Tasks]
      else map (\<lambda>(i, t). Task (i + 1) (todo_id t) (description t))
        (enumerate 0 (queue_iter q)))"

text \<open>What a command prints, its result, and the files it leaves.\<close>

definition run_command ::
    "host \<Rightarrow> path \<Rightarrow> command \<Rightarrow> files \<Rightarrow> message list \<times> (todo_error + unit) \<times> files" where
  "run_command h p c fs =
     (case load h p fs of
        Inl e \<Rightarrow> ([], Inl e, fs)
      | Inr (q, next) \<Rightarrow>
          (case c of
             Add text \<Rightarrow>
               let t = \<lparr>todo_id = next, description = text, created_at = now_unix h\<rparr> in
               (case bump_id h next of
                  Inl e \<Rightarrow> ([], Inl e, fs)
                | Inr next' \<Rightarrow>
                    ([Added (todo_id t) (description t)], save h p (enqueue q t) next' fs))
           | List \<Rightarrow> (list_messages q, Inr (), fs)
           | Done \<Rightarrow>
               (case dequeue q of
                  (Some t, q') \<Rightarrow>
                    ([Completed (todo_id t) (description t)], save h p q' next fs)
                | (None, q') \<Rightarrow> ([Nothing_To_Complete], Inr (), fs))))"

definition todo_main ::
    "host \<Rightarrow> path option \<Rightarrow> command \<Rightarrow> files \<Rightarrow> message list \<times> (todo_error + unit) \<times> files" where
  "todo_main h file c fs =
     run_command h (case file of None \<Rightarrow> default_path | Some p \<Rightarrow> p) c fs"

end
