(* ===== verification/Anchor.thy ===== *)
theory Anchor
  imports Solana
begin

text \<open>
  What the programs written with Anchor share: the accounts an instruction is given, the errors of
  the framework, and the checks that \<open>#[derive(Accounts)]\<close> generates. A program's own errors
  are the parameter \<open>'e\<close>. The parts of the runtime and of the libraries that every program
  relies on are the record \<open>anchor_env\<close>, which each program extends with the calls it makes.
\<close>

section \<open>Errors and accounts\<close>

datatype 'e anchor_error =
    Program_Error 'e
  | InstructionDidNotDeserialize
  | AccountNotEnoughKeys
  | AccountNotSigner
  | AccountNotInitialized
  | AccountOwnedByWrongProgram
  | AccountDiscriminatorNotFound
  | AccountDiscriminatorMismatch
  | AccountDidNotDeserialize
  | AccountDidNotSerialize
  | InvalidProgramId
  | InvalidProgramExecutable
  | ConstraintMut
  | ConstraintHasOne
  | ConstraintRaw
  | ConstraintAddress
  | ConstraintSeeds
  | ConstraintTokenMint
  | ConstraintTokenOwner
  | ConstraintAssociated
  | ConstraintAssociatedTokenTokenProgram
  | ConstraintMintTokenProgram
  | ConstraintClose
  | AccountNotSystemOwned
  | Called_Program_Error nat
  | Panicked
  | ExternalAccountDataModified

record account_info =
  ai_key :: address
  ai_is_signer :: bool
  ai_is_writable :: bool

record anchor_env =
  create_program_address :: "u8 list list \<Rightarrow> address \<Rightarrow> address option"
  find_program_address :: "u8 list list \<Rightarrow> address \<Rightarrow> address \<times> u8"
  is_executable :: "address \<Rightarrow> bool"
  is_token_program :: "address \<Rightarrow> bool"
  associated_token_ID :: address

section \<open>Generated checks\<close>

text \<open>\<open>require!\<close>, and every generated check.\<close>

definition require :: "bool \<Rightarrow> 'e \<Rightarrow> 'e + unit" where
  "require c e = (if c then Inr () else Inl e)"

definition signed :: "account_info \<Rightarrow> 'e anchor_error + unit" where
  "signed a = require (ai_is_signer a) AccountNotSigner"

definition writable :: "account_info \<Rightarrow> 'e anchor_error + unit" where
  "writable a = require (ai_is_writable a) ConstraintMut"

text \<open>\<open>Program\<close> and \<open>Interface\<close>: the account is one of the expected programs.\<close>

definition program ::
  "('h anchor_env_scheme) \<Rightarrow> (address \<Rightarrow> bool) \<Rightarrow> account_info \<Rightarrow> 'e anchor_error + unit" where
  "program h expected a =
     and_then (require (expected (ai_key a)) InvalidProgramId) (\<lambda>_.
     require (is_executable h (ai_key a)) InvalidProgramExecutable)"

text \<open>\<open>seeds = [...], bump = b\<close> and \<open>seeds = [...], bump\<close>, for the program \<open>p\<close>.\<close>

definition seeds_with_bump ::
  "('h anchor_env_scheme) \<Rightarrow> address \<Rightarrow> u8 list list \<Rightarrow> u8 \<Rightarrow> account_info \<Rightarrow> 'e anchor_error + unit"
  where
  "seeds_with_bump h p seeds b a =
     and_then (ok_or (create_program_address h (seeds @ [[b]]) p) ConstraintSeeds) (\<lambda>pda.
     require (ai_key a = pda) ConstraintSeeds)"

definition seeds_canonical ::
  "('h anchor_env_scheme) \<Rightarrow> address \<Rightarrow> u8 list list \<Rightarrow> account_info \<Rightarrow> 'e anchor_error + u8" where
  "seeds_canonical h p seeds a =
     (let (pda, b) = find_program_address h seeds p in
      and_then (require (ai_key a = pda) ConstraintSeeds) (\<lambda>_. Inr b))"

lemma seeds_canonical_Inr [res_simps]:
  "seeds_canonical h p seeds a = Inr b \<longleftrightarrow> find_program_address h seeds p = (ai_key a, b)"
  by (auto simp: seeds_canonical_def require_def res_simps split: prod.splits)

lemma check_Inr [res_simps]:
  "require c e = Inr u \<longleftrightarrow> c"
  "signed a = Inr u \<longleftrightarrow> ai_is_signer a"
  "writable a = Inr u \<longleftrightarrow> ai_is_writable a"
  "program h expected a = Inr u \<longleftrightarrow> expected (ai_key a) \<and> is_executable h (ai_key a)"
  "seeds_with_bump h p seeds b a = Inr u \<longleftrightarrow>
     create_program_address h (seeds @ [[b]]) p = Some (ai_key a)"
  by (auto simp: require_def signed_def writable_def program_def seeds_with_bump_def res_simps
      and_then_Inr_iff)

section \<open>What the documentation promises\<close>

text \<open>\<open>find_program_address\<close> gives a bump for which \<open>create_program_address\<close> gives the address.\<close>

definition address_law :: "('h anchor_env_scheme) \<Rightarrow> bool" where
  "address_law h \<longleftrightarrow>
     (\<forall>p seeds a b. find_program_address h seeds p = (a, b) \<longrightarrow>
        create_program_address h (seeds @ [[b]]) p = Some a)"

text \<open>
  Only the program \<open>p\<close> changes an account it owns; an account it comes to own through
  another program has zeroed data.
\<close>

definition foreign_change :: "address \<Rightarrow> ledger \<Rightarrow> ledger \<Rightarrow> bool" where
  "foreign_change p L L' \<longleftrightarrow>
     (\<forall>a. if acc_owner (L a) = p then same_state (L' a) (L a)
          else acc_owner (L' a) = p \<longrightarrow> (\<exists>n. acc_data (L' a) = replicate n 0))"

lemma foreign_change_same:
  "foreign_change p L L' \<Longrightarrow> acc_owner (L a) = p \<Longrightarrow> same_state (L' a) (L a)"
  unfolding foreign_change_def by (metis (full_types))

end
