(* ===== verification/Anchor_Account.thy ===== *)
theory Anchor_Account
  imports Anchor
begin

text \<open>
  The accounts a program keeps its own data in: \<open>Account<'info, T>\<close> loads the data behind the
  discriminator of the type, and at the end of an instruction that declares the account \<open>mut\<close>
  writes it back over the front of the account's data, leaving what lies behind. The locale
  \<open>anchor_account\<close> is the contract of a type's encoding, and proves once that what was
  written back is what the next instruction loads.
\<close>

section \<open>Loading and writing back\<close>

definition account_load ::
  "address \<Rightarrow> u8 list \<Rightarrow> (u8 list \<Rightarrow> 'v option) \<Rightarrow> ledger \<Rightarrow> address \<Rightarrow> 'e anchor_error + 'v" where
  "account_load p disc deserialize L k =
     (let a = L k; n = length disc in
      if acc_owner a = system_program_ID \<and> acc_lamports a = 0 then Inl AccountNotInitialized
      else if acc_owner a \<noteq> p then Inl AccountOwnedByWrongProgram
      else if length (acc_data a) < n then Inl AccountDiscriminatorNotFound
      else if take n (acc_data a) \<noteq> disc then Inl AccountDiscriminatorMismatch
      else ok_or (deserialize (drop n (acc_data a))) AccountDidNotDeserialize)"

text \<open>The encoding overwrites the front of the data; it fails when the data is too short.\<close>

definition write_over :: "u8 list \<Rightarrow> u8 list \<Rightarrow> u8 list option" where
  "write_over enc data =
     (if length enc \<le> length data then Some (enc @ drop (length enc) data) else None)"

text \<open>
  A closed account is skipped. An account that meanwhile belongs to another program may be
  written only what it holds already: the runtime refuses the transaction otherwise.
\<close>

definition account_exit ::
  "address \<Rightarrow> u8 list \<Rightarrow> ('v \<Rightarrow> u8 list) \<Rightarrow> address \<Rightarrow> 'v \<Rightarrow> ledger \<Rightarrow> 'e anchor_error + ledger"
  where
  "account_exit p disc serialize k v L =
     (if acc_owner (L k) = system_program_ID \<and> acc_data (L k) = [] then Inr L
      else
        and_then
          (ok_or (write_over (disc @ serialize v) (acc_data (L k))) AccountDidNotSerialize) (\<lambda>bs.
        if acc_owner (L k) \<noteq> p \<and> bs \<noteq> acc_data (L k) then Inl ExternalAccountDataModified
        else Inr (L(k := (L k)\<lparr>acc_data := bs\<rparr>))))"

text \<open>\<open>close = destination\<close>: the lamports go to the destination, the account back to the system.\<close>

definition anchor_close :: "address \<Rightarrow> address \<Rightarrow> ledger \<Rightarrow> 'e anchor_error + ledger" where
  "anchor_close k dest L =
     and_then
       (ok_or (checked_add (acc_lamports (L dest)) (acc_lamports (L k))) Panicked) (\<lambda>n.
     let L = L(dest := (L dest)\<lparr>acc_lamports := n\<rparr>) in
     Inr (L(k := (L k)\<lparr>acc_lamports := 0, acc_owner := system_program_ID, acc_data := []\<rparr>)))"

text \<open>The accounts of a program that carry a discriminator.\<close>

definition carriers :: "address \<Rightarrow> u8 list \<Rightarrow> ledger \<Rightarrow> address set" where
  "carriers p disc L =
     {a. acc_owner (L a) = p \<and> take (length disc) (acc_data (L a)) = disc}"

text \<open>Account \<open>k\<close> holds the value \<open>v\<close> and has room for \<open>space\<close> bytes of encoding.\<close>

definition account_holds ::
  "address \<Rightarrow> u8 list \<Rightarrow> ('v \<Rightarrow> u8 list) \<Rightarrow> nat \<Rightarrow> address \<Rightarrow> 'v \<Rightarrow> ledger \<Rightarrow> bool" where
  "account_holds p disc serialize space k v L \<longleftrightarrow>
     acc_owner (L k) = p \<and> length (acc_data (L k)) = length disc + space \<and>
     (\<exists>rest. acc_data (L k) = disc @ serialize v @ rest)"

lemma account_load_carrier:
  "p \<noteq> system_program_ID \<Longrightarrow> account_load p disc d L k = Inr v \<Longrightarrow> k \<in> carriers p disc L"
  by (auto simp: account_load_def carriers_def Let_def split: if_splits)

lemma carriers_other:
  assumes "\<And>a. a \<noteq> k \<Longrightarrow> L' a = L a"
  shows "carriers p disc L' \<subseteq> insert k (carriers p disc L)"
proof
  fix a assume "a \<in> carriers p disc L'"
  then show "a \<in> insert k (carriers p disc L)"
    using assms [of a] by (cases "a = k") (simp_all add: carriers_def)
qed

lemma foreign_change_carriers:
  assumes disc: "disc \<noteq> replicate (length disc) 0" and "foreign_change p L L'"
  shows "carriers p disc L' \<subseteq> carriers p disc L"
proof
  fix a assume a: "a \<in> carriers p disc L'"
  then have own: "acc_owner (L' a) = p" and d: "take (length disc) (acc_data (L' a)) = disc"
    by (auto simp: carriers_def)
  have "acc_data (L' a) \<noteq> replicate n 0" for n
  proof
    assume "acc_data (L' a) = replicate n 0"
    then have "disc = replicate (min (length disc) n) 0"
      using d by simp
    then show False
      using disc by (metis length_replicate)
  qed
  with assms(2) own have "acc_owner (L a) = p \<and> same_state (L' a) (L a)"
    unfolding foreign_change_def by (metis (full_types))
  with d show "a \<in> carriers p disc L"
    by (simp add: carriers_def same_state_def)
qed

lemma foreign_change_account_holds:
  "foreign_change p L L' \<Longrightarrow> account_holds p disc serialize space k v L \<Longrightarrow>
     account_holds p disc serialize space k v L'"
  using foreign_change_same [of p L L' k] by (simp add: account_holds_def same_state_def)

section \<open>Reading Borsh\<close>

text \<open>A reader takes the bytes it needs from the front, or fails at the end of the input.\<close>

definition read_le :: "nat \<Rightarrow> u8 list \<Rightarrow> ('a::len word \<times> u8 list) option" where
  "read_le n bs = (if length bs < n then None else Some (from_le_bytes (take n bs), drop n bs))"

lemma read_le_append [codec_simps]:
  fixes w :: "'a::len word"
  assumes "LENGTH('a) \<le> 8 * n"
  shows "read_le n (to_le_bytes n w @ bs) = Some (w, bs)"
  using from_to_le_bytes [OF assms, of w] by (simp add: read_le_def)

lemma read_address_append [codec_simps]:
  "read_le 32 (address_bytes a @ bs) = Some (a, bs)"
  unfolding address_bytes_def by (rule read_le_append) simp

lemma read_byte [codec_simps]: "read_le 1 (b # bs) = Some (b :: u8, bs)"
  by (simp add: read_le_def)

section \<open>The contract of an encoding\<close>

locale anchor_account =
  fixes ok :: "'v \<Rightarrow> bool"
    and serialize :: "'v \<Rightarrow> u8 list"
    and deserialize :: "u8 list \<Rightarrow> 'v option"
    and space :: nat
  assumes deserialize_serialize: "ok v \<Longrightarrow> deserialize (serialize v @ rest) = Some v"
    and serialize_fits: "ok v \<Longrightarrow> length (serialize v) \<le> space"
begin

lemma load_holds:
  assumes "p \<noteq> system_program_ID" and "ok v" and "account_holds p disc serialize space k v L"
  shows "account_load p disc deserialize L k = Inr v"
  using assms by (auto simp: account_load_def account_holds_def Let_def deserialize_serialize)

lemma exit_holds:
  assumes ok: "ok v" and own: "acc_owner (L k) = p"
    and len: "length (acc_data (L k)) = length disc + space"
  obtains L' where "account_exit p disc serialize k v L = Inr L'"
    and "account_holds p disc serialize space k v L'" and "\<And>a. a \<noteq> k \<Longrightarrow> L' a = L a"
proof -
  let ?enc = "disc @ serialize v" and ?d = "acc_data (L k)"
  let ?L = "L(k := (L k)\<lparr>acc_data := ?enc @ drop (length ?enc) ?d\<rparr>)"
  have fits: "length ?enc \<le> length ?d"
    using serialize_fits [OF ok] len by simp
  show ?thesis
  proof (rule that)
    show "account_exit p disc serialize k v L = Inr ?L"
      using fits own by (cases "L k") (auto simp: account_exit_def write_over_def fun_upd_idem fun_eq_iff)
    show "account_holds p disc serialize space k v ?L"
      using fits own len by (simp add: account_holds_def)
  qed simp
qed

lemma exit_load:
  assumes "p \<noteq> system_program_ID" and "ok v" and "acc_owner (L k) = p"
    and "length (acc_data (L k)) = length disc + space"
  shows "\<exists>L'. account_exit p disc serialize k v L = (Inr L' :: 'e anchor_error + ledger) \<and>
    account_load p disc deserialize L' k = (Inr v :: 'e anchor_error + 'v) \<and>
    length (acc_data (L' k)) = length disc + space \<and> (\<forall>a. a \<noteq> k \<longrightarrow> L' a = L a)"
proof -
  obtain L' where "account_exit p disc serialize k v L = (Inr L' :: 'e anchor_error + ledger)"
    and h: "account_holds p disc serialize space k v L'" and "\<And>a. a \<noteq> k \<Longrightarrow> L' a = L a"
    by (rule exit_holds [where L = L, OF assms(2-4)]) blast
  moreover have "length (acc_data (L' k)) = length disc + space"
    using h by (simp add: account_holds_def)
  ultimately show ?thesis
    using load_holds [OF assms(1,2) h] by blast
qed

lemma exit_too_long:
  assumes "p \<noteq> system_program_ID" and "acc_owner (L k) = p"
    and "length (acc_data (L k)) < length disc + length (serialize v)"
  shows "account_exit p disc serialize k v L = Inl AccountDidNotSerialize"
  using assms by (simp add: account_exit_def write_over_def)

end

end
