(* ===== verification/Rust_String.thy ===== *)
theory Rust_String
  imports Anchor_Account
begin

text \<open>
  Rust's \<open>String\<close>: the bytes of a valid UTF-8 text, and its Borsh encoding, the length in four
  bytes and then the text.
\<close>

section \<open>UTF-8\<close>

text \<open>A string is the bytes \<open>as_bytes\<close> shows.\<close>

type_synonym rust_string = "u8 list"

definition between :: "u8 \<Rightarrow> u8 \<Rightarrow> u8 \<Rightarrow> bool" where
  "between lo hi b \<longleftrightarrow> lo \<le> b \<and> b \<le> hi"

definition continuation :: "u8 \<Rightarrow> bool" where
  "continuation = between 0x80 0xBF"

text \<open>
  \<open>String::from_utf8\<close>: what must follow a first byte, so that no form is truncated or
  overlong, no surrogate and nothing above U+10FFFF.
\<close>

definition utf8_follow :: "u8 \<Rightarrow> (u8 \<Rightarrow> bool) list option" where
  "utf8_follow a =
     (if a < 0x80 then Some []
      else if between 0xC2 0xDF a then Some [continuation]
      else if a = 0xE0 then Some [between 0xA0 0xBF, continuation]
      else if a = 0xED then Some [between 0x80 0x9F, continuation]
      else if between 0xE1 0xEF a then Some [continuation, continuation]
      else if a = 0xF0 then Some [between 0x90 0xBF, continuation, continuation]
      else if a = 0xF4 then Some [between 0x80 0x8F, continuation, continuation]
      else if between 0xF1 0xF3 a then Some [continuation, continuation, continuation]
      else None)"

fun utf8_valid :: "u8 list \<Rightarrow> bool" where
  "utf8_valid [] \<longleftrightarrow> True"
| "utf8_valid (a # bs) \<longleftrightarrow>
     (case utf8_follow a of
        None \<Rightarrow> False
      | Some ps \<Rightarrow>
          length ps \<le> length bs \<and> list_all2 (\<lambda>p b. p b) ps (take (length ps) bs) \<and>
          utf8_valid (drop (length ps) bs))"

text \<open>Valid texts can be joined.\<close>

lemma utf8_valid_append: "utf8_valid s \<Longrightarrow> utf8_valid (s @ t) \<longleftrightarrow> utf8_valid t"
  by (induction s rule: utf8_valid.induct) (auto split: option.splits)

lemma utf8_valid_ascii: "\<forall>b\<in>set s. b < 0x80 \<Longrightarrow> utf8_valid s"
  by (induction s) (auto simp: utf8_follow_def)

declare utf8_valid.simps(2) [simp del]

section \<open>Borsh\<close>

definition string_serialize :: "rust_string \<Rightarrow> u8 list" where
  "string_serialize s = to_le_bytes 4 (word_of_nat (length s) :: u32) @ s"

definition read_string :: "u8 list \<Rightarrow> (rust_string \<times> u8 list) option" where
  "read_string bs =
     Option.bind (read_le 4 bs) (\<lambda>(n :: u32, bs).
     let s = take (unat n) bs in
     if length bs < unat n \<or> \<not> utf8_valid s then None else Some (s, drop (unat n) bs))"

lemma length_string_serialize [simp]: "length (string_serialize s) = 4 + length s"
  by (simp add: string_serialize_def)

lemma read_string_append [codec_simps]:
  assumes "utf8_valid s" and "length s < 2 ^ 32"
  shows "read_string (string_serialize s @ bs) = Some (s, bs)"
proof -
  have "unat (word_of_nat (length s) :: u32) = length s"
    using assms(2) by (simp add: unat_of_nat take_bit_nat_eq_self)
  then show ?thesis
    using assms(1)
    by (simp add: read_string_def string_serialize_def read_le_append Let_def)
qed

text \<open>What is read is a valid text that is part of the input.\<close>

lemma read_string_Some:
  "read_string bs = Some (s, rest) \<Longrightarrow> utf8_valid s \<and> 4 + length s + length rest = length bs"
  by (auto simp: read_string_def read_le_def Let_def split: if_splits bind_splits)

end
