(* ===== verification/Todo_Codec.thy ===== *)
theory Todo_Codec
  imports Todo_Store Rust_String
begin

text \<open>
  The store file in the format that \<open>derive(BorshSerialize, BorshDeserialize)\<close> documents for its
  structs: the fields in their order, a vector as its length in four bytes and its elements. The
  program's model takes the codec as a parameter; here is that the documented one keeps
  \<open>borsh_law\<close> on every store, and hosts that use it.
\<close>

section \<open>Encoding\<close>

definition string_bytes :: "string \<Rightarrow> rust_string" where
  "string_bytes s = map (\<lambda>c. word_of_nat (of_char c)) s"

definition bytes_string :: "rust_string \<Rightarrow> string" where
  "bytes_string bs = map (\<lambda>b. char_of (unat b)) bs"

definition todo_serialize :: "todo \<Rightarrow> u8 list" where
  "todo_serialize t =
     to_le_bytes 8 (todo_id t) @ string_serialize (string_bytes (description t)) @
     to_le_bytes 8 (created_at t)"

definition store_serialize :: "store_file \<Rightarrow> u8 list" where
  "store_serialize s =
     to_le_bytes 8 (next_id s) @ to_le_bytes 4 (word_of_nat (length (todos s)) :: u32) @
     concat (map todo_serialize (todos s))"

text \<open>Every Rust string is UTF-8; a length beyond four bytes is an error of the encoder.\<close>

definition string_fits :: "string \<Rightarrow> bool" where
  "string_fits s \<longleftrightarrow> utf8_valid (string_bytes s) \<and> length s < 2 ^ 32"

definition store_fits :: "store_file \<Rightarrow> bool" where
  "store_fits s \<longleftrightarrow>
     list_all (\<lambda>t. string_fits (description t)) (todos s) \<and> length (todos s) < 2 ^ 32"

definition store_to_vec :: "store_file \<Rightarrow> u8 list option" where
  "store_to_vec s = (if store_fits s then Some (store_serialize s) else None)"

section \<open>Decoding\<close>

definition read_todo :: "u8 list \<Rightarrow> (todo \<times> u8 list) option" where
  "read_todo bs =
     Option.bind (read_le 8 bs) (\<lambda>(i, bs).
     Option.bind (read_string bs) (\<lambda>(d, bs).
     Option.bind (read_le 8 bs) (\<lambda>(c, bs).
     Some (\<lparr>todo_id = i, description = bytes_string d, created_at = c\<rparr>, bs))))"

fun read_todos :: "nat \<Rightarrow> u8 list \<Rightarrow> (todo list \<times> u8 list) option" where
  "read_todos 0 bs = Some ([], bs)"
| "read_todos (Suc n) bs =
     Option.bind (read_todo bs) (\<lambda>(t, bs).
     Option.bind (read_todos n bs) (\<lambda>(ts, bs). Some (t # ts, bs)))"

text \<open>\<open>try_from_slice\<close> refuses what lies behind the value.\<close>

definition store_from_slice :: "u8 list \<Rightarrow> store_file option" where
  "store_from_slice bs =
     Option.bind (read_le 8 bs) (\<lambda>(n, bs).
     Option.bind (read_le 4 bs) (\<lambda>(k :: u32, bs).
     Option.bind (read_todos (unat k) bs) (\<lambda>(ts, bs).
     if bs = [] then Some \<lparr>next_id = n, todos = ts\<rparr> else None)))"

section \<open>Round trip\<close>

lemma unat_char: "unat (word_of_nat (of_char c) :: u8) = of_char c"
  by (simp add: unat_of_nat take_bit_eq_mod)

lemma bytes_string_bytes [simp]: "bytes_string (string_bytes s) = s"
  by (induction s) (simp_all add: bytes_string_def string_bytes_def unat_char)

lemma length_string_bytes [simp]: "length (string_bytes s) = length s"
  by (simp add: string_bytes_def)

lemma read_todo_append [codec_simps]:
  "string_fits (description t) \<Longrightarrow> read_todo (todo_serialize t @ bs) = Some (t, bs)"
  by (simp add: read_todo_def todo_serialize_def string_fits_def codec_simps)

lemma read_todos_append [codec_simps]:
  "list_all (\<lambda>t. string_fits (description t)) ts \<Longrightarrow>
     read_todos (length ts) (concat (map todo_serialize ts) @ bs) = Some (ts, bs)"
  by (induction ts) (simp_all add: codec_simps)

lemma store_from_slice_to_vec:
  assumes "store_to_vec s = Some bs"
  shows "store_from_slice bs = Some s"
proof -
  have fits: "list_all (\<lambda>t. string_fits (description t)) (todos s)" "length (todos s) < 2 ^ 32"
    and bs: "bs = store_serialize s"
    using assms by (simp_all add: store_to_vec_def store_fits_def split: if_splits)
  have "unat (word_of_nat (length (todos s)) :: u32) = length (todos s)"
    using fits(2) by (simp add: unat_of_nat take_bit_nat_eq_self)
  then show ?thesis
    using read_todos_append [OF fits(1), of "[]"] unfolding bs
    by (simp add: store_from_slice_def store_serialize_def codec_simps)
qed

lemma borsh_law_codec:
  "borsh_law (h\<lparr>try_from_slice := store_from_slice, to_vec := store_to_vec\<rparr>)"
  by (simp add: borsh_law_def store_from_slice_to_vec)

text \<open>
  A host with this codec encodes every list of plain ASCII descriptions that is short enough, so
  no command fails for its encoding.
\<close>

lemma store_fits_ascii:
  assumes "\<And>t. t \<in> set (todos s) \<Longrightarrow>
      (\<forall>c\<in>set (description t). (of_char c :: nat) < 0x80) \<and> length (description t) < 2 ^ 32"
    and "length (todos s) < 2 ^ 32"
  shows "store_to_vec s = Some (store_serialize s)"
  using assms
  by (auto simp: store_to_vec_def store_fits_def string_fits_def list_all_iff string_bytes_def
      word_less_nat_alt unat_char intro!: utf8_valid_ascii)

end
