(* ===== verification/Todo_Theorems.thy ===== *)
theory Todo_Theorems
  imports Todo_Codec
begin

text \<open>
  The properties of persistent-todo: the queue is a FIFO, the commands implement their plain
  specification on the stored list, a failure or a crash in the middle of a save loses nothing,
  and identifiers are never given twice.
\<close>

section \<open>The temporary file is another file\<close>

lemma file_stem_snoc:
  "file_stem name @ ''.bin.tmp'' \<noteq> name"
proof
  assume eq: "file_stem name @ ''.bin.tmp'' = name"
  have rev: "rev name = ''pmt.nib.'' @ rev (file_stem name)"
    by (subst eq [symmetric]) simp
  have "1 < length (dropWhile (\<lambda>c. c \<noteq> CHR ''.'') (rev name))"
    unfolding rev by simp
  then have "file_stem name = rev (tl (dropWhile (\<lambda>c. c \<noteq> CHR ''.'') (rev name)))"
    by (simp add: file_stem_def Let_def)
  also have "\<dots> = file_stem name @ ''.bin''"
    unfolding rev by simp
  finally show False by simp
qed

lemma tmp_path_other: "tmp_path p \<noteq> p"
  using file_stem_snoc [of "file_name p"]
  by (cases p) (auto simp: tmp_path_def with_extension_def)

section \<open>Saving and loading\<close>

lemma load_Inr_iff:
  "load h p fs = Inr (q, n) \<longleftrightarrow>
     \<not> read_fails h p \<and>
     (case fs p of
        None \<Rightarrow> q = queue_new \<and> n = 0
      | Some bytes \<Rightarrow> (\<exists>s. try_from_slice h bytes = Some s \<and> next_id s = n \<and>
          q = fold (\<lambda>t q. enqueue q t) (todos s) queue_new))"
  by (auto simp: load_def res_simps split: option.splits)

lemma load_other: "fs' p = fs p \<Longrightarrow> load h p fs' = load h p fs"
  by (simp add: load_def)

lemma save_Inr:
  assumes "save h p q n fs = (Inr (), fs')"
  obtains bytes where "to_vec h \<lparr>next_id = n, todos = queue_iter q\<rparr> = Some bytes"
    and "fs' = fs(tmp_path p := None, p := Some bytes)"
  using assms tmp_path_other [of p]
  by (auto simp: save_def write_file_def rename_file_def split: option.splits if_splits)

lemma save_Inl:
  assumes "save h p q n fs = (Inl e, fs')"
  shows "fs' p = fs p"
  using assms tmp_path_other [of p]
  by (auto simp: save_def write_file_def rename_file_def split: option.splits if_splits)

lemma queue_ext: "queue_iter q = queue_iter q' \<Longrightarrow> q = q'" for q q' :: "todo queue"
  by (simp add: queue_iter_def)

lemma load_save:
  assumes "borsh_law h" and "\<not> read_fails h p" and "save h p q n fs = (Inr (), fs')"
  shows "load h p fs' = Inr (q, n)"
proof -
  from assms(3) obtain bytes where
    b: "to_vec h \<lparr>next_id = n, todos = queue_iter q\<rparr> = Some bytes"
    and fs': "fs' = fs(tmp_path p := None, p := Some bytes)"
    by (rule save_Inr)
  have "fold (\<lambda>t q. enqueue q t) (queue_iter q) queue_new = q"
    by (rule queue_ext) (rule fifo.waiting_of_list)
  with assms(1,2) b show ?thesis
    by (auto simp: load_Inr_iff fs' borsh_law_def)
qed

section \<open>The plain specification\<close>

text \<open>A todo list is the next identifier and the waiting tasks, oldest first.\<close>

type_synonym todo_list = "u64 \<times> todo list"

fun spec_command :: "u64 \<Rightarrow> command \<Rightarrow> todo_list \<Rightarrow> message list \<times> todo_list" where
  "spec_command now (Add x) (n, ts) =
     ([Added n x], (n + 1, ts @ [\<lparr>todo_id = n, description = x, created_at = now\<rparr>]))"
| "spec_command now List (n, []) = ([No_Tasks], (n, []))"
| "spec_command now List (n, t # ts) =
     (map (\<lambda>(i, t). Task (i + 1) (todo_id t) (description t)) (enumerate 0 (t # ts)), (n, t # ts))"
| "spec_command now Done (n, []) = ([Nothing_To_Complete], (n, []))"
| "spec_command now Done (n, t # ts) = ([Completed (todo_id t) (description t)], (n, ts))"

fun_cases spec_AddE: "spec_command now (Add x) r = y"

lemma run_command_spec:
  assumes law: "borsh_law h" and load: "load h p fs = Inr (q, n)"
    and run: "run_command h p c fs = (out, Inr (), fs')"
  obtains q' n' where "load h p fs' = Inr (q', n')"
    and "spec_command (now_unix h) c (n, queue_iter q) = (out, (n', queue_iter q'))"
proof -
  have ok: "\<not> read_fails h p"
    using load by (simp add: load_Inr_iff)
  show ?thesis
  proof (cases c)
    case (Add d)
    let ?t = "\<lparr>todo_id = n, description = d, created_at = now_unix h\<rparr>"
    from run load Add have "save h p (enqueue q ?t) (n + 1) fs = (Inr (), fs')"
      and "out = [Added n d]"
      by (auto simp: run_command_def bump_id_def split: if_splits)
    with load_save [OF law ok] Add show ?thesis
      by (intro that [of "enqueue q ?t" "n + 1"]) (simp_all add: fifo.waiting_enq)
  next
    case List
    with run load have "fs' = fs" and "out = list_messages q"
      by (auto simp: run_command_def)
    with load List show ?thesis
      by (intro that [of q n])
        (cases "queue_iter q"; simp add: list_messages_def fifo.none_left_waiting)+
  next
    case Done
    show ?thesis
    proof (cases "dequeue q")
      case (Pair r q')
      show ?thesis
      proof (cases r)
        case None
        then have "queue_iter q = []"
          using Pair fifo.deq_None [of q] by simp
        with run load Done Pair None show ?thesis
          by (intro that [of q n]) (auto simp: run_command_def)
      next
        case (Some t)
        with run load Done Pair have s: "save h p q' n fs = (Inr (), fs')"
          and "out = [Completed (todo_id t) (description t)]"
          by (auto simp: run_command_def)
        moreover have "queue_iter q = t # queue_iter q'"
          using fifo.deq_Some [of q t q'] Pair Some by simp
        ultimately show ?thesis
          using load_save [OF law ok s] Done by (intro that [of q' n]) simp_all
      qed
    qed
  qed
qed

lemma run_command_fails:
  assumes "run_command h p c fs = (out, Inl e, fs')"
  shows "load h p fs' = load h p fs"
proof -
  from assms have "fs' = fs \<or> (\<exists>q n. save h p q n fs = (Inl e, fs'))"
    by (auto simp: run_command_def Let_def split: sum.splits command.splits prod.splits
        option.splits)
  then have "fs' p = fs p"
    using save_Inl by blast
  then show ?thesis by (rule load_other)
qed

section \<open>Identifiers\<close>

text \<open>Two hosts with the same codec and build; the clock and the failures may differ.\<close>

definition same_build :: "host \<Rightarrow> host \<Rightarrow> bool" where
  "same_build h h' \<longleftrightarrow>
     try_from_slice h' = try_from_slice h \<and> to_vec h' = to_vec h \<and>
     overflow_checks h' = overflow_checks h"

inductive todo_run :: "host \<Rightarrow> path \<Rightarrow> files \<Rightarrow> bool" for h :: host and p :: path where
  no_file: "fs p = None \<Longrightarrow> todo_run h p fs"
| ran: "todo_run h p fs \<Longrightarrow> same_build h h' \<Longrightarrow> run_command h' p c fs = (out, r, fs') \<Longrightarrow>
    todo_run h p fs'"
| other_files: "todo_run h p fs \<Longrightarrow> fs' p = fs p \<Longrightarrow> todo_run h p fs'"

definition ids_ok :: "u64 \<Rightarrow> todo list \<Rightarrow> bool" where
  "ids_ok n ts \<longleftrightarrow> sorted_wrt (<) (map todo_id ts) \<and> (\<forall>t\<in>set ts. todo_id t < n)"

lemma ids_ok_simps [simp]:
  "ids_ok n []"
  "ids_ok n (t # ts) \<Longrightarrow> ids_ok n ts"
  by (simp_all add: ids_ok_def)

lemma word_less_plus_one:
  fixes n :: u64
  assumes "n \<noteq> - 1"
  shows "n < n + 1"
proof -
  have "n + 1 \<noteq> 0"
    using assms by (metis add_eq_0_iff add.commute)
  then have "unat (n + 1) = Suc (unat n)"
    by (simp add: unatSuc add.commute [of n])
  then show ?thesis by (simp add: word_less_nat_alt)
qed

lemma ids_ok_snoc:
  assumes "ids_ok n ts" and "n \<noteq> - 1" and "todo_id t = n"
  shows "ids_ok (n + 1) (ts @ [t])"
proof -
  have "n < n + 1"
    using assms(2) by (rule word_less_plus_one)
  with assms show ?thesis
    by (fastforce simp: ids_ok_def sorted_wrt_append)
qed

definition store_ok :: "host \<Rightarrow> path \<Rightarrow> files \<Rightarrow> bool" where
  "store_ok h p fs \<longleftrightarrow>
     (\<forall>bytes. fs p = Some bytes \<longrightarrow>
        (\<exists>s. try_from_slice h bytes = Some s \<and> ids_ok (next_id s) (todos s)))"

lemma load_ids:
  assumes "store_ok h p fs" and "load h p fs = Inr (q, n)"
  shows "ids_ok n (queue_iter q)"
  using assms
  by (auto simp: load_Inr_iff store_ok_def fifo.waiting_of_list fifo.waiting_empty
      split: option.splits)

lemma save_ids:
  assumes "borsh_law h" and "ids_ok n (queue_iter q)" and "save h p q n fs = (r, fs')"
    and "store_ok h p fs"
  shows "store_ok h p fs'"
proof (cases r)
  case (Inl e)
  then have "fs' p = fs p"
    using save_Inl assms(3) by blast
  with assms(4) show ?thesis by (simp add: store_ok_def)
next
  case (Inr u)
  then have s: "save h p q n fs = (Inr (), fs')" using assms(3) by simp
  show ?thesis
    by (rule save_Inr [OF s]) (use assms(1,2) in \<open>auto simp: store_ok_def borsh_law_def\<close>)
qed

lemma run_command_ids:
  assumes law: "borsh_law h" and checks: "overflow_checks h" and ok: "store_ok h p fs"
    and run: "run_command h p c fs = (out, r, fs')"
  shows "store_ok h p fs'"
proof (cases "load h p fs")
  case (Inl e)
  with run ok show ?thesis by (simp add: run_command_def)
next
  case (Inr qn)
  obtain q n where qn: "qn = (q, n)" by fastforce
  note load = Inr [unfolded qn]
  have ids: "ids_ok n (queue_iter q)"
    using load_ids [OF ok load] .
  show ?thesis
  proof (cases c)
    case (Add d)
    let ?t = "\<lparr>todo_id = n, description = d, created_at = now_unix h\<rparr>"
    show ?thesis
    proof (cases "n = - 1")
      case True
      with run load Add checks ok show ?thesis
        by (simp add: run_command_def bump_id_def)
    next
      case False
      then have "save h p (enqueue q ?t) (n + 1) fs = (r, fs')"
        using run load Add by (simp add: run_command_def bump_id_def)
      moreover have "ids_ok (n + 1) (queue_iter (enqueue q ?t))"
        using ids_ok_snoc [OF ids False, of ?t] by (simp add: fifo.waiting_enq)
      ultimately show ?thesis
        using save_ids [OF law _ _ ok] by blast
    qed
  next
    case List
    with run load ok show ?thesis by (simp add: run_command_def)
  next
    case Done
    obtain x q' where d: "dequeue q = (x, q')" by fastforce
    show ?thesis
    proof (cases x)
      case None
      with run load ok Done d show ?thesis by (simp add: run_command_def)
    next
      case (Some t)
      then have "ids_ok n (queue_iter q')"
        using ids fifo.deq_Some [of q t q'] d by simp
      then show ?thesis
        using save_ids [OF law _ _ ok] run load Done d Some by (simp add: run_command_def)
    qed
  qed
qed

lemma same_build_law:
  "same_build h h' \<Longrightarrow> borsh_law h' = borsh_law h"
  "same_build h h' \<Longrightarrow> store_ok h' = store_ok h"
  "same_build h h' \<Longrightarrow> overflow_checks h' = overflow_checks h"
  by (simp_all add: same_build_def borsh_law_def store_ok_def fun_eq_iff)

lemma todo_run_ids:
  assumes "borsh_law h" and "overflow_checks h" and "todo_run h p fs"
  shows "store_ok h p fs"
  using assms(3)
proof induction
  case (no_file fs)
  then show ?case by (simp add: store_ok_def)
next
  case (ran fs h' c out r fs')
  then show ?case
    using run_command_ids [of h' p fs c out r fs'] assms(1,2) same_build_law [OF ran(2)] by simp
next
  case (other_files fs fs')
  then show ?case by (simp add: store_ok_def)
qed

section \<open>A host\<close>

definition one_task :: store_file where
  "one_task = \<lparr>next_id = 1, todos = [\<lparr>todo_id = 0, description = ''tea'', created_at = 5\<rparr>]\<rparr>"

definition no_task :: store_file where
  "no_task = \<lparr>next_id = 1, todos = []\<rparr>"

definition demo_host :: host where
  "demo_host =
     \<lparr>try_from_slice = store_from_slice, to_vec = store_to_vec, duration_since_epoch = Some 5,
      read_fails = (\<lambda>_. False), write_fails = (\<lambda>_. False), left_behind = (\<lambda>_ old. old),
      rename_fails = (\<lambda>_. False), overflow_checks = True\<rparr>"

lemma demo_host_law: "borsh_law demo_host"
  using borsh_law_codec [of demo_host] by (simp add: demo_host_def)

definition no_files :: files where "no_files = (\<lambda>_. None)"

definition one_file :: files where
  "one_file = no_files(default_path := Some (store_serialize one_task))"

lemma demo_codec:
  "store_to_vec one_task = Some (store_serialize one_task)"
  "store_to_vec no_task = Some (store_serialize no_task)"
  "store_from_slice (store_serialize one_task) = Some one_task"
proof -
  show one: "store_to_vec one_task = Some (store_serialize one_task)"
    by (rule store_fits_ascii) (auto simp: one_task_def)
  show "store_to_vec no_task = Some (store_serialize no_task)"
    by (rule store_fits_ascii) (simp_all add: no_task_def)
  show "store_from_slice (store_serialize one_task) = Some one_task"
    using one by (rule store_from_slice_to_vec)
qed

lemma demo_add:
  "run_command demo_host default_path (Add ''tea'') no_files =
     ([Added 0 ''tea''], Inr (), one_file)"
  using tmp_path_other [of default_path] demo_codec(1)
  by (simp add: run_command_def load_def no_files_def one_file_def demo_host_def bump_id_def
      now_unix_def save_def write_file_def rename_file_def enqueue_def queue_new_def
      queue_iter_def one_task_def fun_upd_twist)

lemma demo_add_fails:
  "run_command (demo_host\<lparr>write_fails := \<lambda>_. True\<rparr>) default_path Done one_file =
     ([Completed 0 ''tea''], Inl Failed_To_Write, one_file)"
proof -
  have "store_to_vec \<lparr>next_id = 1, todos = []\<rparr> = Some (store_serialize no_task)"
    using demo_codec(2) by (simp add: no_task_def)
  then show ?thesis
    using demo_codec(3)
    by (simp add: run_command_def load_def no_files_def one_file_def demo_host_def one_task_def
        save_def write_file_def enqueue_def queue_new_def queue_iter_def dequeue_def)
qed

lemma demo_run: "todo_run demo_host default_path one_file"
  by (rule todo_run.ran [OF todo_run.no_file _ demo_add])
    (simp_all add: same_build_def no_files_def)

lemma demo_load: "load demo_host default_path no_files = Inr (queue_new, 0)"
  by (simp add: load_def no_files_def demo_host_def)

section \<open>Properties\<close>

text \<open>C22: (persistent-todo) A command that succeeds does to the stored list exactly what its plain
  specification says, and prints exactly that: add appends a task with the next identifier, list
  numbers the tasks oldest first, done removes the oldest; the next run reads back the result.\<close>

theorem todo_commands_implement_spec:
  assumes "borsh_law h" and "load h p fs = Inr (q, n)"
    and "run_command h p c fs = (out, Inr (), fs')"
  shows "\<exists>q' n'. load h p fs' = Inr (q', n') \<and>
    spec_command (now_unix h) c (n, queue_iter q) = (out, (n', queue_iter q'))"
  by (rule run_command_spec [OF assms]) blast

theorem todo_commands_implement_spec_witness:
  "\<exists>q' n'. load demo_host default_path one_file = Inr (q', n') \<and>
     spec_command 5 (Add ''tea'') (0, []) = ([Added 0 ''tea''], (n', queue_iter q'))"
proof -
  have now: "now_unix demo_host = 5" and empty: "queue_iter (queue_new :: todo queue) = []"
    by (simp_all add: demo_host_def now_unix_def fifo.waiting_empty)
  show ?thesis
    using todo_commands_implement_spec [OF demo_host_law demo_load demo_add]
    unfolding now empty .
qed

text \<open>C23: (persistent-todo, save) A save replaces the stored list entirely or not at all: when it
  succeeds the next load gives the new list, when it fails at any step the next load gives the old
  one, and so does a load in the middle, whatever part of the temporary file has been written.\<close>

theorem save_all_or_nothing:
  assumes "borsh_law h" and "\<not> read_fails h p" and "save h p q n fs = (r, fs')"
  shows "load h p fs' = (if isl r then load h p fs else Inr (q, n)) \<and>
    load h p (fs(tmp_path p := x)) = load h p fs"
proof (rule conjI)
  show "load h p fs' = (if isl r then load h p fs else Inr (q, n))"
  proof (cases r)
    case (Inl e)
    then have "fs' p = fs p"
      using save_Inl assms(3) by blast
    then have "load h p fs' = load h p fs" by (rule load_other)
    with Inl show ?thesis by simp
  next
    case (Inr u)
    then show ?thesis
      using load_save [OF assms(1,2), of q n fs fs'] assms(3) by simp
  qed
  show "load h p (fs(tmp_path p := x)) = load h p fs"
    using tmp_path_other [of p] by (intro load_other) simp
qed

theorem save_all_or_nothing_witness:
  "load demo_host default_path (no_files(tmp_path default_path := Some [7])) =
     load demo_host default_path no_files"
proof -
  obtain r fs' where "save demo_host default_path queue_new 1 no_files = (r, fs')"
    by fastforce
  then show ?thesis
    using save_all_or_nothing [OF demo_host_law, of default_path queue_new 1 no_files r fs'
        "Some [7]"]
    by (simp add: demo_host_def)
qed

text \<open>C24: (persistent-todo) Built with overflow checks (a release build wraps instead): after any
  sequence of commands, successful or not, with other files changing as they like, the file that can
  be read holds a list whose identifiers increase strictly and are all below the next one, so no two
  entries of the list ever have the same identifier.\<close>

theorem ids_never_repeat:
  assumes "borsh_law h" and "overflow_checks h" and "todo_run h p fs" and "\<not> read_fails h p"
  shows "\<exists>q n. load h p fs = Inr (q, n) \<and> sorted_wrt (<) (map todo_id (queue_iter q)) \<and>
    (\<forall>t\<in>set (queue_iter q). todo_id t < n)"
proof -
  have ok: "store_ok h p fs"
    using todo_run_ids assms(1-3) .
  then obtain q n where "load h p fs = Inr (q, n)"
    using assms(4) by (cases "fs p") (auto simp: load_def store_ok_def)
  then show ?thesis
    using load_ids [OF ok] by (auto simp: ids_ok_def)
qed

theorem ids_never_repeat_witness:
  "\<exists>q n. load demo_host default_path one_file = Inr (q, n) \<and>
     (\<forall>t\<in>set (queue_iter q). todo_id t < n)"
  using ids_never_repeat [OF demo_host_law _ demo_run] by (auto simp: demo_host_def)

text \<open>(queue.rs) The queue is first in, first out: elements leave in the order they entered,
  peek shows the one that leaves next, and the length and emptiness count those that wait.\<close>

lemma queue_is_fifo:
  "queue_iter (fold (\<lambda>x q. enqueue q x) xs q) = queue_iter q @ xs \<and>
   fst (dequeue q) = peek q \<and>
   peek q = (case queue_iter q of [] \<Rightarrow> None | x # _ \<Rightarrow> Some x) \<and>
   queue_iter (snd (dequeue q)) = tl (queue_iter q) \<and>
   queue_len q = length (queue_iter q) \<and> (queue_is_empty q \<longleftrightarrow> queue_len q = 0) \<and>
   queue_iter queue_default = []"
  by (simp add: fifo.waiting_fold fifo.deq_front fifo.waiting_deq fifo.size_waiting
      fifo.none_left_waiting fifo.waiting_empty fifo.front_waiting queue_default_def)

end
