(* ===== verification/Generic_Storage.thy ===== *)
theory Generic_Storage
  imports Prelude
begin

text \<open>
  The storage container of generic-storage (\<open>src/lib.rs\<close>): serialized bytes only, behind a
  pluggable serializer. The three formats belong to the crates borsh, bincode and serde_json and
  are the record \<open>formats\<close>, for the value type stored; the trait \<open>Serializer\<close> is a record
  of its two methods, the implementations wrap the formats and convert their errors.
\<close>

section \<open>Serializers\<close>

datatype storage_error =
    Empty
  | Borsh_Error string
  | Bincode_Error string
  | Json_Error string

record 'v serializer =
  to_bytes :: "'v \<Rightarrow> storage_error + u8 list"
  from_bytes :: "u8 list \<Rightarrow> storage_error + 'v"

record 'v formats =
  borsh_to_vec :: "'v \<Rightarrow> string + u8 list"
  borsh_try_from_slice :: "u8 list \<Rightarrow> string + 'v"
  bincode_serialize :: "'v \<Rightarrow> string + u8 list"
  bincode_deserialize :: "u8 list \<Rightarrow> string + 'v"
  json_to_vec :: "'v \<Rightarrow> string + u8 list"
  json_from_slice :: "u8 list \<Rightarrow> string + 'v"

definition borsh :: "'v formats \<Rightarrow> 'v serializer" where
  "borsh lib =
     \<lparr>to_bytes = (\<lambda>value. map_err Borsh_Error (borsh_to_vec lib value)),
      from_bytes = (\<lambda>bytes. map_err Borsh_Error (borsh_try_from_slice lib bytes))\<rparr>"

definition wincode :: "'v formats \<Rightarrow> 'v serializer" where
  "wincode lib =
     \<lparr>to_bytes = (\<lambda>value. map_err Bincode_Error (bincode_serialize lib value)),
      from_bytes = (\<lambda>bytes. map_err Bincode_Error (bincode_deserialize lib bytes))\<rparr>"

definition json :: "'v formats \<Rightarrow> 'v serializer" where
  "json lib =
     \<lparr>to_bytes = (\<lambda>value. map_err Json_Error (json_to_vec lib value)),
      from_bytes = (\<lambda>bytes. map_err Json_Error (json_from_slice lib bytes))\<rparr>"

section \<open>Storage\<close>

record 'v storage =
  st_bytes :: "u8 list option"
  st_serializer :: "'v serializer"

definition storage_new :: "'v serializer \<Rightarrow> 'v storage" where
  "storage_new s = \<lparr>st_bytes = None, st_serializer = s\<rparr>"

definition storage_save :: "'v storage \<Rightarrow> 'v \<Rightarrow> (storage_error + unit) \<times> 'v storage" where
  "storage_save st value =
     (case to_bytes (st_serializer st) value of
        Inl e \<Rightarrow> (Inl e, st)
      | Inr bytes \<Rightarrow> (Inr (), st\<lparr>st_bytes := Some bytes\<rparr>))"

definition storage_load :: "'v storage \<Rightarrow> storage_error + 'v" where
  "storage_load st =
     and_then (ok_or (st_bytes st) Empty) (\<lambda>bytes. from_bytes (st_serializer st) bytes)"

definition has_data :: "'v storage \<Rightarrow> bool" where
  "has_data st \<longleftrightarrow> st_bytes st \<noteq> None"

definition storage_bytes :: "'v storage \<Rightarrow> u8 list option" where
  "storage_bytes st = st_bytes st"

definition convert :: "'v storage \<Rightarrow> 'v serializer \<Rightarrow> storage_error + 'v storage" where
  "convert st other =
     (let out = storage_new other in
      case st_bytes st of
        None \<Rightarrow> Inr out
      | Some _ \<Rightarrow>
          and_then (storage_load st) (\<lambda>value.
          case storage_save out value of
            (Inl e, _) \<Rightarrow> Inl e
          | (Inr _, out') \<Rightarrow> Inr out'))"

section \<open>Faithful formats\<close>

text \<open>
  A format is faithful to a value when what it writes for it reads back as that value. This is
  not so for every value a format accepts (JSON writes a float that is not a number as null), so
  it is asked of values; a format is lossless when it is faithful to all.
\<close>

definition faithful :: "'v serializer \<Rightarrow> 'v \<Rightarrow> bool" where
  "faithful s v \<longleftrightarrow> (\<forall>bytes. to_bytes s v = Inr bytes \<longrightarrow> from_bytes s bytes = Inr v)"

definition lossless :: "'v serializer \<Rightarrow> bool" where
  "lossless s \<longleftrightarrow> (\<forall>v bytes. to_bytes s v = Inr bytes \<longrightarrow> from_bytes s bytes = Inr v)"

section \<open>The contract: a typed cell\<close>

text \<open>
  What a client can do to a storage, and what it is told. A conversion makes a new storage, which
  the client goes on with; when it fails the client still has the old one.
\<close>

datatype 'v call = Save 'v | Load | Has_Data | Bytes | Convert "'v serializer"

datatype 'v answer =
    Saved | Value 'v | Flag bool | Raw "u8 list option" | Converted | Failed storage_error

fun storage_call :: "'v call \<Rightarrow> 'v storage \<Rightarrow> 'v answer \<times> 'v storage" where
  "storage_call (Save v) st =
     (case storage_save st v of
        (Inl e, st') \<Rightarrow> (Failed e, st')
      | (Inr _, st') \<Rightarrow> (Saved, st'))"
| "storage_call Load st =
     (case storage_load st of Inl e \<Rightarrow> (Failed e, st) | Inr v \<Rightarrow> (Value v, st))"
| "storage_call Has_Data st = (Flag (has_data st), st)"
| "storage_call Bytes st = (Raw (storage_bytes st), st)"
| "storage_call (Convert other) st =
     (case convert st other of Inl e \<Rightarrow> (Failed e, st) | Inr st' \<Rightarrow> (Converted, st'))"

text \<open>The cell keeps the value itself, and the format it is to be written in.\<close>

type_synonym 'v cell = "'v option \<times> 'v serializer"

fun cell_call :: "'v call \<Rightarrow> 'v cell \<Rightarrow> 'v answer \<times> 'v cell" where
  "cell_call (Save v) (x, s) =
     (case to_bytes s v of Inl e \<Rightarrow> (Failed e, (x, s)) | Inr _ \<Rightarrow> (Saved, (Some v, s)))"
| "cell_call Load (x, s) =
     (case x of None \<Rightarrow> (Failed Empty, (x, s)) | Some v \<Rightarrow> (Value v, (x, s)))"
| "cell_call Has_Data (x, s) = (Flag (x \<noteq> None), (x, s))"
| "cell_call Bytes (x, s) = (Raw (map_option (\<lambda>v. projr (to_bytes s v)) x), (x, s))"
| "cell_call (Convert other) (x, s) =
     (case x of
        None \<Rightarrow> (Converted, (None, other))
      | Some v \<Rightarrow>
          (case to_bytes other v of
             Inl e \<Rightarrow> (Failed e, (x, s))
           | Inr _ \<Rightarrow> (Converted, (x, other))))"

text \<open>The answers to a sequence of calls.\<close>

fun answers :: "('v call \<Rightarrow> 's \<Rightarrow> 'v answer \<times> 's) \<Rightarrow> 'v call list \<Rightarrow> 's \<Rightarrow> 'v answer list" where
  "answers f [] st = []"
| "answers f (c # cs) st = (let (a, st') = f c st in a # answers f cs st')"

text \<open>The storage holds the bytes of the cell's value in the cell's format.\<close>

fun stands_for :: "'v storage \<Rightarrow> 'v cell \<Rightarrow> bool" where
  "stands_for st (None, s) \<longleftrightarrow> st_serializer st = s \<and> st_bytes st = None"
| "stands_for st (Some v, s) \<longleftrightarrow> st_serializer st = s \<and>
     (\<exists>bytes. to_bytes s v = Inr bytes \<and> st_bytes st = Some bytes)"

text \<open>The values saved by a sequence of calls, and the formats it goes through.\<close>

definition saved_values :: "'v call list \<Rightarrow> 'v set" where
  "saved_values cs = {v. Save v \<in> set cs}"

definition used_formats :: "'v serializer \<Rightarrow> 'v call list \<Rightarrow> 'v serializer set" where
  "used_formats s cs = insert s {other. Convert other \<in> set cs}"

lemma storage_call_simulates:
  assumes "stands_for st (x, s)" and "x \<noteq> None \<Longrightarrow> faithful s (the x)"
  shows "fst (storage_call c st) = fst (cell_call c (x, s))"
    and "stands_for (snd (storage_call c st)) (snd (cell_call c (x, s)))"
proof -
  have load: "storage_load st = ok_or x Empty"
    using assms by (cases x) (auto simp: storage_load_def faithful_def)
  have "fst (storage_call c st) = fst (cell_call c (x, s)) \<and>
      stands_for (snd (storage_call c st)) (snd (cell_call c (x, s)))"
    using assms(1) load
    by (cases x; cases c)
      (auto simp: storage_save_def has_data_def storage_bytes_def convert_def storage_new_def Let_def
        split: sum.splits)
  then show "fst (storage_call c st) = fst (cell_call c (x, s))"
    and "stands_for (snd (storage_call c st)) (snd (cell_call c (x, s)))"
    by simp_all
qed

text \<open>What the cell holds is what it held or was saved, and its format one that was used.\<close>

lemma cell_call_values:
  assumes "cell_call c (x, s) = (a, (x', s'))"
  shows "set_option x' \<subseteq> set_option x \<union> saved_values [c]" and "s' \<in> used_formats s [c]"
  using assms
  by (cases c; auto simp: saved_values_def used_formats_def split: sum.splits option.splits)+

lemma answers_agree:
  assumes "stands_for st (x, s)"
    and "\<forall>v\<in>set_option x \<union> saved_values cs. \<forall>f\<in>used_formats s cs. faithful f v"
  shows "answers storage_call cs st = answers cell_call cs (x, s)"
  using assms
proof (induction cs arbitrary: st x s)
  case (Cons c cs)
  obtain a x' s' where step: "cell_call c (x, s) = (a, (x', s'))"
    by (cases "cell_call c (x, s)") auto
  obtain st' where st': "storage_call c st = (a, st')" "stands_for st' (x', s')"
    using storage_call_simulates [of st x s c] Cons.prems step
    by (cases "storage_call c st"; cases x) (auto simp: used_formats_def)
  have "\<forall>v\<in>set_option x' \<union> saved_values cs. \<forall>f\<in>used_formats s' cs. faithful f v"
    using Cons.prems(2) cell_call_values [OF step]
    by (fastforce simp: saved_values_def used_formats_def)
  then have "answers storage_call cs st' = answers cell_call cs (x', s')"
    using Cons.IH st'(2) by blast
  then show ?case
    by (simp add: step st'(1))
qed simp

section \<open>Properties\<close>

text \<open>A format for bytes: they are their own encoding, up to eight of them.\<close>

definition byte_formats :: "u8 list formats" where
  "byte_formats =
     \<lparr>borsh_to_vec = (\<lambda>v. if length v \<le> 8 then Inr v else Inl ''long''), borsh_try_from_slice = Inr,
      bincode_serialize = (\<lambda>v. Inr (rev v)), bincode_deserialize = (\<lambda>bs. Inr (rev bs)),
      json_to_vec = Inr, json_from_slice = Inr\<rparr>"

text \<open>C25: (generic-storage, Storage) A storage, which keeps nothing but bytes, answers every sequence
  of saves, loads, queries and conversions between formats as a cell that keeps the value itself
  would: a load gives the last value that could be written, in whatever format it is by then, an
  operation fails exactly when the value cannot be written, and a failed one loses nothing. This
  is for values that the formats in use read back as they wrote them.\<close>

theorem storage_is_typed_cell:
  assumes "\<forall>v\<in>saved_values cs. \<forall>f\<in>used_formats s cs. faithful f v"
  shows "answers storage_call cs (storage_new s) = answers cell_call cs (None, s)"
  using assms by (intro answers_agree) (simp_all add: storage_new_def)

theorem storage_is_typed_cell_witness:
  "answers storage_call
     [Load, Save [1, 2], Save (replicate 9 0), Load, Convert (wincode byte_formats), Bytes, Load]
     (storage_new (borsh byte_formats)) =
   [Failed Empty, Saved, Failed (Borsh_Error ''long''), Value [1, 2], Converted, Raw (Some [2, 1]),
    Value [1, 2]]"
proof -
  let ?cs = "[Load, Save [1, 2], Save (replicate 9 0), Load, Convert (wincode byte_formats), Bytes, Load]"
  have "\<forall>v\<in>saved_values ?cs. \<forall>f\<in>used_formats (borsh byte_formats) ?cs. faithful f v"
    by (auto simp: saved_values_def used_formats_def faithful_def borsh_def wincode_def
        byte_formats_def)
  from storage_is_typed_cell [OF this] show ?thesis
    by (simp add: borsh_def wincode_def byte_formats_def)
qed

text \<open>C26: (generic-storage, Storage::convert) Converting to a lossless format keeps the value: what
  the new storage loads is what the old one loads, an empty storage stays empty, and a storage
  whose bytes cannot be read gives that error instead of a new storage.\<close>

theorem convert_keeps_value:
  assumes "lossless other"
  shows "case convert st other of
      Inr st' \<Rightarrow> st_serializer st' = other \<and> has_data st' = has_data st \<and>
        (has_data st \<longrightarrow> storage_load st' = storage_load st)
    | Inl e \<Rightarrow> has_data st \<and> (storage_load st = Inl e \<or>
        (\<exists>v. storage_load st = Inr v \<and> to_bytes other v = Inl e))"
proof (cases "st_bytes st")
  case None
  then show ?thesis
    by (simp add: convert_def Let_def has_data_def storage_new_def)
next
  case (Some bs)
  show ?thesis
  proof (cases "storage_load st")
    case (Inl e)
    with Some show ?thesis by (simp add: convert_def Let_def has_data_def)
  next
    case (Inr v)
    with Some assms show ?thesis
      by (auto simp: convert_def Let_def has_data_def storage_save_def storage_new_def
          storage_load_def [of "_\<lparr>st_bytes := _\<rparr>"] lossless_def split: sum.split)
        (auto simp: storage_load_def)
  qed
qed

theorem convert_keeps_value_witness:
  "case convert ((storage_new (borsh byte_formats))\<lparr>st_bytes := Some [1, 2]\<rparr>)
     (wincode byte_formats) of
     Inr st' \<Rightarrow> storage_load st' = Inr [1, 2]
   | Inl e \<Rightarrow> False"
proof -
  have l: "lossless (wincode byte_formats)"
    by (auto simp: lossless_def wincode_def byte_formats_def)
  show ?thesis
    using convert_keeps_value [OF l, of "(storage_new (borsh byte_formats))\<lparr>st_bytes := Some [1, 2]\<rparr>"]
    by (simp add: convert_def storage_load_def storage_save_def storage_new_def borsh_def
        wincode_def byte_formats_def has_data_def)
qed

end
