(* ===== verification/Whitelist_Vault.thy ===== *)
theory Whitelist_Vault
  imports Prelude
begin

text \<open>
  The vault of the transfer-hook program (\<open>src/state.rs\<close>): a bounded list of whitelisted
  users with an allowance each. \<open>allowance_table\<close> is the contract its clients use: the list is
  a finite map, whatever order and position its entries have.
\<close>

section \<open>The contract\<close>

text \<open>One accepted change of the table.\<close>

datatype edit = Allow address u64 | Disallow address

fun edit_map :: "edit \<Rightarrow> (address \<rightharpoonup> u64) \<Rightarrow> (address \<rightharpoonup> u64)" where
  "edit_map (Allow u n) m = m(u \<mapsto> n)"
| "edit_map (Disallow u) m = m(u := None)"

locale allowance_table =
  fixes ok :: "'t \<Rightarrow> bool"
    and lookup :: "'t \<Rightarrow> address \<rightharpoonup> u64"
    and allow :: "'t \<Rightarrow> address \<Rightarrow> u64 \<Rightarrow> 'e + 't"
    and disallow :: "'t \<Rightarrow> address \<Rightarrow> 'e + 't"
    and capacity :: nat
  assumes allow_Inr: "ok t \<Longrightarrow> allow t u n = Inr t' \<Longrightarrow> ok t' \<and> lookup t' = (lookup t)(u \<mapsto> n)"
    and allow_iff: "ok t \<Longrightarrow>
      (\<exists>t'. allow t u n = Inr t') \<longleftrightarrow>
        0 < n \<and> (lookup t u \<noteq> None \<or> card (dom (lookup t)) < capacity)"
    and disallow_Inr: "ok t \<Longrightarrow> disallow t u = Inr t' \<Longrightarrow> ok t' \<and> lookup t' = (lookup t)(u := None)"
    and disallow_iff: "ok t \<Longrightarrow> (\<exists>t'. disallow t u = Inr t') \<longleftrightarrow> lookup t u \<noteq> None"
    and lookup_pos: "ok t \<Longrightarrow> lookup t u = Some n \<Longrightarrow> 0 < n"
    and lookup_finite: "ok t \<Longrightarrow> finite (dom (lookup t)) \<and> card (dom (lookup t)) \<le> capacity"
begin

fun apply_edit :: "edit \<Rightarrow> 't \<Rightarrow> 'e + 't" where
  "apply_edit (Allow u n) t = allow t u n"
| "apply_edit (Disallow u) t = disallow t u"

lemma apply_edit_Inr:
  "ok t \<Longrightarrow> apply_edit e t = Inr t' \<Longrightarrow> ok t' \<and> lookup t' = edit_map e (lookup t)"
  by (cases e) (auto dest: allow_Inr disallow_Inr)

lemma allow_other: "ok t \<Longrightarrow> allow t u n = Inr t' \<Longrightarrow> v \<noteq> u \<Longrightarrow> lookup t' v = lookup t v"
  using allow_Inr [of t u n t'] by simp

lemma disallow_gone: "ok t \<Longrightarrow> disallow t u = Inr t' \<Longrightarrow> lookup t' u = None"
  using disallow_Inr [of t u t'] by simp

lemma disallow_twice: "ok t \<Longrightarrow> disallow t u = Inr t' \<Longrightarrow> \<not> (\<exists>t''. disallow t' u = Inr t'')"
  using disallow_Inr [of t u t'] disallow_iff [of t' u] by simp

end

section \<open>Vault\<close>

definition MAX_WHITELIST_ENTRIES :: nat where "MAX_WHITELIST_ENTRIES = 16"

definition DECIMALS :: u8 where "DECIMALS = 9"

definition VAULT_SEED :: "u8 list" where "VAULT_SEED = map of_char ''vault''"

definition MINT_SEED :: "u8 list" where "MINT_SEED = map of_char ''mint''"

record whitelist_entry =
  we_user :: address
  we_amount :: u64

definition whitelist_entry_LEN :: nat where "whitelist_entry_LEN = 32 + 8"

record vault =
  vt_admin :: address
  vt_mint :: address
  vt_vault_token_account :: address
  vt_whitelist :: "whitelist_entry list"
  vt_bump :: u8
  vt_mint_bump :: u8
  vt_extra_account_meta_bump :: u8

definition vault_LEN :: nat where
  "vault_LEN = 32 + 32 + 32 + 4 + (MAX_WHITELIST_ENTRIES * whitelist_entry_LEN) + 3"

datatype vault_error =
    InvalidAmount
  | NotWhitelisted
  | AmountExceedsWhitelist
  | WhitelistFull
  | InvalidVaultInteraction

definition assert_allowed :: "vault \<Rightarrow> address \<Rightarrow> u64 \<Rightarrow> vault_error + unit" where
  "assert_allowed v user amount =
     (if \<not> 0 < amount then Inl InvalidAmount
      else
        and_then (ok_or (find (\<lambda>entry. we_user entry = user) (vt_whitelist v)) NotWhitelisted)
          (\<lambda>entry.
        if \<not> amount \<le> we_amount entry then Inl AmountExceedsWhitelist else Inr ()))"

text \<open>Position of the first entry of a user.\<close>

fun position :: "address \<Rightarrow> whitelist_entry list \<Rightarrow> nat option" where
  "position user [] = None"
| "position user (e # es) =
     (if we_user e = user then Some 0 else map_option Suc (position user es))"

definition upsert_whitelist_entry :: "vault \<Rightarrow> address \<Rightarrow> u64 \<Rightarrow> vault_error + vault" where
  "upsert_whitelist_entry v user amount =
     (if \<not> 0 < amount then Inl InvalidAmount
      else
        case position user (vt_whitelist v) of
          Some i \<Rightarrow>
            Inr (v\<lparr>vt_whitelist :=
              (vt_whitelist v)[i := (vt_whitelist v ! i)\<lparr>we_amount := amount\<rparr>]\<rparr>)
        | None \<Rightarrow>
            if \<not> length (vt_whitelist v) < MAX_WHITELIST_ENTRIES then Inl WhitelistFull
            else
              Inr (v\<lparr>vt_whitelist :=
                vt_whitelist v @ [\<lparr>we_user = user, we_amount = amount\<rparr>]\<rparr>))"

definition remove_whitelist_entry :: "vault \<Rightarrow> address \<Rightarrow> vault_error + vault" where
  "remove_whitelist_entry v user =
     and_then (ok_or (position user (vt_whitelist v)) NotWhitelisted) (\<lambda>i.
     Inr (v\<lparr>vt_whitelist := take i (vt_whitelist v) @ drop (Suc i) (vt_whitelist v)\<rparr>))"

section \<open>The vault is an allowance table\<close>

definition vault_ok :: "vault \<Rightarrow> bool" where
  "vault_ok v \<longleftrightarrow>
     distinct (map we_user (vt_whitelist v)) \<and>
     length (vt_whitelist v) \<le> MAX_WHITELIST_ENTRIES \<and>
     (\<forall>e\<in>set (vt_whitelist v). 0 < we_amount e)"

definition entries_map :: "whitelist_entry list \<Rightarrow> address \<rightharpoonup> u64" where
  "entries_map es = map_of (map (\<lambda>e. (we_user e, we_amount e)) es)"

definition allowance :: "vault \<Rightarrow> address \<rightharpoonup> u64" where
  "allowance v = entries_map (vt_whitelist v)"

lemma entries_map_simps [simp]:
  "entries_map [] = Map.empty"
  "entries_map (e # es) = (entries_map es)(we_user e \<mapsto> we_amount e)"
  by (simp_all add: entries_map_def)

lemma dom_entries_map: "dom (entries_map es) = we_user ` set es"
  by (simp add: entries_map_def dom_map_of_conv_image_fst image_image)

lemma entries_map_snoc:
  "u \<notin> we_user ` set es \<Longrightarrow>
     entries_map (es @ [\<lparr>we_user = u, we_amount = n\<rparr>]) = (entries_map es)(u \<mapsto> n)"
  by (induction es) (auto simp: fun_upd_twist)

lemma find_entries_map: "entries_map es u = map_option we_amount (find (\<lambda>e. we_user e = u) es)"
  by (induction es) auto

lemma position_None: "position u es = None \<longleftrightarrow> u \<notin> we_user ` set es"
  by (induction es) auto

lemma position_Some:
  "position u es = Some i \<Longrightarrow> i < length es \<and> we_user (es ! i) = u"
  by (induction es arbitrary: i) (auto split: if_splits)

lemma position_update_map:
  "position u es = Some i \<Longrightarrow>
     entries_map (es[i := (es ! i)\<lparr>we_amount := n\<rparr>]) = (entries_map es)(u \<mapsto> n)"
  by (induction es arbitrary: i) (auto split: if_splits)

lemma position_update_users:
  "position u es = Some i \<Longrightarrow>
     map we_user (es[i := (es ! i)\<lparr>we_amount := n\<rparr>]) = map we_user es"
  by (induction es arbitrary: i) (auto split: if_splits)

lemma position_remove_map:
  "distinct (map we_user es) \<Longrightarrow> position u es = Some i \<Longrightarrow>
     entries_map (take i es @ drop (Suc i) es) = (entries_map es)(u := None)"
proof (induction es arbitrary: i)
  case (Cons e es)
  show ?case
  proof (cases "we_user e = u")
    case True
    with Cons.prems have "entries_map es u = None"
      using dom_entries_map [of es] by (auto simp: domIff)
    with True Cons.prems show ?thesis by (auto simp: fun_eq_iff)
  qed (use Cons in \<open>auto simp: fun_upd_twist\<close>)
qed simp

lemma remove_nth_subset: "set (take i es @ drop (Suc i) es) \<subseteq> set es"
  using set_take_subset set_drop_subset by fastforce

lemma remove_nth_distinct:
  "distinct (map we_user es) \<Longrightarrow> distinct (map we_user (take i es @ drop (Suc i) es))"
proof (induction es arbitrary: i)
  case (Cons e es)
  then show ?case
    using remove_nth_subset [of "i - 1" es] by (cases i) (auto simp: image_iff)
qed simp

lemma assert_allowed_iff:
  "assert_allowed v u n = Inr () \<longleftrightarrow> 0 < n \<and> (\<exists>k. allowance v u = Some k \<and> n \<le> k)"
  by (auto simp: assert_allowed_def res_simps allowance_def find_entries_map not_le)

interpretation whitelist: allowance_table
  vault_ok allowance upsert_whitelist_entry remove_whitelist_entry MAX_WHITELIST_ENTRIES
proof unfold_locales
  fix t :: vault and u n t'
  assume ok: "vault_ok t"
  let ?es = "vt_whitelist t"
  have card: "card (dom (allowance t)) = length ?es"
    using ok distinct_card [of "map we_user ?es"]
    by (simp add: vault_ok_def allowance_def dom_entries_map)
  have lookup: "allowance t u = None \<longleftrightarrow> position u ?es = None"
    using position_None [of u ?es] dom_entries_map [of ?es] by (auto simp: allowance_def domIff)
  show "finite (dom (allowance t)) \<and> card (dom (allowance t)) \<le> MAX_WHITELIST_ENTRIES"
    using ok card by (simp add: vault_ok_def allowance_def dom_entries_map)
  show "(\<exists>t'. upsert_whitelist_entry t u n = Inr t') \<longleftrightarrow>
      0 < n \<and> (allowance t u \<noteq> None \<or> card (dom (allowance t)) < MAX_WHITELIST_ENTRIES)"
    by (cases "position u ?es") (simp_all add: upsert_whitelist_entry_def card lookup)
  show "(\<exists>t'. remove_whitelist_entry t u = Inr t') \<longleftrightarrow> allowance t u \<noteq> None"
    by (cases "position u ?es") (simp_all add: remove_whitelist_entry_def lookup res_simps)
  show "0 < n" if "allowance t u = Some n"
    using ok that by (auto simp: vault_ok_def allowance_def entries_map_def dest!: map_of_SomeD)
  show "vault_ok t' \<and> allowance t' = (allowance t)(u \<mapsto> n)"
    if "upsert_whitelist_entry t u n = Inr t'"
  proof (cases "position u ?es")
    case None
    with that ok position_None [of u ?es] show ?thesis
      by (auto simp: upsert_whitelist_entry_def vault_ok_def allowance_def entries_map_snoc
          split: if_splits)
  next
    case (Some i)
    with that have t': "t' = t\<lparr>vt_whitelist := ?es[i := (?es ! i)\<lparr>we_amount := n\<rparr>]\<rparr>" and "0 < n"
      by (auto simp: upsert_whitelist_entry_def split: if_splits)
    moreover have "\<forall>e\<in>set (?es[i := (?es ! i)\<lparr>we_amount := n\<rparr>]). 0 < we_amount e"
      using ok \<open>0 < n\<close> set_update_subset_insert [of ?es i] by (fastforce simp: vault_ok_def)
    ultimately show ?thesis
      using ok Some position_update_map [of u ?es i n] position_update_users [of u ?es i n]
      by (simp add: vault_ok_def allowance_def)
  qed
  show "vault_ok t' \<and> allowance t' = (allowance t)(u := None)"
    if "remove_whitelist_entry t u = Inr t'"
  proof -
    from that obtain i where i: "position u ?es = Some i"
      and t': "t' = t\<lparr>vt_whitelist := take i ?es @ drop (Suc i) ?es\<rparr>"
      by (auto simp: remove_whitelist_entry_def res_simps)
    then show ?thesis
      using ok position_remove_map [of ?es u i] remove_nth_distinct [of ?es i]
        remove_nth_subset [of i ?es] position_Some [OF i]
      by (auto simp: vault_ok_def allowance_def)
  qed
qed

end
