(* ===== verification/Whitelist_Codec.thy ===== *)
theory Whitelist_Codec
  imports Whitelist_Vault Anchor_Account
begin

text \<open>
  How the vault of the transfer-hook program lies in its account: the discriminator of the
  account type, then the Borsh encoding that \<open>#[account]\<close> derives from the struct, then
  whatever bytes an earlier, longer vault left behind. The main facts are that a stored vault
  reads back whatever follows it, and that a well-formed vault always fits the account.
\<close>

section \<open>Borsh encoding\<close>

definition whitelist_entry_bytes :: "whitelist_entry \<Rightarrow> u8 list" where
  "whitelist_entry_bytes e = address_bytes (we_user e) @ to_le_bytes 8 (we_amount e)"

definition vault_serialize :: "vault \<Rightarrow> u8 list" where
  "vault_serialize v =
     address_bytes (vt_admin v) @ address_bytes (vt_mint v) @
     address_bytes (vt_vault_token_account v) @
     to_le_bytes 4 (of_nat (length (vt_whitelist v)) :: u32) @
     concat (map whitelist_entry_bytes (vt_whitelist v)) @
     [vt_bump v, vt_mint_bump v, vt_extra_account_meta_bump v]"

definition read_whitelist_entry :: "u8 list \<Rightarrow> (whitelist_entry \<times> u8 list) option" where
  "read_whitelist_entry bs =
     Option.bind (read_le 32 bs) (\<lambda>(u, bs).
     Option.bind (read_le 8 bs) (\<lambda>(n, bs).
     Some (\<lparr>we_user = u, we_amount = n\<rparr>, bs)))"

fun read_whitelist :: "nat \<Rightarrow> u8 list \<Rightarrow> (whitelist_entry list \<times> u8 list) option" where
  "read_whitelist 0 bs = Some ([], bs)"
| "read_whitelist (Suc k) bs =
     Option.bind (read_whitelist_entry bs) (\<lambda>(e, bs).
     Option.bind (read_whitelist k bs) (\<lambda>(es, bs).
     Some (e # es, bs)))"

definition vault_deserialize :: "u8 list \<Rightarrow> vault option" where
  "vault_deserialize bs =
     Option.bind (read_le 32 bs) (\<lambda>(adm, bs).
     Option.bind (read_le 32 bs) (\<lambda>(mint, bs).
     Option.bind (read_le 32 bs) (\<lambda>(acct, bs).
     Option.bind (read_le 4 bs) (\<lambda>(k :: u32, bs).
     Option.bind (read_whitelist (unat k) bs) (\<lambda>(es, bs).
     Option.bind (read_le 1 bs) (\<lambda>(b1, bs).
     Option.bind (read_le 1 bs) (\<lambda>(b2, bs).
     Option.bind (read_le 1 bs) (\<lambda>(b3, bs).
     Some \<lparr>vt_admin = adm, vt_mint = mint, vt_vault_token_account = acct, vt_whitelist = es,
       vt_bump = b1, vt_mint_bump = b2, vt_extra_account_meta_bump = b3\<rparr>))))))))"

section \<open>Reading back\<close>

lemma length_entry_bytes [simp]: "length (whitelist_entry_bytes e) = 40"
  by (simp add: whitelist_entry_bytes_def)

lemma length_entries_bytes:
  "length (concat (map whitelist_entry_bytes es)) = 40 * length es"
  by (induction es) simp_all

lemma length_vault_serialize:
  "length (vault_serialize v) = 103 + 40 * length (vt_whitelist v)"
  by (simp add: vault_serialize_def length_entries_bytes)

lemma vault_LEN_value: "vault_LEN = 743"
  by (simp add: vault_LEN_def MAX_WHITELIST_ENTRIES_def whitelist_entry_LEN_def)

lemma vault_serialize_fits:
  "length (vault_serialize v) \<le> vault_LEN \<longleftrightarrow>
     length (vt_whitelist v) \<le> MAX_WHITELIST_ENTRIES"
  by (auto simp: length_vault_serialize vault_LEN_value MAX_WHITELIST_ENTRIES_def)

lemma read_entry_append [codec_simps]:
  "read_whitelist_entry (whitelist_entry_bytes e @ bs) = Some (e, bs)"
  by (simp add: read_whitelist_entry_def whitelist_entry_bytes_def codec_simps)

lemma read_whitelist_append [codec_simps]:
  "read_whitelist (length es) (concat (map whitelist_entry_bytes es) @ bs) = Some (es, bs)"
  by (induction es) (simp_all add: codec_simps)

lemma vault_deserialize_serialize:
  assumes "length (vt_whitelist v) < 2 ^ 32"
  shows "vault_deserialize (vault_serialize v @ rest) = Some v"
proof -
  have "unat (of_nat (length (vt_whitelist v)) :: u32) = length (vt_whitelist v)"
    using assms by (simp add: unat_of_nat)
  then show ?thesis
    by (simp add: vault_deserialize_def vault_serialize_def codec_simps del: One_nat_def)
qed

interpretation vault_account: anchor_account vault_ok vault_serialize vault_deserialize vault_LEN
proof
  fix v :: vault and rest :: "u8 list"
  assume ok: "vault_ok v"
  then have "length (vt_whitelist v) < 2 ^ 32"
    by (simp add: vault_ok_def MAX_WHITELIST_ENTRIES_def)
  then show "vault_deserialize (vault_serialize v @ rest) = Some v"
    by (rule vault_deserialize_serialize)
  show "length (vault_serialize v) \<le> vault_LEN"
    using ok by (simp add: vault_serialize_fits vault_ok_def)
qed

end
