(* ===== verification/Whitelist_Program.thy ===== *)
theory Whitelist_Program
  imports Whitelist_Codec
begin

text \<open>
  The instructions of the transfer-hook program (\<open>src/lib.rs\<close> and \<open>src/instructions\<close>):
  each is the account validation that Anchor generates from the \<open>#[derive(Accounts)]\<close> struct, in
  its order, then the handler, then the write-back of the accounts marked \<open>mut\<close>. What the
  program calls (address derivation, the account parsers of anchor-spl and spl-token-2022, the
  inits Anchor performs through the system, token and associated-token programs, the account-meta
  list) is a field of \<open>anchor_host\<close>.
\<close>

section \<open>Errors and parameters\<close>

type_synonym wl_error = "vault_error anchor_error"

datatype seed = Seed_Literal "u8 list"

text \<open>An \<open>ExtraAccountMeta\<close> is kept as its packed bytes.\<close>

type_synonym extra_account_meta = "u8 list"

record anchor_host = anchor_env +
  vault_discriminator :: "u8 list"
  load_token_account :: "account \<Rightarrow> wl_error + token_account"
  load_mint :: "account \<Rightarrow> wl_error + unit"
  transferring :: "u8 list \<Rightarrow> wl_error + bool"
  init_program_account ::
    "address \<Rightarrow> address \<Rightarrow> nat \<Rightarrow> u8 list list \<Rightarrow> ledger \<Rightarrow> wl_error + ledger"
  init_mint ::
    "address \<Rightarrow> address \<Rightarrow> u8 \<Rightarrow> address \<Rightarrow> address \<Rightarrow> address \<Rightarrow> address \<Rightarrow> address \<Rightarrow>
      u8 list list \<Rightarrow> ledger \<Rightarrow> wl_error + ledger"
  init_associated ::
    "address \<Rightarrow> address \<Rightarrow> address \<Rightarrow> address \<Rightarrow> address \<Rightarrow> ledger \<Rightarrow> wl_error + ledger"
  meta_new_with_seeds :: "seed list \<Rightarrow> bool \<Rightarrow> bool \<Rightarrow> extra_account_meta option"
  meta_list_size_of :: "nat \<Rightarrow> nat option"
  meta_list_init :: "extra_account_meta list \<Rightarrow> u8 list \<Rightarrow> u8 list option"
  token_mint_to ::
    "address \<Rightarrow> address \<Rightarrow> address \<Rightarrow> address \<Rightarrow> u64 \<Rightarrow> u8 list list \<Rightarrow> ledger \<Rightarrow> wl_error + ledger"

text \<open>\<open>declare_id!("EUkbfr6mqkXx4XFAdFaRQP79kw4ibQbEZwjmxUUkQxao")\<close>, decoded.\<close>

definition whitelist_ID :: address where
  "whitelist_ID = 92639308704488046022684291113548955473902334984644210683468851463538831016904"

section \<open>The vault account\<close>

text \<open>\<open>Account<'info, Vault>\<close>: loading and the write-back at the end of the instruction.\<close>

definition vault_load :: "anchor_host \<Rightarrow> ledger \<Rightarrow> address \<Rightarrow> wl_error + vault" where
  "vault_load h L k = account_load whitelist_ID (vault_discriminator h) vault_deserialize L k"

definition vault_exit :: "anchor_host \<Rightarrow> address \<Rightarrow> vault \<Rightarrow> ledger \<Rightarrow> wl_error + ledger" where
  "vault_exit h k v L = account_exit whitelist_ID (vault_discriminator h) vault_serialize k v L"

section \<open>The account-meta list\<close>

definition extra_account_metas :: "anchor_host \<Rightarrow> wl_error + extra_account_meta list" where
  "extra_account_metas h =
     and_then (ok_or (meta_new_with_seeds h [Seed_Literal (byte_string ''vault'')] False False)
       Panicked) (\<lambda>m.
     Inr [m])"

definition extra_meta_seeds :: "account_info \<Rightarrow> u8 list list" where
  "extra_meta_seeds mint = [byte_string ''extra-account-metas'', address_bytes (ai_key mint)]"

text \<open>The \<open>init\<close> constraint of the list account.\<close>

definition init_extra_account_meta_list ::
  "anchor_host \<Rightarrow> account_info \<Rightarrow> account_info \<Rightarrow> account_info \<Rightarrow> ledger \<Rightarrow>
     wl_error + u8 \<times> ledger" where
  "init_extra_account_meta_list h payer extra mint L =
     and_then (seeds_canonical h whitelist_ID (extra_meta_seeds mint) extra) (\<lambda>b.
     and_then (extra_account_metas h) (\<lambda>metas.
     and_then (ok_or (meta_list_size_of h (length metas)) Panicked) (\<lambda>space.
     and_then (init_program_account h (ai_key payer) (ai_key extra) space
       (extra_meta_seeds mint @ [[b]]) L) (\<lambda>L.
     and_then (writable extra) (\<lambda>_.
     Inr (b, L))))))"

text \<open>Writing the list into the account's data; the error is \<open>e\<close>.\<close>

definition write_extra_account_metas ::
  "anchor_host \<Rightarrow> wl_error \<Rightarrow> account_info \<Rightarrow> ledger \<Rightarrow> wl_error + ledger" where
  "write_extra_account_metas h e extra L =
     and_then (extra_account_metas h) (\<lambda>metas.
     and_then (ok_or (meta_list_init h metas (acc_data (L (ai_key extra)))) e) (\<lambda>bs.
     Inr (L(ai_key extra := (L (ai_key extra))\<lparr>acc_data := bs\<rparr>))))"

definition initialize_transfer_hook ::
  "anchor_host \<Rightarrow> account_info list \<Rightarrow> ledger \<Rightarrow> wl_error + ledger" where
  "initialize_transfer_hook h accounts L =
     (case accounts of
        payer # extra # mint # system # _ \<Rightarrow>
          and_then (signed payer) (\<lambda>_.
          and_then (load_mint h (L (ai_key mint))) (\<lambda>_.
          and_then (program h (\<lambda>p. p = system_program_ID) system) (\<lambda>_.
          and_then (init_extra_account_meta_list h payer extra mint L) (\<lambda>(b, L).
          and_then (writable payer) (\<lambda>_.
          write_extra_account_metas h Panicked extra L)))))
      | _ \<Rightarrow> Inl AccountNotEnoughKeys)"

section \<open>initialize\_vault\<close>

definition initial_vault :: "account_info \<Rightarrow> account_info \<Rightarrow> account_info \<Rightarrow> u8 \<Rightarrow> u8 \<Rightarrow> u8 \<Rightarrow> vault" where
  "initial_vault adm mint acct vb mb eb =
     \<lparr>vt_admin = ai_key adm, vt_mint = ai_key mint, vt_vault_token_account = ai_key acct,
      vt_whitelist = [], vt_bump = vb, vt_mint_bump = mb, vt_extra_account_meta_bump = eb\<rparr>"

definition initialize_vault ::
  "anchor_host \<Rightarrow> account_info list \<Rightarrow> ledger \<Rightarrow> wl_error + ledger" where
  "initialize_vault h accounts L =
     (case accounts of
        adm # vault # mint # acct # extra # token # ata # system # _ \<Rightarrow>
          and_then (signed adm) (\<lambda>_.
          and_then (program h (is_token_program h) token) (\<lambda>_.
          and_then (program h (\<lambda>p. p = associated_token_ID h) ata) (\<lambda>_.
          and_then (program h (\<lambda>p. p = system_program_ID) system) (\<lambda>_.
          and_then (seeds_canonical h whitelist_ID [VAULT_SEED] vault) (\<lambda>vb.
          and_then (init_program_account h (ai_key adm) (ai_key vault) (8 + vault_LEN)
            [VAULT_SEED, [vb]] L) (\<lambda>L.
          and_then (writable vault) (\<lambda>_.
          and_then (seeds_canonical h whitelist_ID [MINT_SEED] mint) (\<lambda>mb.
          and_then (init_mint h (ai_key adm) (ai_key mint) DECIMALS (ai_key vault) (ai_key vault)
            whitelist_ID (ai_key adm) (ai_key token) [MINT_SEED, [mb]] L) (\<lambda>L.
          and_then (writable mint) (\<lambda>_.
          and_then (init_associated h (ai_key adm) (ai_key acct) (ai_key mint) (ai_key vault)
            (ai_key token) L) (\<lambda>L.
          and_then (writable acct) (\<lambda>_.
          and_then (init_extra_account_meta_list h adm extra mint L) (\<lambda>(eb, L).
          and_then (writable adm) (\<lambda>_.
          and_then (write_extra_account_metas h (Called_Program_Error 0) extra L) (\<lambda>L.
          vault_exit h (ai_key vault) (initial_vault adm mint acct vb mb eb) L)))))))))))))))
      | _ \<Rightarrow> Inl AccountNotEnoughKeys)"

section \<open>add\_to\_whitelist and remove\_from\_whitelist\<close>

text \<open>Both have the same accounts: the vault is loaded, its address, mutability and admin checked.\<close>

definition admin_vault ::
  "anchor_host \<Rightarrow> account_info \<Rightarrow> account_info \<Rightarrow> ledger \<Rightarrow> wl_error + vault" where
  "admin_vault h adm vault L =
     and_then (signed adm) (\<lambda>_.
     and_then (vault_load h L (ai_key vault)) (\<lambda>v.
     and_then (writable adm) (\<lambda>_.
     and_then (seeds_with_bump h whitelist_ID [VAULT_SEED] (vt_bump v) vault) (\<lambda>_.
     and_then (writable vault) (\<lambda>_.
     and_then (require (vt_admin v = ai_key adm) ConstraintHasOne) (\<lambda>_.
     Inr v))))))"

definition add_to_whitelist ::
  "anchor_host \<Rightarrow> address \<Rightarrow> u64 \<Rightarrow> account_info list \<Rightarrow> ledger \<Rightarrow> wl_error + ledger" where
  "add_to_whitelist h user amount accounts L =
     (case accounts of
        adm # vault # _ \<Rightarrow>
          and_then (admin_vault h adm vault L) (\<lambda>v.
          and_then (map_err Program_Error (upsert_whitelist_entry v user amount)) (\<lambda>v.
          vault_exit h (ai_key vault) v L))
      | _ \<Rightarrow> Inl AccountNotEnoughKeys)"

definition remove_from_whitelist ::
  "anchor_host \<Rightarrow> address \<Rightarrow> account_info list \<Rightarrow> ledger \<Rightarrow> wl_error + ledger" where
  "remove_from_whitelist h user accounts L =
     (case accounts of
        adm # vault # _ \<Rightarrow>
          and_then (admin_vault h adm vault L) (\<lambda>v.
          and_then (map_err Program_Error (remove_whitelist_entry v user)) (\<lambda>v.
          vault_exit h (ai_key vault) v L))
      | _ \<Rightarrow> Inl AccountNotEnoughKeys)"

section \<open>mint\_tokens\<close>

definition mint_tokens ::
  "anchor_host \<Rightarrow> u64 \<Rightarrow> account_info list \<Rightarrow> ledger \<Rightarrow> wl_error + ledger" where
  "mint_tokens h amount accounts L =
     (case accounts of
        adm # vault # mint # dest # recipient # token # _ \<Rightarrow>
          and_then (signed adm) (\<lambda>_.
          and_then (vault_load h L (ai_key vault)) (\<lambda>v.
          and_then (load_mint h (L (ai_key mint))) (\<lambda>_.
          and_then (load_token_account h (L (ai_key dest))) (\<lambda>t.
          and_then (program h (is_token_program h) token) (\<lambda>_.
          and_then (writable adm) (\<lambda>_.
          and_then (seeds_with_bump h whitelist_ID [VAULT_SEED] (vt_bump v) vault) (\<lambda>_.
          and_then (require (vt_mint v = ai_key mint) ConstraintHasOne) (\<lambda>_.
          and_then (require (vt_admin v = ai_key adm) ConstraintHasOne) (\<lambda>_.
          and_then (seeds_with_bump h whitelist_ID [MINT_SEED] (vt_mint_bump v) mint) (\<lambda>_.
          and_then (writable mint) (\<lambda>_.
          and_then (writable dest) (\<lambda>_.
          and_then (require (ta_owner t = ai_key recipient) ConstraintTokenOwner) (\<lambda>_.
          and_then (require (ta_mint t = ai_key mint) ConstraintTokenMint) (\<lambda>_.
          token_mint_to h (ai_key token) (ai_key mint) (ai_key dest) (ai_key vault) amount
            [VAULT_SEED, [vt_bump v]] L))))))))))))))
      | _ \<Rightarrow> Inl AccountNotEnoughKeys)"

section \<open>transfer\_hook\<close>

definition check_is_transferring ::
  "anchor_host \<Rightarrow> account_info \<Rightarrow> ledger \<Rightarrow> wl_error + unit" where
  "check_is_transferring h source L =
     and_then (transferring h (acc_data (L (ai_key source)))) (\<lambda>b.
     if \<not> b then Inl (Program_Error InvalidVaultInteraction) else Inr ())"

definition transfer_hook_handler ::
  "anchor_host \<Rightarrow> u64 \<Rightarrow> vault \<Rightarrow> account_info \<Rightarrow> token_account \<Rightarrow> account_info \<Rightarrow> token_account \<Rightarrow>
     ledger \<Rightarrow> wl_error + unit" where
  "transfer_hook_handler h amount v source s dest d L =
     and_then (check_is_transferring h source L) (\<lambda>_.
     and_then
       (if ai_key dest = vt_vault_token_account v then Inr (ta_owner s)
        else if ai_key source = vt_vault_token_account v then Inr (ta_owner d)
        else Inl (Program_Error InvalidVaultInteraction)) (\<lambda>interacting_user.
     map_err Program_Error (assert_allowed v interacting_user amount)))"

definition transfer_hook ::
  "anchor_host \<Rightarrow> u64 \<Rightarrow> account_info list \<Rightarrow> ledger \<Rightarrow> wl_error + ledger" where
  "transfer_hook h amount accounts L =
     (case accounts of
        source # mint # dest # owner # extra # vault # _ \<Rightarrow>
          and_then (load_token_account h (L (ai_key source))) (\<lambda>s.
          and_then (load_mint h (L (ai_key mint))) (\<lambda>_.
          and_then (load_token_account h (L (ai_key dest))) (\<lambda>d.
          and_then (vault_load h L (ai_key vault)) (\<lambda>v.
          and_then (require (ta_mint s = ai_key mint) ConstraintTokenMint) (\<lambda>_.
          and_then (require (ta_mint d = ai_key mint) ConstraintTokenMint) (\<lambda>_.
          and_then (seeds_canonical h whitelist_ID (extra_meta_seeds mint) extra) (\<lambda>_.
          and_then (seeds_with_bump h whitelist_ID [VAULT_SEED] (vt_bump v) vault) (\<lambda>_.
          and_then (require (vt_mint v = ai_key mint) ConstraintHasOne) (\<lambda>_.
          and_then
            (require (vt_vault_token_account v = ai_key source \<or>
               vt_vault_token_account v = ai_key dest)
             (Program_Error InvalidVaultInteraction)) (\<lambda>_.
          and_then (transfer_hook_handler h amount v source s dest d L) (\<lambda>_.
          Inr L)))))))))))
      | _ \<Rightarrow> Inl AccountNotEnoughKeys)"

section \<open>The program\<close>

datatype instruction =
    Initialize_Vault
  | Add_To_Whitelist address u64
  | Remove_From_Whitelist address
  | Mint_Tokens u64
  | Initialize_Transfer_Hook
  | Transfer_Hook u64

fun whitelist_transfer_hook_q2 ::
  "anchor_host \<Rightarrow> instruction \<Rightarrow> account_info list \<Rightarrow> ledger \<Rightarrow> wl_error + ledger" where
  "whitelist_transfer_hook_q2 h Initialize_Vault = initialize_vault h"
| "whitelist_transfer_hook_q2 h (Add_To_Whitelist user amount) = add_to_whitelist h user amount"
| "whitelist_transfer_hook_q2 h (Remove_From_Whitelist user) = remove_from_whitelist h user"
| "whitelist_transfer_hook_q2 h (Mint_Tokens amount) = mint_tokens h amount"
| "whitelist_transfer_hook_q2 h Initialize_Transfer_Hook = initialize_transfer_hook h"
| "whitelist_transfer_hook_q2 h (Transfer_Hook amount) = transfer_hook h amount"

end
