(* ===== verification/Whitelist_Steps.thy ===== *)
theory Whitelist_Steps
  imports Whitelist_Program
begin

text \<open>
  The life of the transfer-hook program: instructions sent by anybody, in any order, with
  whatever other programs do in between. The invariant is that one account, the vault's, carries
  the vault discriminator and holds the vault that \<open>initialize_vault\<close> wrote with the whitelist
  changed by the accepted edits. \<open>anchor_law\<close> is what the documentation of Anchor, the system
  program and the token programs promises of the parameters.
\<close>

section \<open>What the documentation promises\<close>

definition discriminator_law :: "anchor_host \<Rightarrow> bool" where
  "discriminator_law h \<longleftrightarrow>
     length (vault_discriminator h) = 8 \<and> vault_discriminator h \<noteq> replicate 8 0 \<and>
     (\<forall>metas bs bs'. meta_list_init h metas bs = Some bs' \<longrightarrow>
        take 8 bs' \<noteq> vault_discriminator h)"

definition init_law :: "anchor_host \<Rightarrow> bool" where
  "init_law h \<longleftrightarrow>
     (\<forall>payer new space seeds L L'. init_program_account h payer new space seeds L = Inr L' \<longrightarrow>
        foreign_change whitelist_ID L L' \<and> acc_owner (L new) = system_program_ID \<and>
        acc_owner (L' new) = whitelist_ID \<and> acc_data (L' new) = replicate space 0)"

definition calls_law :: "anchor_host \<Rightarrow> bool" where
  "calls_law h \<longleftrightarrow>
     (\<forall>payer new d auth ha hp pd tp seeds L L'.
        init_mint h payer new d auth ha hp pd tp seeds L = Inr L' \<longrightarrow> foreign_change whitelist_ID L L') \<and>
     (\<forall>payer new m auth tp L L'.
        init_associated h payer new m auth tp L = Inr L' \<longrightarrow> foreign_change whitelist_ID L L') \<and>
     (\<forall>tp m to auth n seeds L L'.
        token_mint_to h tp m to auth n seeds L = Inr L' \<longrightarrow> foreign_change whitelist_ID L L')"

definition anchor_law :: "anchor_host \<Rightarrow> bool" where
  "anchor_law h \<longleftrightarrow> address_law h \<and> discriminator_law h \<and> init_law h \<and> calls_law h"

lemma anchor_law_discriminator:
  "anchor_law h \<Longrightarrow> length (vault_discriminator h) = 8"
  "anchor_law h \<Longrightarrow> vault_discriminator h \<noteq> replicate 8 0"
  by (simp_all add: anchor_law_def discriminator_law_def)

lemma anchor_law_address:
  "anchor_law h \<Longrightarrow> find_program_address h seeds whitelist_ID = (a, b) \<Longrightarrow>
     create_program_address h (seeds @ [[b]]) whitelist_ID = Some a"
  by (simp add: anchor_law_def address_law_def)

lemma anchor_law_init:
  "anchor_law h \<Longrightarrow> init_program_account h payer new space seeds L = Inr L' \<Longrightarrow>
     foreign_change whitelist_ID L L' \<and> acc_owner (L new) = system_program_ID \<and>
     acc_owner (L' new) = whitelist_ID \<and> acc_data (L' new) = replicate space 0"
  unfolding anchor_law_def init_law_def by (elim conjE) meson

lemma anchor_law_calls:
  "anchor_law h \<Longrightarrow> init_mint h payer new d auth ha hp pd tp seeds L = Inr L' \<Longrightarrow>
     foreign_change whitelist_ID L L'"
  "anchor_law h \<Longrightarrow> init_associated h payer new m auth tp L = Inr L' \<Longrightarrow> foreign_change whitelist_ID L L'"
  "anchor_law h \<Longrightarrow> token_mint_to h tp m to auth n seeds L = Inr L' \<Longrightarrow> foreign_change whitelist_ID L L'"
  unfolding anchor_law_def calls_law_def by (elim conjE, meson)+

lemma anchor_law_metas:
  "anchor_law h \<Longrightarrow> meta_list_init h metas bs = Some bs' \<Longrightarrow> take 8 bs' \<noteq> vault_discriminator h"
  unfolding anchor_law_def discriminator_law_def by (elim conjE) meson

lemma whitelist_ID_not_system [simp]:
  "whitelist_ID \<noteq> system_program_ID" "system_program_ID \<noteq> whitelist_ID"
  by (simp_all add: whitelist_ID_def system_program_ID_def)

section \<open>The vault in account memory\<close>

definition vault_addr :: "anchor_host \<Rightarrow> address" where
  "vault_addr h = fst (find_program_address h [VAULT_SEED] whitelist_ID)"

text \<open>The accounts that Anchor would load as a vault.\<close>

definition marked :: "anchor_host \<Rightarrow> ledger \<Rightarrow> address set" where
  "marked h L = carriers whitelist_ID (vault_discriminator h) L"

definition holds_vault :: "anchor_host \<Rightarrow> vault \<Rightarrow> ledger \<Rightarrow> bool" where
  "holds_vault h v L \<longleftrightarrow>
     account_holds whitelist_ID (vault_discriminator h) vault_serialize vault_LEN (vault_addr h) v L"

lemmas holds_vault_defs = holds_vault_def account_holds_def

lemma vault_load_marked: "vault_load h L k = Inr v \<Longrightarrow> k \<in> marked h L"
  unfolding vault_load_def marked_def by (rule account_load_carrier) simp

lemma vault_load_holds:
  "holds_vault h v L \<Longrightarrow> vault_ok v \<Longrightarrow> vault_load h L (vault_addr h) = Inr v"
  unfolding holds_vault_def vault_load_def by (rule vault_account.load_holds) simp_all

lemma vault_exit_holds:
  assumes law: "anchor_law h" and ok: "vault_ok v"
    and len: "length (acc_data (L (vault_addr h))) = 8 + vault_LEN"
    and own: "acc_owner (L (vault_addr h)) = whitelist_ID"
  obtains L' where "vault_exit h (vault_addr h) v L = Inr L'" and "holds_vault h v L'"
    and "\<And>a. a \<noteq> vault_addr h \<Longrightarrow> L' a = L a"
proof -
  have "length (acc_data (L (vault_addr h))) = length (vault_discriminator h) + vault_LEN"
    using len anchor_law_discriminator(1) [OF law] by simp
  from vault_account.exit_holds [where L = L, OF ok own this] show ?thesis
    unfolding vault_exit_def holds_vault_def using that [unfolded vault_exit_def holds_vault_def]
    by blast
qed

section \<open>Steps that leave the vault alone\<close>

lemma foreign_change_marked:
  assumes "anchor_law h" and "foreign_change whitelist_ID L L'"
  shows "marked h L' \<subseteq> marked h L"
  unfolding marked_def
  by (rule foreign_change_carriers [OF _ assms(2)])
    (use anchor_law_discriminator [OF assms(1)] in simp)

lemma foreign_change_holds:
  "foreign_change whitelist_ID L L' \<Longrightarrow> holds_vault h v L \<Longrightarrow> holds_vault h v L'"
  unfolding holds_vault_def by (rule foreign_change_account_holds)

lemma init_extra_effect:
  assumes law: "anchor_law h" and "init_extra_account_meta_list h payer extra mint L = Inr (b, L')"
  shows "foreign_change whitelist_ID L L'" and "acc_owner (L (ai_key extra)) = system_program_ID"
  using assms(2) anchor_law_init [OF law]
  by (auto simp: init_extra_account_meta_list_def res_simps)

lemma write_extra_effect:
  assumes law: "anchor_law h" and "write_extra_account_metas h e extra L = Inr L'"
  shows "marked h L' \<subseteq> marked h L" and "\<And>a. a \<noteq> ai_key extra \<Longrightarrow> L' a = L a"
  using assms(2) anchor_law_metas [OF law]
  by (auto simp: write_extra_account_metas_def res_simps marked_def carriers_def anchor_law_discriminator [OF law] split: if_splits)

lemma holds_other:
  "L' (vault_addr h) = L (vault_addr h) \<Longrightarrow> holds_vault h v L' = holds_vault h v L"
  by (simp add: holds_vault_defs)

section \<open>initialize\_vault\<close>

text \<open>Nothing that \<open>initialize_vault\<close> does after creating the vault touches it.\<close>

lemma other_inits_keep:
  assumes law: "anchor_law h" and own: "acc_owner (L1 (vault_addr h)) = whitelist_ID"
    and L2: "init_mint h p m d a f w q t ms L1 = Inr L2"
    and L3: "init_associated h p' acct m' a' t' L2 = Inr L3"
    and L4: "init_extra_account_meta_list h adm extra mint L3 = Inr (eb, L4)"
    and L5: "write_extra_account_metas h er extra L4 = Inr L5"
  shows "acc_owner (L5 (vault_addr h)) = whitelist_ID"
    and "acc_data (L5 (vault_addr h)) = acc_data (L1 (vault_addr h))"
    and "marked h L5 \<subseteq> marked h L1"
proof -
  let ?A = "vault_addr h"
  note f2 = anchor_law_calls(1) [OF law L2] and f3 = anchor_law_calls(2) [OF law L3]
    and i4 = init_extra_effect [OF law L4] and w5 = write_extra_effect [OF law L5]
  have s2: "same_state (L2 ?A) (L1 ?A)"
    by (rule foreign_change_same [OF f2 own])
  then have s3: "same_state (L3 ?A) (L2 ?A)"
    using own by (intro foreign_change_same [OF f3]) (simp add: same_state_def)
  have own3: "acc_owner (L3 ?A) = whitelist_ID"
    using s2 s3 own by (simp add: same_state_def)
  have s4: "same_state (L4 ?A) (L3 ?A)"
    by (rule foreign_change_same [OF i4(1) own3])
  have "ai_key extra \<noteq> ?A"
    using i4(2) own3 by auto
  then have "L5 ?A = L4 ?A"
    using w5(2) by metis
  with s2 s3 s4 own show "acc_owner (L5 ?A) = whitelist_ID" "acc_data (L5 ?A) = acc_data (L1 ?A)"
    by (simp_all add: same_state_def)
  show "marked h L5 \<subseteq> marked h L1"
    using foreign_change_marked [OF law] f2 f3 i4(1) w5(1) by blast
qed

lemma initialize_vault_effect:
  assumes law: "anchor_law h" and run: "initialize_vault h accounts L = Inr L'"
    and none: "marked h L = {}"
  obtains adm vault mint acct extra token ata system rest vb mb eb where
    "accounts = adm # vault # mint # acct # extra # token # ata # system # rest"
    and "ai_is_signer adm" and "find_program_address h [VAULT_SEED] whitelist_ID = (vault_addr h, vb)"
    and "holds_vault h (initial_vault adm mint acct vb mb eb) L'" and "marked h L' \<subseteq> {vault_addr h}"
proof -
  from run obtain adm vault mint acct extra token ata system rest where
    accounts: "accounts = adm # vault # mint # acct # extra # token # ata # system # rest"
    by (auto simp: initialize_vault_def split: list.splits)
  from run obtain vb mb eb L1 L2 L3 L4 L5 where signs: "ai_is_signer adm"
    and addr: "find_program_address h [VAULT_SEED] whitelist_ID = (ai_key vault, vb)"
    and L1: "init_program_account h (ai_key adm) (ai_key vault) (8 + vault_LEN)
       [VAULT_SEED, [vb]] L = Inr L1"
    and L2: "init_mint h (ai_key adm) (ai_key mint) DECIMALS (ai_key vault) (ai_key vault)
       whitelist_ID (ai_key adm) (ai_key token) [MINT_SEED, [mb]] L1 = Inr L2"
    and L3: "init_associated h (ai_key adm) (ai_key acct) (ai_key mint) (ai_key vault)
       (ai_key token) L2 = Inr L3"
    and L4: "init_extra_account_meta_list h adm extra mint L3 = Inr (eb, L4)"
    and L5: "write_extra_account_metas h (Called_Program_Error 0) extra L4 = Inr L5"
    and L': "vault_exit h (ai_key vault) (initial_vault adm mint acct vb mb eb) L5 = Inr L'"
    unfolding accounts by (auto simp: initialize_vault_def res_simps split: prod.splits)
  have A: "ai_key vault = vault_addr h" and find: "find_program_address h [VAULT_SEED] whitelist_ID = (vault_addr h, vb)"
    using addr by (simp_all add: vault_addr_def)
  let ?A = "vault_addr h"
  note i1 = anchor_law_init [OF law L1, unfolded A]
  have a1: "acc_owner (L1 ?A) = whitelist_ID" and d1: "acc_data (L1 ?A) = replicate (8 + vault_LEN) 0"
    using i1 by simp_all
  note keep = other_inits_keep [OF law a1 L2 L3 L4 L5]
  have own: "acc_owner (L5 ?A) = whitelist_ID" and data: "length (acc_data (L5 ?A)) = 8 + vault_LEN"
    using keep(1,2) d1 by simp_all
  have none5: "marked h L5 = {}"
    using foreign_change_marked [OF law, of L L1] i1 keep(3) none by simp
  have ok: "vault_ok (initial_vault adm mint acct vb mb eb)"
    by (simp add: vault_ok_def initial_vault_def)
  obtain L6 where "vault_exit h ?A (initial_vault adm mint acct vb mb eb) L5 = Inr L6"
    and holds: "holds_vault h (initial_vault adm mint acct vb mb eb) L6"
    and other: "\<And>a. a \<noteq> ?A \<Longrightarrow> L6 a = L5 a"
    by (rule vault_exit_holds [where L = L5, OF law ok data own]) blast
  then have L6: "L6 = L'"
    using L' A by simp
  have "marked h L' \<subseteq> {?A}"
    using carriers_other [of ?A L6 L5 whitelist_ID "vault_discriminator h"] none5 other L6
    by (simp add: marked_def)
  with accounts signs find holds L6 show ?thesis
    using that by blast
qed

lemma initialize_vault_once:
  assumes law: "anchor_law h" and "holds_vault h v L"
  shows "initialize_vault h accounts L \<noteq> Inr L'"
proof
  assume "initialize_vault h accounts L = Inr L'"
  then obtain adm k vb L1 where
    addr: "find_program_address h [VAULT_SEED] whitelist_ID = (k, vb)"
    and L1: "init_program_account h adm k (8 + vault_LEN) [VAULT_SEED, [vb]] L = Inr L1"
    by (auto simp: initialize_vault_def res_simps split: prod.splits list.splits)
  have "acc_owner (L (vault_addr h)) = system_program_ID"
    using anchor_law_init [OF law L1] addr by (simp add: vault_addr_def)
  with assms(2) show False by (simp add: holds_vault_defs)
qed

section \<open>Runs\<close>

text \<open>The edit an instruction asks for, with the account that should have signed it.\<close>

fun requested_edit :: "instruction \<Rightarrow> account_info list \<Rightarrow> (account_info \<times> edit) list" where
  "requested_edit (Add_To_Whitelist user amount) (a # _) = [(a, Allow user amount)]"
| "requested_edit (Remove_From_Whitelist user) (a # _) = [(a, Disallow user)]"
| "requested_edit _ _ = []"

text \<open>
  A run from the successful \<open>initialize_vault\<close> that wrote \<open>v0\<close>, with the edits of the
  instructions that succeeded, oldest first.
\<close>

inductive wl_run :: "anchor_host \<Rightarrow> vault \<Rightarrow> (account_info \<times> edit) list \<Rightarrow> ledger \<Rightarrow> bool"
  for h :: anchor_host where
  start:
    "initialize_vault h (adm # vault # rest) L = Inr L' \<Longrightarrow> marked h L = {} \<Longrightarrow>
     vault_load h L' (ai_key vault) = Inr v0 \<Longrightarrow> wl_run h v0 [] L'"
| instruction:
    "wl_run h v0 log L \<Longrightarrow> whitelist_transfer_hook_q2 h i accounts L = Inr L' \<Longrightarrow>
     wl_run h v0 (log @ requested_edit i accounts) L'"
| foreign: "wl_run h v0 log L \<Longrightarrow> foreign_change whitelist_ID L L' \<Longrightarrow> wl_run h v0 log L'"

text \<open>The allowances that a log of edits leaves.\<close>

definition allowed_by :: "(account_info \<times> edit) list \<Rightarrow> address \<rightharpoonup> u64" where
  "allowed_by log = fold (edit_map \<circ> snd) log Map.empty"

lemma allowed_by_simps [simp]:
  "allowed_by [] = Map.empty"
  "allowed_by [(a, e)] = edit_map e Map.empty"
  "allowed_by (log @ [(a, e)]) = edit_map e (allowed_by log)"
  by (simp_all add: allowed_by_def)

text \<open>Two vaults that differ at most in their whitelist.\<close>

definition same_settings :: "vault \<Rightarrow> vault \<Rightarrow> bool" where
  "same_settings v w \<longleftrightarrow>
     vt_admin v = vt_admin w \<and> vt_mint v = vt_mint w \<and>
     vt_vault_token_account v = vt_vault_token_account w \<and> vt_bump v = vt_bump w \<and>
     vt_mint_bump v = vt_mint_bump w \<and>
     vt_extra_account_meta_bump v = vt_extra_account_meta_bump w"

text \<open>What holds all along the run: the vault \<open>v\<close> is where and what it should be.\<close>

definition vault_inv :: "anchor_host \<Rightarrow> vault \<Rightarrow> (account_info \<times> edit) list \<Rightarrow> ledger \<Rightarrow> vault \<Rightarrow> bool"
  where
  "vault_inv h v0 log L v \<longleftrightarrow>
     holds_vault h v L \<and> marked h L \<subseteq> {vault_addr h} \<and> vault_ok v \<and>
     same_settings v v0 \<and> allowance v = allowed_by log \<and>
     create_program_address h [VAULT_SEED, [vt_bump v]] whitelist_ID = Some (vault_addr h) \<and>
     (\<forall>(a, e)\<in>set log. ai_is_signer a \<and> ai_key a = vt_admin v0)"

lemma vault_inv_load:
  assumes "anchor_law h" and "vault_inv h v0 log L v"
  shows "vault_load h L (vault_addr h) = Inr v"
    and "vault_load h L k = Inr v' \<Longrightarrow> k = vault_addr h \<and> v' = v"
proof -
  show load: "vault_load h L (vault_addr h) = Inr v"
    using assms vault_load_holds by (simp add: vault_inv_def)
  assume k: "vault_load h L k = Inr v'"
  then have "k = vault_addr h"
    using vault_load_marked [OF k] assms(2) by (auto simp: vault_inv_def)
  with k load show "k = vault_addr h \<and> v' = v"
    by simp
qed

text \<open>A step that leaves the vault alone keeps the invariant, with the same vault.\<close>

lemma vault_inv_keep:
  assumes "vault_inv h v0 log L v" and "marked h L' \<subseteq> marked h L" and "holds_vault h v L'"
  shows "vault_inv h v0 log L' v"
  using assms by (auto simp: vault_inv_def)

lemma vault_inv_foreign:
  assumes "anchor_law h" and "vault_inv h v0 log L v" and "foreign_change whitelist_ID L L'"
  shows "vault_inv h v0 log L' v"
  using assms foreign_change_marked foreign_change_holds
  by (intro vault_inv_keep [OF assms(2)]) (auto simp: vault_inv_def)

lemma admin_vault_Inr:
  "admin_vault h adm vault L = Inr v \<longleftrightarrow>
     ai_is_signer adm \<and> vault_load h L (ai_key vault) = Inr v \<and> ai_is_writable adm \<and>
     create_program_address h [VAULT_SEED, [vt_bump v]] whitelist_ID = Some (ai_key vault) \<and>
     ai_is_writable vault \<and> vt_admin v = ai_key adm"
  by (auto simp: admin_vault_def res_simps)

text \<open>An edit of the vault by its admin, written back.\<close>

lemma vault_inv_edit:
  assumes law: "anchor_law h" and inv: "vault_inv h v0 log L v"
    and edit: "whitelist.apply_edit e v = Inr v'"
    and signed: "ai_is_signer a" "ai_key a = vt_admin v0"
    and same: "same_settings v' v"
  obtains L' where "vault_exit h (vault_addr h) v' L = Inr L'"
    and "vault_inv h v0 (log @ [(a, e)]) L' v'"
proof -
  have ok: "vault_ok v'" and m: "allowance v' = edit_map e (allowance v)"
    using whitelist.apply_edit_Inr [OF _ edit] inv by (auto simp: vault_inv_def)
  have own: "acc_owner (L (vault_addr h)) = whitelist_ID"
    and len: "length (acc_data (L (vault_addr h))) = 8 + vault_LEN"
    using inv anchor_law_discriminator(1) [OF law] by (auto simp: vault_inv_def holds_vault_defs)
  obtain L' where exit: "vault_exit h (vault_addr h) v' L = Inr L'"
    and holds: "holds_vault h v' L'" and other: "\<And>a. a \<noteq> vault_addr h \<Longrightarrow> L' a = L a"
    by (rule vault_exit_holds [where L = L, OF law ok len own]) blast
  have "marked h L' \<subseteq> {vault_addr h}"
    using carriers_other [of "vault_addr h" L' L whitelist_ID "vault_discriminator h"] other inv
    by (auto simp: vault_inv_def marked_def)
  moreover have "vt_bump v' = vt_bump v"
    using same by (simp add: same_settings_def)
  moreover have "same_settings v' v0"
    using inv same by (simp add: same_settings_def vault_inv_def)
  ultimately have "vault_inv h v0 (log @ [(a, e)]) L' v'"
    using inv holds ok m signed by (auto simp: vault_inv_def)
  with exit show ?thesis by (rule that)
qed

lemma edit_same:
  "upsert_whitelist_entry v u n = Inr v' \<Longrightarrow> same_settings v' v"
  "remove_whitelist_entry v u = Inr v' \<Longrightarrow> same_settings v' v"
  by (auto simp: upsert_whitelist_entry_def remove_whitelist_entry_def same_settings_def res_simps
      split: if_splits option.splits)

section \<open>The invariant\<close>

lemma vault_inv_start:
  assumes law: "anchor_law h" and run: "initialize_vault h (adm # vault # rest) L = Inr L'"
    and none: "marked h L = {}" and load: "vault_load h L' (ai_key vault) = Inr v0"
  shows "vault_inv h v0 [] L' v0"
proof -
  obtain adm' vault' mint acct extra token ata system rest' vb mb eb where
    find: "find_program_address h [VAULT_SEED] whitelist_ID = (vault_addr h, vb)"
    and holds: "holds_vault h (initial_vault adm' mint acct vb mb eb) L'"
    and marked: "marked h L' \<subseteq> {vault_addr h}"
    by (rule initialize_vault_effect [OF law run none]) blast
  let ?v = "initial_vault adm' mint acct vb mb eb"
  have ok: "vault_ok ?v"
    by (simp add: vault_ok_def initial_vault_def)
  have "ai_key vault = vault_addr h"
    using vault_load_marked [OF load] marked by blast
  then have "v0 = ?v"
    using load vault_load_holds [OF holds ok] by simp
  moreover have "create_program_address h [VAULT_SEED, [vb]] whitelist_ID = Some (vault_addr h)"
    using anchor_law_address [OF law find] by simp
  ultimately show ?thesis
    using holds marked ok
    by (simp add: vault_inv_def same_settings_def allowance_def initial_vault_def)
qed

lemma initialize_transfer_hook_keeps:
  assumes law: "anchor_law h" and inv: "vault_inv h v0 log L v"
    and run: "initialize_transfer_hook h accounts L = Inr L'"
  shows "vault_inv h v0 log L' v"
proof -
  from run obtain payer extra mint b L1 where
    L1: "init_extra_account_meta_list h payer extra mint L = Inr (b, L1)"
    and L2: "write_extra_account_metas h Panicked extra L1 = Inr L'"
    by (auto simp: initialize_transfer_hook_def res_simps split: list.splits)
  note i = init_extra_effect [OF law L1] and w = write_extra_effect [OF law L2]
  have inv1: "vault_inv h v0 log L1 v"
    using vault_inv_foreign [OF law inv i(1)] .
  have "ai_key extra \<noteq> vault_addr h"
    using i(2) inv by (auto simp: vault_inv_def holds_vault_defs)
  then have "L' (vault_addr h) = L1 (vault_addr h)"
    using w(2) by metis
  then have "holds_vault h v L'"
    using inv1 by (simp add: vault_inv_def holds_vault_defs)
  with inv1 w(1) show ?thesis by (rule vault_inv_keep)
qed

lemma admin_edit_step:
  assumes law: "anchor_law h" and inv: "vault_inv h v0 log L v"
    and adm: "admin_vault h a vault L = Inr v1" and edit: "whitelist.apply_edit e v1 = Inr v2"
    and same: "same_settings v2 v1" and exit: "vault_exit h (ai_key vault) v2 L = Inr L'"
  shows "vault_inv h v0 (log @ [(a, e)]) L' v2"
proof -
  have v1: "ai_key vault = vault_addr h" "v1 = v"
    using adm vault_inv_load(2) [OF law inv] by (auto simp: admin_vault_Inr)
  have signed: "ai_is_signer a" "ai_key a = vt_admin v0"
    using adm inv v1 by (auto simp: admin_vault_Inr vault_inv_def same_settings_def)
  obtain L2 where "vault_exit h (vault_addr h) v2 L = Inr L2"
    and "vault_inv h v0 (log @ [(a, e)]) L2 v2"
    by (rule vault_inv_edit [OF law inv edit [unfolded v1] signed same [unfolded v1]]) blast
  with exit v1 show ?thesis by simp
qed

lemma instruction_step:
  assumes law: "anchor_law h" and inv: "vault_inv h v0 log L v"
    and run: "whitelist_transfer_hook_q2 h i accounts L = Inr L'"
  shows "\<exists>v'. vault_inv h v0 (log @ requested_edit i accounts) L' v'"
proof (cases i)
  case Initialize_Vault
  have "holds_vault h v L"
    using inv by (simp add: vault_inv_def)
  with run Initialize_Vault initialize_vault_once [OF law, of v L accounts L'] show ?thesis
    by simp
next
  case (Add_To_Whitelist user amount)
  with run obtain a vault rest v1 v2 where accounts: "accounts = a # vault # rest"
    and v1: "admin_vault h a vault L = Inr v1"
    and v2: "upsert_whitelist_entry v1 user amount = Inr v2"
    and exit: "vault_exit h (ai_key vault) v2 L = Inr L'"
    by (auto simp: add_to_whitelist_def res_simps split: list.splits)
  show ?thesis
    using admin_edit_step [OF law inv v1, of "Allow user amount" v2 L'] edit_same(1) [OF v2] v2 exit
    unfolding accounts Add_To_Whitelist by auto
next
  case (Remove_From_Whitelist user)
  with run obtain a vault rest v1 v2 where accounts: "accounts = a # vault # rest"
    and v1: "admin_vault h a vault L = Inr v1"
    and v2: "remove_whitelist_entry v1 user = Inr v2"
    and exit: "vault_exit h (ai_key vault) v2 L = Inr L'"
    by (auto simp: remove_from_whitelist_def res_simps split: list.splits)
  show ?thesis
    using admin_edit_step [OF law inv v1, of "Disallow user" v2 L'] edit_same(2) [OF v2] v2 exit
    unfolding accounts Remove_From_Whitelist by auto
next
  case (Mint_Tokens amount)
  with run have "foreign_change whitelist_ID L L'"
    by (auto simp: mint_tokens_def res_simps split: list.splits intro: anchor_law_calls(3) [OF law])
  with vault_inv_foreign [OF law inv] Mint_Tokens show ?thesis by auto
next
  case Initialize_Transfer_Hook
  with run initialize_transfer_hook_keeps [OF law inv] show ?thesis by auto
next
  case (Transfer_Hook amount)
  with run have "L' = L"
    by (auto simp: transfer_hook_def res_simps split: list.splits)
  with inv Transfer_Hook show ?thesis by auto
qed

theorem wl_run_inv:
  assumes "anchor_law h" and "wl_run h v0 log L"
  shows "\<exists>v. vault_inv h v0 log L v"
  using assms(2)
proof induction
  case (start adm vault rest L L' v0)
  then show ?case
    using vault_inv_start [OF assms(1)] by blast
next
  case (instruction v0 log L i accounts L')
  then show ?case
    using instruction_step [OF assms(1)] by blast
next
  case (foreign v0 log L L')
  then show ?case
    using vault_inv_foreign [OF assms(1)] by blast
qed

end
