(* ===== verification/Whitelist_Theorems.thy ===== *)
theory Whitelist_Theorems
  imports Whitelist_Steps
begin

text \<open>
  The properties of the transfer-hook program, and a small host on which they are applied: the
  vault at address 1000, its mint at 1001, the account-meta list at 1002, the admin 10 and the
  vault's token account 40.
\<close>

section \<open>A host\<close>

definition demo_find :: "u8 list list \<Rightarrow> address" where
  "demo_find seeds = (if seeds = [VAULT_SEED] then 1000 else if seeds = [MINT_SEED] then 1001 else 1002)"

definition demo_token :: "address \<Rightarrow> address \<Rightarrow> u64 \<Rightarrow> u8 \<Rightarrow> account" where
  "demo_token mint own n flag =
     \<lparr>acc_lamports = 1, acc_owner = 7,
      acc_data = address_bytes mint @ address_bytes own @ to_le_bytes 8 n @ [flag]\<rparr>"

definition wl_load_token :: "account \<Rightarrow> wl_error + token_account" where
  "wl_load_token a =
     (if acc_owner a = 7 \<and> length (acc_data a) = 73 then
        Inr \<lparr>ta_mint = from_le_bytes (slice 0 32 (acc_data a)),
             ta_owner = from_le_bytes (slice 32 32 (acc_data a)),
             ta_amount = from_le_bytes (slice 64 8 (acc_data a))\<rparr>
      else Inl AccountDidNotDeserialize)"

text \<open>Creating an account where the system program has none, and writing a token account.\<close>

definition demo_put :: "address \<Rightarrow> account \<Rightarrow> ledger \<Rightarrow> wl_error + ledger" where
  "demo_put k a L =
     (if acc_owner (L k) = system_program_ID \<and> acc_data (L k) = [] then Inr (L(k := a))
      else Inl (Called_Program_Error 1))"

definition demo_mint_to :: "address \<Rightarrow> u64 \<Rightarrow> ledger \<Rightarrow> wl_error + ledger" where
  "demo_mint_to k n L =
     and_then (wl_load_token (L k)) (\<lambda>t.
     Inr (L(k := demo_token (ta_mint t) (ta_owner t) (ta_amount t + n) 0)))"

definition wl_host :: anchor_host where
  "wl_host =
     \<lparr>create_program_address =
        (\<lambda>seeds p. if seeds = [] then None else Some (demo_find (butlast seeds))),
      find_program_address = (\<lambda>seeds p. (demo_find seeds, 255)),
      is_executable = (\<lambda>_. True),
      is_token_program = (\<lambda>p. p = 7),
      associated_token_ID = 8,
      vault_discriminator = [211, 8, 232, 43, 2, 152, 117, 119],
      load_token_account = wl_load_token,
      load_mint = (\<lambda>a. if acc_owner a = 7 \<and> acc_data a = [9] then Inr ()
        else Inl AccountDidNotDeserialize),
      transferring = (\<lambda>bs. Inr (last bs = 1)),
      init_program_account = (\<lambda>payer new space seeds L.
        demo_put new \<lparr>acc_lamports = 1, acc_owner = whitelist_ID, acc_data = replicate space 0\<rparr> L),
      init_mint = (\<lambda>payer new d auth ha hp pd tp seeds L.
        demo_put new \<lparr>acc_lamports = 1, acc_owner = 7, acc_data = [d]\<rparr> L),
      init_associated = (\<lambda>payer new m auth tp L. demo_put new (demo_token m auth 0 0) L),
      meta_new_with_seeds = (\<lambda>seeds s w. Some [1]),
      meta_list_size_of = (\<lambda>n. Some (16 + n)),
      meta_list_init = (\<lambda>metas bs. Some (105 # concat metas)),
      token_mint_to = (\<lambda>tp m to auth n seeds L. demo_mint_to to n L)\<rparr>"

lemma demo_put_foreign:
  assumes "demo_put k a L = Inr L'"
    and "acc_owner a = whitelist_ID \<Longrightarrow> \<exists>n. acc_data a = replicate n 0"
  shows "foreign_change whitelist_ID L L'"
  using assms
  by (auto simp: demo_put_def foreign_change_def same_state_def split: if_splits)

lemma seven_not_program [simp]: "(7 :: address) \<noteq> whitelist_ID" "whitelist_ID \<noteq> (7 :: address)"
  by (simp_all add: whitelist_ID_def)

lemma demo_mint_foreign: "demo_mint_to k n L = Inr L' \<Longrightarrow> foreign_change whitelist_ID L L'"
  by (auto simp: demo_mint_to_def wl_load_token_def demo_token_def foreign_change_def same_state_def
      res_simps split: if_splits)

lemma wl_host_calls: "calls_law wl_host"
  unfolding calls_law_def
  by (auto simp: wl_host_def demo_token_def elim!: demo_put_foreign demo_mint_foreign)

lemma wl_host_init: "init_law wl_host"
  unfolding init_law_def
proof (intro allI impI)
  fix payer new space seeds L L'
  assume i: "init_program_account wl_host payer new space seeds L = Inr L'"
  then have "foreign_change whitelist_ID L L'"
    by (auto simp: wl_host_def elim!: demo_put_foreign)
  with i show "foreign_change whitelist_ID L L' \<and> acc_owner (L new) = system_program_ID \<and>
      acc_owner (L' new) = whitelist_ID \<and> acc_data (L' new) = replicate space 0"
    by (auto simp: wl_host_def demo_put_def split: if_splits)
qed

lemma wl_host_discriminator: "discriminator_law wl_host"
proof -
  have "vault_discriminator wl_host \<noteq> replicate 8 0"
    by (simp add: wl_host_def numeral_eq_Suc)
  then show ?thesis
    by (auto simp: discriminator_law_def wl_host_def)
qed

lemma wl_host_law: "anchor_law wl_host"
  using wl_host_calls wl_host_init wl_host_discriminator
  unfolding anchor_law_def address_law_def by (auto simp: wl_host_def)

section \<open>A run: set up, then allow user 50 to move 100\<close>

definition info :: "address \<Rightarrow> bool \<Rightarrow> account_info" where
  "info k s = \<lparr>ai_key = k, ai_is_signer = s, ai_is_writable = True\<rparr>"

definition wl_start :: ledger where
  "wl_start = (\<lambda>_. closed_account)(41 := demo_token 1001 50 500 1)"

definition wl_vault :: vault where
  "wl_vault = initial_vault (info 10 True) (info 1001 False) (info 40 False) 255 255 255"

definition vault_account :: "vault \<Rightarrow> nat \<Rightarrow> account" where
  "vault_account v n =
     \<lparr>acc_lamports = 1, acc_owner = whitelist_ID,
      acc_data = vault_discriminator wl_host @ vault_serialize v @ replicate n 0\<rparr>"

definition wl_ready :: ledger where
  "wl_ready =
     wl_start(1000 := vault_account wl_vault 640, 1001 := \<lparr>acc_lamports = 1, acc_owner = 7, acc_data = [9]\<rparr>,
       40 := demo_token 1001 1000 0 0,
       1002 := \<lparr>acc_lamports = 1, acc_owner = whitelist_ID, acc_data = [105, 1]\<rparr>)"

definition wl_allowed :: vault where
  "wl_allowed = wl_vault\<lparr>vt_whitelist := [\<lparr>we_user = 50, we_amount = 100\<rparr>]\<rparr>"

definition wl_open :: ledger where
  "wl_open = wl_ready(1000 := vault_account wl_allowed 600)"

lemma demo_find_simps [simp]:
  "demo_find [VAULT_SEED] = 1000"
  "demo_find [MINT_SEED] = 1001"
  "demo_find (extra_meta_seeds mint) = 1002"
  by (simp_all add: demo_find_def VAULT_SEED_def MINT_SEED_def extra_meta_seeds_def)

lemma wl_setup:
  "initialize_vault wl_host
     [info 10 True, info 1000 False, info 1001 False, info 40 False, info 1002 False,
      info 7 False, info 8 False, info 0 False] wl_start = Inr wl_ready"
proof -
  have len: "length (vault_serialize wl_vault) = 103"
    by (simp add: length_vault_serialize wl_vault_def initial_vault_def)
  show ?thesis
    using len
    by (simp add: initialize_vault_def signed_def writable_def program_def require_def
        seeds_canonical_def init_extra_account_meta_list_def write_extra_account_metas_def
        extra_account_metas_def vault_exit_def account_exit_def write_over_def demo_put_def wl_start_def info_def
        wl_ready_def vault_account_def closed_account_def vault_LEN_value wl_host_def Let_def
        demo_token_def DECIMALS_def wl_vault_def fun_eq_iff system_program_ID_def)
qed

lemma wl_start_marked: "marked wl_host wl_start = {}"
  by (auto simp: marked_def carriers_def wl_start_def closed_account_def demo_token_def split: if_splits)

lemma vault_addr_demo [simp]: "vault_addr wl_host = 1000"
  by (simp add: vault_addr_def wl_host_def)

lemma load_vault_account:
  assumes "vault_ok v" and "L 1000 = vault_account v (40 * (16 - length (vt_whitelist v)))"
  shows "vault_load wl_host L 1000 = Inr v"
proof -
  have "length (vt_whitelist v) \<le> 16"
    using assms(1) by (simp add: vault_ok_def MAX_WHITELIST_ENTRIES_def)
  then have "holds_vault wl_host v L"
    using assms(2) anchor_law_discriminator(1) [OF wl_host_law]
    by (auto simp: holds_vault_defs vault_account_def vault_LEN_value length_vault_serialize)
  then show ?thesis
    using vault_load_holds [OF _ assms(1), of wl_host L] by simp
qed

lemma wl_ready_load: "vault_load wl_host wl_ready 1000 = Inr wl_vault"
  by (rule load_vault_account)
    (simp_all add: wl_ready_def wl_vault_def initial_vault_def vault_ok_def)

lemma wl_ready_run: "wl_run wl_host wl_vault [] wl_ready"
  by (rule wl_run.start [OF wl_setup wl_start_marked])
    (simp add: info_def wl_ready_load)

lemma wl_allow:
  "whitelist_transfer_hook_q2 wl_host (Add_To_Whitelist 50 100)
     [info 10 True, info 1000 False] wl_ready = Inr wl_open"
proof -
  have len: "length (vault_serialize wl_allowed) = 143" "length (vault_serialize wl_vault) = 103"
    by (simp_all add: length_vault_serialize wl_vault_def wl_allowed_def initial_vault_def)
  have adm: "admin_vault wl_host (info 10 True) (info 1000 False) wl_ready = Inr wl_vault"
    using wl_ready_load
    by (simp add: admin_vault_Inr info_def)
      (simp add: wl_vault_def initial_vault_def info_def wl_host_def)
  have upd: "upsert_whitelist_entry wl_vault 50 100 = Inr wl_allowed"
    by (simp add: upsert_whitelist_entry_def wl_vault_def wl_allowed_def initial_vault_def
        MAX_WHITELIST_ENTRIES_def)
  have "vault_exit wl_host 1000 wl_allowed wl_ready = Inr wl_open"
    using len anchor_law_discriminator(1) [OF wl_host_law]
    by (simp add: vault_exit_def account_exit_def wl_ready_def write_over_def vault_account_def wl_open_def fun_eq_iff)
  then show ?thesis
    by (simp add: add_to_whitelist_def adm upd) (simp add: info_def)
qed

lemma wl_open_run: "wl_run wl_host wl_vault [(info 10 True, Allow 50 100)] wl_open"
  using wl_run.instruction [OF wl_ready_run wl_allow] by simp

section \<open>When an instruction succeeds\<close>

text \<open>Who deals with the vault in a transfer: the owner of the other side.\<close>

definition counterparty ::
  "vault \<Rightarrow> address \<Rightarrow> token_account \<Rightarrow> address \<Rightarrow> token_account \<Rightarrow> address option" where
  "counterparty v source s dest d =
     (if dest = vt_vault_token_account v then Some (ta_owner s)
      else if source = vt_vault_token_account v then Some (ta_owner d)
      else None)"

lemma counterparty_Some:
  "counterparty v source s dest d = Some u \<Longrightarrow>
     vt_vault_token_account v = source \<or> vt_vault_token_account v = dest"
  by (auto simp: counterparty_def split: if_splits)

lemma transfer_hook_Inr:
  "transfer_hook h n (source # mint # dest # owner # extra # vault # rest) L = Inr L' \<longleftrightarrow>
     (\<exists>s d v. vault_load h L (ai_key vault) = Inr v \<and> L' = L \<and>
        load_token_account h (L (ai_key source)) = Inr s \<and> load_mint h (L (ai_key mint)) = Inr () \<and>
        load_token_account h (L (ai_key dest)) = Inr d \<and>
        ta_mint s = ai_key mint \<and> ta_mint d = ai_key mint \<and>
        fst (find_program_address h (extra_meta_seeds mint) whitelist_ID) = ai_key extra \<and>
        create_program_address h [VAULT_SEED, [vt_bump v]] whitelist_ID = Some (ai_key vault) \<and>
        vt_mint v = ai_key mint \<and>
        (vt_vault_token_account v = ai_key source \<or> vt_vault_token_account v = ai_key dest) \<and>
        transfer_hook_handler h n v source s dest d L = Inr ())"
proof -
  have canonical: "(\<exists>b. seeds_canonical h whitelist_ID (extra_meta_seeds mint) extra =
        (Inr b :: wl_error + u8)) \<longleftrightarrow>
      fst (find_program_address h (extra_meta_seeds mint) whitelist_ID) = ai_key extra"
    by (cases "find_program_address h (extra_meta_seeds mint) whitelist_ID")
      (simp add: seeds_canonical_Inr)
  have unit: "(\<exists>u :: unit. P u) \<longleftrightarrow> P ()" for P
    by (metis old.unit.exhaust)
  show ?thesis
    unfolding transfer_hook_def list.case and_then_Inr_iff check_Inr unit canonical [symmetric]
    by simp blast
qed

lemma transfer_hook_handler_Inr:
  "transfer_hook_handler h n v source s dest d L = Inr () \<longleftrightarrow>
     transferring h (acc_data (L (ai_key source))) = Inr True \<and>
     (\<exists>u k. counterparty v (ai_key source) s (ai_key dest) d = Some u \<and>
       allowance v u = Some k \<and> 0 < n \<and> n \<le> k)"
  by (auto simp: transfer_hook_handler_def check_is_transferring_def res_simps assert_allowed_iff
      counterparty_def)

section \<open>Properties\<close>

text \<open>C28: (whitelist transfer hook) The whitelist the program enforces is the one its admin set:
  after any sequence of instructions by anybody and of other programs' steps, exactly one account
  loads as a vault, with the settings initialize_vault gave it, its entries are the result of the
  accepted edits in order, at most sixteen, distinct and positive, and the admin signed each.\<close>

theorem whitelist_is_admin_edits:
  assumes "anchor_law h" and "wl_run h v0 log L"
  shows "\<exists>v. vault_load h L (vault_addr h) = Inr v \<and> same_settings v v0 \<and>
    allowance v = allowed_by log \<and> vault_ok v \<and>
    (\<forall>k v'. vault_load h L k = Inr v' \<longrightarrow> k = vault_addr h) \<and>
    (\<forall>a e. (a, e) \<in> set log \<longrightarrow> ai_is_signer a \<and> ai_key a = vt_admin v0)"
proof -
  obtain v where inv: "vault_inv h v0 log L v"
    using wl_run_inv [OF assms] by blast
  then have "same_settings v v0 \<and> allowance v = allowed_by log \<and> vault_ok v \<and>
      (\<forall>a e. (a, e) \<in> set log \<longrightarrow> ai_is_signer a \<and> ai_key a = vt_admin v0)"
    by (auto simp: vault_inv_def)
  then show ?thesis
    using vault_inv_load [OF assms(1) inv] by blast
qed

theorem whitelist_is_admin_edits_witness:
  "\<exists>v. vault_load wl_host wl_open 1000 = Inr v \<and> allowance v 50 = Some 100"
  using whitelist_is_admin_edits [OF wl_host_law wl_open_run] by auto

text \<open>C27: (whitelist transfer hook, transfer_hook) The hook decides exactly by the whitelist: it
  accepts a transfer when the mint's transfer is in progress, one side is the vault's own token
  account, and the owner of the other side is allowed at least the amount, which is positive, by
  the admin's edits so far; it refuses every other transfer, and never changes an account.\<close>

theorem transfer_hook_decides:
  assumes "anchor_law h" and "wl_run h v0 log L"
  shows "whitelist_transfer_hook_q2 h (Transfer_Hook n)
      (source # mint # dest # owner # extra # vault # rest) L = Inr L' \<longleftrightarrow>
    L' = L \<and> ai_key vault = vault_addr h \<and> vt_mint v0 = ai_key mint \<and>
    load_mint h (L (ai_key mint)) = Inr () \<and>
    fst (find_program_address h (extra_meta_seeds mint) whitelist_ID) = ai_key extra \<and>
    transferring h (acc_data (L (ai_key source))) = Inr True \<and>
    (\<exists>s d u k. load_token_account h (L (ai_key source)) = Inr s \<and> ta_mint s = ai_key mint \<and>
       load_token_account h (L (ai_key dest)) = Inr d \<and> ta_mint d = ai_key mint \<and>
       counterparty v0 (ai_key source) s (ai_key dest) d = Some u \<and>
       allowed_by log u = Some k \<and> 0 < n \<and> n \<le> k)"
proof -
  obtain v where inv: "vault_inv h v0 log L v"
    using wl_run_inv [OF assms] by blast
  note load = vault_inv_load [OF assms(1) inv]
  have set: "vt_mint v = vt_mint v0" "vt_vault_token_account v = vt_vault_token_account v0"
    using inv by (simp_all add: vault_inv_def same_settings_def)
  have allow: "allowance v = allowed_by log"
    and pda: "create_program_address h [VAULT_SEED, [vt_bump v]] whitelist_ID = Some (vault_addr h)"
    using inv by (simp_all add: vault_inv_def)
  have vault: "vault_load h L (ai_key vault) = Inr w \<longleftrightarrow> ai_key vault = vault_addr h \<and> w = v" for w
    using load(1) load(2) [of "ai_key vault" w] by metis
  have who: "counterparty v = counterparty v0"
    using set by (simp add: counterparty_def fun_eq_iff)
  have bump: "ai_key vault = vault_addr h \<Longrightarrow>
      create_program_address h [VAULT_SEED, [vt_bump v]] whitelist_ID = Some (ai_key vault)"
    using pda by simp
  have side: "vt_vault_token_account v0 = ai_key source \<or> vt_vault_token_account v0 = ai_key dest"
    if "counterparty v0 (ai_key source) s (ai_key dest) d = Some u" for s d u
    using counterparty_Some [OF that] .
  show ?thesis
    unfolding whitelist_transfer_hook_q2.simps transfer_hook_Inr vault transfer_hook_handler_Inr
      conj_assoc
    by (rule iffI; elim exE conjE) (auto simp: set who allow bump dest: side)
qed

theorem transfer_hook_decides_witness:
  "whitelist_transfer_hook_q2 wl_host (Transfer_Hook 80)
     [info 41 False, info 1001 False, info 40 False, info 50 False, info 1002 False,
      info 1000 False] wl_open = Inr wl_open"
proof -
  have "wl_load_token (wl_open 41) = Inr \<lparr>ta_mint = 1001, ta_owner = 50, ta_amount = 500\<rparr>"
    and "wl_load_token (wl_open 40) = Inr \<lparr>ta_mint = 1001, ta_owner = 1000, ta_amount = 0\<rparr>"
    and "last (acc_data (wl_open 41)) = 1"
    by (simp_all add: wl_open_def wl_ready_def wl_start_def wl_load_token_def demo_token_def
        slice_append_skip slice_0_append codec_simps address_bytes_def)
  then show ?thesis
    unfolding transfer_hook_decides [OF wl_host_law wl_open_run]
    by - (simp add: info_def wl_vault_def initial_vault_def counterparty_def,
        simp add: wl_host_def wl_open_def wl_ready_def,
        rule exI [of _ "\<lparr>ta_mint = 1001, ta_owner = 50, ta_amount = 500\<rparr>"], simp)
qed

text \<open>C29: (whitelist transfer hook, whitelist_operations.rs) The admin can always edit: at any point
  of a run add_to_whitelist succeeds exactly when the admin signs, the amount is positive and the
  user is listed already or fewer than sixteen are; remove_from_whitelist exactly when the user is
  listed. Writing the vault back never fails, since a full whitelist fits the account.\<close>

theorem admin_edit_succeeds_iff:
  assumes "anchor_law h" and "wl_run h v0 log L"
  shows "((\<exists>L'. whitelist_transfer_hook_q2 h (Add_To_Whitelist user n) (a # vault # rest) L = Inr L') \<longleftrightarrow>
      ai_is_signer a \<and> ai_is_writable a \<and> ai_key a = vt_admin v0 \<and> ai_is_writable vault \<and>
      ai_key vault = vault_addr h \<and> 0 < n \<and>
      (allowed_by log user \<noteq> None \<or> card (dom (allowed_by log)) < MAX_WHITELIST_ENTRIES)) \<and>
    ((\<exists>L'. whitelist_transfer_hook_q2 h (Remove_From_Whitelist user) (a # vault # rest) L = Inr L') \<longleftrightarrow>
      ai_is_signer a \<and> ai_is_writable a \<and> ai_key a = vt_admin v0 \<and> ai_is_writable vault \<and>
      ai_key vault = vault_addr h \<and> allowed_by log user \<noteq> None)"
proof -
  obtain v where inv: "vault_inv h v0 log L v"
    using wl_run_inv [OF assms] by blast
  note load = vault_inv_load [OF assms(1) inv]
  have ok: "vault_ok v" and allow: "allowance v = allowed_by log"
    and pda: "create_program_address h [VAULT_SEED, [vt_bump v]] whitelist_ID = Some (vault_addr h)"
    using inv by (simp_all add: vault_inv_def)
  have adm: "vt_admin v = vt_admin v0"
    using inv by (simp add: vault_inv_def same_settings_def)
  let ?admin = "ai_is_signer a \<and> ai_is_writable a \<and> ai_key a = vt_admin v0 \<and>
    ai_is_writable vault \<and> ai_key vault = vault_addr h"
  have who: "admin_vault h a vault L = Inr w \<longleftrightarrow> ?admin \<and> w = v" for w
    using load(1) load(2) [of "ai_key vault" w] pda adm unfolding admin_vault_Inr by metis
  have writes: "\<exists>L'. vault_exit h (vault_addr h) v' L = Inr L'"
    if "?admin" and "whitelist.apply_edit e v = Inr v'" and "same_settings v' v" for e v'
    using vault_inv_edit [OF assms(1) inv that(2) _ _ that(3), of a] that(1) by blast
  have add: "(\<exists>L'. whitelist_transfer_hook_q2 h (Add_To_Whitelist user n) (a # vault # rest) L = Inr L') \<longleftrightarrow>
      ai_is_signer a \<and> ai_is_writable a \<and> ai_key a = vt_admin v0 \<and> ai_is_writable vault \<and>
      ai_key vault = vault_addr h \<and> 0 < n \<and>
      (allowed_by log user \<noteq> None \<or> card (dom (allowed_by log)) < MAX_WHITELIST_ENTRIES)"
    using whitelist.allow_iff [OF ok, of user n] writes [of "Allow user n"] edit_same(1) [of v user n]
    by (auto simp: add_to_whitelist_def res_simps who allow)
  have remove: "(\<exists>L'. whitelist_transfer_hook_q2 h (Remove_From_Whitelist user) (a # vault # rest) L = Inr L') \<longleftrightarrow>
      ai_is_signer a \<and> ai_is_writable a \<and> ai_key a = vt_admin v0 \<and> ai_is_writable vault \<and>
      ai_key vault = vault_addr h \<and> allowed_by log user \<noteq> None"
    using whitelist.disallow_iff [OF ok, of user] writes [of "Disallow user"] edit_same(2) [of v user]
    by (auto simp: remove_from_whitelist_def res_simps who allow)
  show ?thesis
    using add remove by (rule conjI)
qed

theorem admin_edit_succeeds_iff_witness:
  "(\<exists>L'. whitelist_transfer_hook_q2 wl_host (Remove_From_Whitelist 50)
      [info 10 True, info 1000 False] wl_open = Inr L') \<and>
   \<not> (\<exists>L'. whitelist_transfer_hook_q2 wl_host (Add_To_Whitelist 51 0)
      [info 10 True, info 1000 False] wl_open = Inr L')"
  using admin_edit_succeeds_iff [OF wl_host_law wl_open_run,
      of 50 1 "info 10 True" "info 1000 False" "[]"]
    admin_edit_succeeds_iff [OF wl_host_law wl_open_run,
      of 51 0 "info 10 True" "info 1000 False" "[]"]
  by (simp add: info_def wl_vault_def initial_vault_def del: whitelist_transfer_hook_q2.simps)

text \<open>C30: (whitelist transfer hook, state.rs) Storing a vault and loading it again: the write-back
  succeeds exactly when there are at most sixteen entries, and then the account loads as the vault
  written, whatever an earlier, longer vault left behind it.\<close>

theorem vault_store_load:
  assumes "length (vault_discriminator h) = 8" and "acc_owner (L k) = whitelist_ID"
    and "length (acc_data (L k)) = 8 + vault_LEN"
  shows "(case vault_exit h k v L of
      Inl e \<Rightarrow> e = AccountDidNotSerialize \<and> MAX_WHITELIST_ENTRIES < length (vt_whitelist v)
    | Inr L' \<Rightarrow> length (vt_whitelist v) \<le> MAX_WHITELIST_ENTRIES \<and> vault_load h L' k = Inr v \<and>
        length (acc_data (L' k)) = 8 + vault_LEN \<and> (\<forall>a. a \<noteq> k \<longrightarrow> L' a = L a))"
proof (cases "length (vt_whitelist v) \<le> MAX_WHITELIST_ENTRIES")
  case True
  then have fits: "length (vault_serialize v) \<le> vault_LEN" and "length (vt_whitelist v) < 2 ^ 32"
    by (simp_all add: vault_serialize_fits MAX_WHITELIST_ENTRIES_def)
  then show ?thesis
    using assms True
    by (simp add: vault_exit_def account_exit_def write_over_def vault_load_def account_load_def vault_deserialize_serialize Let_def)
next
  case False
  then have "\<not> length (vault_serialize v) \<le> vault_LEN"
    by (simp add: vault_serialize_fits)
  then show ?thesis
    using assms False by (simp add: vault_exit_def account_exit_def write_over_def)
qed

theorem vault_store_load_witness:
  "\<exists>L'. vault_exit wl_host 1000 wl_vault wl_open = Inr L' \<and>
     vault_load wl_host L' 1000 = Inr wl_vault"
  using vault_store_load [of wl_host wl_open 1000 wl_vault]
    anchor_law_discriminator(1) [OF wl_host_law]
  by (simp add: wl_open_def vault_account_def length_vault_serialize wl_allowed_def wl_vault_def
      initial_vault_def vault_LEN_value MAX_WHITELIST_ENTRIES_def split: sum.splits)

text \<open>C31: (whitelist transfer hook, mint_tokens) Only the admin mints, only the vault's mint, and
  only into a token account of the named recipient for that mint; the vault signs with the bump
  stored at initialisation.\<close>

theorem only_admin_mints:
  assumes "anchor_law h" and "wl_run h v0 log L"
    and "whitelist_transfer_hook_q2 h (Mint_Tokens n)
      (a # vault # mint # dest # recipient # token # rest) L = Inr L'"
  shows "ai_is_signer a \<and> ai_key a = vt_admin v0 \<and> ai_key mint = vt_mint v0 \<and>
    (\<exists>t. load_token_account h (L (ai_key dest)) = Inr t \<and> ta_mint t = ai_key mint \<and>
       ta_owner t = ai_key recipient) \<and>
    token_mint_to h (ai_key token) (ai_key mint) (ai_key dest) (vault_addr h) n
      [VAULT_SEED, [vt_bump v0]] L = Inr L'"
proof -
  obtain v where inv: "vault_inv h v0 log L v"
    using wl_run_inv [OF assms(1,2)] by blast
  note load = vault_inv_load(2) [OF assms(1) inv]
  have set: "same_settings v v0"
    using inv by (simp add: vault_inv_def)
  from assms(3) load set show ?thesis
    by (auto simp: mint_tokens_def res_simps same_settings_def)
qed

theorem only_admin_mints_witness:
  "demo_mint_to 41 5 wl_open = Inr (wl_open(41 := demo_token 1001 50 505 0)) \<and>
   ai_key (info 10 True) = vt_admin wl_vault"
proof -
  have load: "wl_load_token (wl_open 41) = Inr \<lparr>ta_mint = 1001, ta_owner = 50, ta_amount = 500\<rparr>"
    by (simp add: wl_open_def wl_ready_def wl_start_def wl_load_token_def demo_token_def
        slice_append_skip slice_0_append slice_0_all codec_simps address_bytes_def)
  have to: "demo_mint_to 41 5 wl_open = Inr (wl_open(41 := demo_token 1001 50 505 0))"
    by (simp add: demo_mint_to_def load)
  have "vault_load wl_host wl_open 1000 = Inr wl_allowed"
    by (rule load_vault_account)
      (simp_all add: wl_open_def wl_allowed_def wl_vault_def initial_vault_def vault_ok_def
        MAX_WHITELIST_ENTRIES_def)
  then have "whitelist_transfer_hook_q2 wl_host (Mint_Tokens 5)
      [info 10 True, info 1000 False, info 1001 False, info 41 False, info 50 False, info 7 False]
      wl_open = Inr (wl_open(41 := demo_token 1001 50 505 0))"
    using load to
    by (simp add: mint_tokens_def info_def signed_def writable_def require_def program_def
        seeds_with_bump_def)
      (simp add: wl_host_def wl_allowed_def wl_vault_def initial_vault_def info_def wl_open_def
        wl_ready_def)
  then show ?thesis
    using only_admin_mints [OF wl_host_law wl_open_run] to by blast
qed

end
