(* ===== verification/Rust_I64.thy ===== *)
theory Rust_I64
  imports Rust_Int
begin

text \<open>
  What the staking program uses of \<open>i64\<close>: the checked operations, and the decimal text that
  \<open>to_string\<close> writes and \<open>parse\<close> reads. The main fact is that every number written is
  read back.
\<close>

section \<open>Checked arithmetic\<close>

definition checked_i64 :: "int \<Rightarrow> i64 option" where
  "checked_i64 x = (if i64_MIN \<le> x \<and> x \<le> i64_MAX then Some (word_of_int x) else None)"

definition checked_add_i64 :: "i64 \<Rightarrow> i64 \<Rightarrow> i64 option" where
  "checked_add_i64 a b = checked_i64 (sint a + sint b)"

definition checked_sub_i64 :: "i64 \<Rightarrow> i64 \<Rightarrow> i64 option" where
  "checked_sub_i64 a b = checked_i64 (sint a - sint b)"

definition checked_mul_i64 :: "i64 \<Rightarrow> i64 \<Rightarrow> i64 option" where
  "checked_mul_i64 a b = checked_i64 (sint a * sint b)"

text \<open>Truncating; \<open>None\<close> for a zero divisor and for the one quotient out of range.\<close>

definition checked_div_i64 :: "i64 \<Rightarrow> i64 \<Rightarrow> i64 option" where
  "checked_div_i64 a b = (if b = 0 then None else checked_i64 (sint a sdiv sint b))"

definition max_i64 :: "i64 \<Rightarrow> i64 \<Rightarrow> i64" where
  "max_i64 a b = word_of_int (max (sint a) (sint b))"

lemma checked_i64_Some_iff [res_simps]: "checked_i64 x = Some c \<longleftrightarrow> sint c = x"
  using sint_i64_bounds [of c] sint_word_of_int_i64 [of x]
  by (auto simp: checked_i64_def)

lemma checked_i64_sint [simp]: "checked_i64 (sint a) = Some a"
  by (simp add: checked_i64_Some_iff)

lemma checked_i64_None_iff: "checked_i64 x = None \<longleftrightarrow> x < i64_MIN \<or> i64_MAX < x"
  by (auto simp: checked_i64_def not_le)

lemma checked_ops_Some_iff [res_simps]:
  "checked_add_i64 a b = Some c \<longleftrightarrow> sint c = sint a + sint b"
  "checked_sub_i64 a b = Some c \<longleftrightarrow> sint c = sint a - sint b"
  "checked_mul_i64 a b = Some c \<longleftrightarrow> sint c = sint a * sint b"
  "checked_div_i64 a b = Some c \<longleftrightarrow> b \<noteq> 0 \<and> sint c = sint a sdiv sint b"
  by (simp_all add: checked_add_i64_def checked_sub_i64_def checked_mul_i64_def
      checked_div_i64_def checked_i64_Some_iff)

lemma sint_max_i64 [simp]: "sint (max_i64 a b) = max (sint a) (sint b)"
  using sint_i64_bounds [of a] sint_i64_bounds [of b]
  by (simp add: max_i64_def sint_word_of_int_i64 max_def)

section \<open>Decimal text\<close>

definition digit_char :: "nat \<Rightarrow> char" where
  "digit_char d = char_of (48 + d)"

definition char_digit :: "char \<Rightarrow> nat option" where
  "char_digit c =
     (let k = of_char c :: nat in if 48 \<le> k \<and> k \<le> 57 then Some (k - 48) else None)"

fun decimal :: "nat \<Rightarrow> string" where
  "decimal n =
     (if n < 10 then [digit_char n] else decimal (n div 10) @ [digit_char (n mod 10)])"

declare decimal.simps [simp del]

definition to_string_i64 :: "i64 \<Rightarrow> string" where
  "to_string_i64 a =
     (if sint a < 0 then CHR ''-'' # decimal (nat (- sint a)) else decimal (nat (sint a)))"

fun read_digits :: "nat \<Rightarrow> string \<Rightarrow> nat option" where
  "read_digits acc [] = Some acc"
| "read_digits acc (c # cs) =
     (case char_digit c of None \<Rightarrow> None | Some d \<Rightarrow> read_digits (10 * acc + d) cs)"

text \<open>An optional sign, at least one digit, nothing else, and the value in range.\<close>

definition split_sign :: "string \<Rightarrow> bool \<times> string" where
  "split_sign s =
     (case s of
        [] \<Rightarrow> (False, s)
      | c # cs \<Rightarrow>
          if c = CHR ''-'' then (True, cs) else if c = CHR ''+'' then (False, cs) else (False, s))"

definition parse_i64 :: "string \<Rightarrow> i64 option" where
  "parse_i64 s =
     (let (neg, ds) = split_sign s in
      if ds = [] then None
      else
        Option.bind (read_digits 0 ds) (\<lambda>n. checked_i64 (if neg then - int n else int n)))"

section \<open>What is written is read back\<close>

lemma char_digit_digit_char [simp]: "d < 10 \<Longrightarrow> char_digit (digit_char d) = Some d"
  by (simp add: char_digit_def digit_char_def Let_def of_char_of)

lemma digit_char_no_sign [simp]:
  assumes "d < 10"
  shows "digit_char d \<noteq> CHR ''-''" and "digit_char d \<noteq> CHR ''+''"
proof -
  have "char_digit (CHR ''-'') = None" and "char_digit (CHR ''+'') = None"
    by (simp_all add: char_digit_def Let_def)
  with char_digit_digit_char [OF assms]
  show "digit_char d \<noteq> CHR ''-''" and "digit_char d \<noteq> CHR ''+''"
    by auto
qed

lemma decimal_not_empty [simp]: "decimal n \<noteq> []"
  by (subst decimal.simps) simp

lemma hd_decimal: "\<exists>d<10. hd (decimal n) = digit_char d"
proof (induction n rule: decimal.induct)
  case (1 n)
  show ?case
  proof (cases "n < 10")
    case True
    then show ?thesis by (subst decimal.simps) auto
  next
    case False
    with 1 show ?thesis by (subst decimal.simps) simp
  qed
qed

lemma read_digits_append:
  "read_digits acc (ds @ es) = Option.bind (read_digits acc ds) (\<lambda>n. read_digits n es)"
  by (induction ds arbitrary: acc) (simp_all split: option.split)

lemma read_digits_decimal: "read_digits 0 (decimal n) = Some n"
proof (induction n rule: decimal.induct)
  case (1 n)
  show ?case
  proof (cases "n < 10")
    case True
    then show ?thesis by (subst decimal.simps) simp
  next
    case False
    with 1 show ?thesis by (subst decimal.simps) (simp add: read_digits_append)
  qed
qed

lemma split_sign_decimal: "split_sign (decimal n) = (False, decimal n)"
proof -
  obtain d where d: "d < 10" "hd (decimal n) = digit_char d"
    using hd_decimal by blast
  then show ?thesis
    using digit_char_no_sign [OF d(1)] by (cases "decimal n") (simp_all add: split_sign_def)
qed

lemma parse_to_string [simp]: "parse_i64 (to_string_i64 a) = Some a"
proof (cases "sint a < 0")
  case True
  then show ?thesis
    by (simp add: parse_i64_def to_string_i64_def split_sign_def read_digits_decimal)
next
  case False
  then show ?thesis
    by (simp add: parse_i64_def to_string_i64_def split_sign_decimal read_digits_decimal)
qed

lemma to_string_i64_inject [simp]: "to_string_i64 a = to_string_i64 b \<longleftrightarrow> a = b"
  by (metis option.inject parse_to_string)

end
