(* ===== verification/Staking_Attributes.thy ===== *)
theory Staking_Attributes
  imports Rust_I64
begin

text \<open>
  The staking program keeps its records as text in mpl-core attribute lists: three attributes of
  an asset, two of a collection. Here are the keys, the loops of stake, claim\_rewards, unstake
  and of the collection counters over such a list, and what each loop computes, stated with
  \<open>values\<close> (all values of a key) and \<open>without\<close> (the list less some keys).
\<close>

section \<open>Keys and errors\<close>

definition SECONDS_PER_DAY :: i64 where "SECONDS_PER_DAY = 86400"

definition KEY_STAKED :: string where "KEY_STAKED = ''staked''"
definition KEY_STAKED_AT :: string where "KEY_STAKED_AT = ''staked_at''"
definition KEY_LAST_CLAIM :: string where "KEY_LAST_CLAIM = ''last_claim''"
definition KEY_TOTAL_STAKED :: string where "KEY_TOTAL_STAKED = ''total_staked''"
definition KEY_TOTAL_STAKED_LIFETIME :: string where
  "KEY_TOTAL_STAKED_LIFETIME = ''total_staked_lifetime''"

lemmas key_defs = KEY_STAKED_def KEY_STAKED_AT_def KEY_LAST_CLAIM_def KEY_TOTAL_STAKED_def
  KEY_TOTAL_STAKED_LIFETIME_def

lemma keys_distinct [simp]:
  "KEY_STAKED \<noteq> KEY_STAKED_AT" "KEY_STAKED_AT \<noteq> KEY_STAKED"
  "KEY_STAKED \<noteq> KEY_LAST_CLAIM" "KEY_LAST_CLAIM \<noteq> KEY_STAKED"
  "KEY_STAKED_AT \<noteq> KEY_LAST_CLAIM" "KEY_LAST_CLAIM \<noteq> KEY_STAKED_AT"
  "KEY_TOTAL_STAKED \<noteq> KEY_TOTAL_STAKED_LIFETIME" "KEY_TOTAL_STAKED_LIFETIME \<noteq> KEY_TOTAL_STAKED"
  by (simp_all add: key_defs)

datatype staking_error =
    InvalidOwner
  | InvalidUpdateAuthority
  | AlreadyStaked
  | AssetNotStaked
  | InvalidTimestamp
  | FreezePeriodNotElapsed
  | InvalidRewardsBps
  | Staking_ArithmeticOverflow

record attribute =
  at_key :: string
  at_value :: string

definition attr :: "string \<Rightarrow> string \<Rightarrow> attribute" where
  "attr k v = \<lparr>at_key = k, at_value = v\<rparr>"

lemma attr_simps [simp]: "at_key (attr k v) = k" "at_value (attr k v) = v"
  by (simp_all add: attr_def)

section \<open>The loops\<close>

text \<open>\<open>stake\<close>: keep what is not a staking attribute; the asset must not be staked.\<close>

fun stake_scan :: "attribute list \<Rightarrow> attribute list \<Rightarrow> staking_error + attribute list" where
  "stake_scan [] kept = Inr kept"
| "stake_scan (a # as) kept =
     (if at_key a = KEY_STAKED then
        (if at_value a = ''false'' then stake_scan as kept else Inl AlreadyStaked)
      else if at_key a = KEY_STAKED_AT \<or> at_key a = KEY_LAST_CLAIM then stake_scan as kept
      else stake_scan as (kept @ [a]))"

text \<open>The mutable variables of the loops of \<open>claim_rewards\<close> and \<open>unstake\<close>.\<close>

record scan =
  sc_attributes_list :: "attribute list"
  sc_is_staked :: bool
  sc_staked_at :: i64
  sc_last_claim :: "i64 option"

definition scan_start :: scan where
  "scan_start =
     \<lparr>sc_attributes_list = [], sc_is_staked = False, sc_staked_at = 0, sc_last_claim = None\<rparr>"

definition push :: "attribute \<Rightarrow> scan \<Rightarrow> scan" where
  "push a s = s\<lparr>sc_attributes_list := sc_attributes_list s @ [a]\<rparr>"

definition parse_timestamp :: "string \<Rightarrow> staking_error + i64" where
  "parse_timestamp v = ok_or (parse_i64 v) InvalidTimestamp"

fun claim_scan :: "attribute list \<Rightarrow> scan \<Rightarrow> staking_error + scan" where
  "claim_scan [] s = Inr s"
| "claim_scan (a # as) s =
     (if at_key a = KEY_STAKED then
        claim_scan as (push a (s\<lparr>sc_is_staked := (at_value a = ''true'')\<rparr>))
      else if at_key a = KEY_STAKED_AT then
        and_then (parse_timestamp (at_value a)) (\<lambda>t.
        claim_scan as (push a (s\<lparr>sc_staked_at := t\<rparr>)))
      else if at_key a = KEY_LAST_CLAIM then
        and_then (parse_timestamp (at_value a)) (\<lambda>t. claim_scan as (s\<lparr>sc_last_claim := Some t\<rparr>))
      else claim_scan as (push a s))"

fun unstake_scan :: "attribute list \<Rightarrow> scan \<Rightarrow> staking_error + scan" where
  "unstake_scan [] s = Inr s"
| "unstake_scan (a # as) s =
     (if at_key a = KEY_STAKED then
        unstake_scan as (s\<lparr>sc_is_staked := (at_value a = ''true'')\<rparr>)
      else if at_key a = KEY_STAKED_AT then
        and_then (parse_timestamp (at_value a)) (\<lambda>t. unstake_scan as (s\<lparr>sc_staked_at := t\<rparr>))
      else if at_key a = KEY_LAST_CLAIM then
        and_then (parse_timestamp (at_value a)) (\<lambda>t. unstake_scan as (s\<lparr>sc_last_claim := Some t\<rparr>))
      else unstake_scan as (push a s))"

text \<open>The counters of a collection: what does not parse counts as zero.\<close>

fun count_scan :: "attribute list \<Rightarrow> attribute list \<times> i64 \<times> i64 \<Rightarrow> attribute list \<times> i64 \<times> i64" where
  "count_scan [] s = s"
| "count_scan (a # as) (kept, staked, lifetime) =
     (if at_key a = KEY_TOTAL_STAKED then
        count_scan as (kept, case parse_i64 (at_value a) of None \<Rightarrow> 0 | Some n \<Rightarrow> n, lifetime)
      else if at_key a = KEY_TOTAL_STAKED_LIFETIME then
        count_scan as (kept, staked, case parse_i64 (at_value a) of None \<Rightarrow> 0 | Some n \<Rightarrow> n)
      else count_scan as (kept @ [a], staked, lifetime))"

text \<open>The new list of \<open>update_collection_staked_count\<close>.\<close>

definition new_counts :: "attribute list option \<Rightarrow> i64 \<Rightarrow> staking_error + attribute list" where
  "new_counts existing delta =
     (let (kept, staked, lifetime) = count_scan (case existing of None \<Rightarrow> [] | Some l \<Rightarrow> l) ([], 0, 0) in
      and_then (ok_or (checked_add_i64 staked delta) Staking_ArithmeticOverflow) (\<lambda>sum.
      let staked = max_i64 sum 0 in
      and_then
        (if 0 < sint delta then
           ok_or (checked_add_i64 lifetime delta) Staking_ArithmeticOverflow
         else Inr lifetime) (\<lambda>lifetime.
      Inr (kept @ [attr KEY_TOTAL_STAKED (to_string_i64 staked),
                   attr KEY_TOTAL_STAKED_LIFETIME (to_string_i64 lifetime)]))))"

section \<open>What the loops compute\<close>

definition "values" :: "string \<Rightarrow> attribute list \<Rightarrow> string list" where
  "values k as = map at_value (filter (\<lambda>a. at_key a = k) as)"

definition without :: "string set \<Rightarrow> attribute list \<Rightarrow> attribute list" where
  "without K as = filter (\<lambda>a. at_key a \<notin> K) as"

lemma values_simps [simp]:
  "values k [] = []"
  "values k (a # as) = (if at_key a = k then at_value a # values k as else values k as)"
  "values k (as @ bs) = values k as @ values k bs"
  by (simp_all add: values_def)

lemma without_simps [simp]:
  "without K [] = []"
  "without K (a # as) = (if at_key a \<in> K then without K as else a # without K as)"
  "without K (as @ bs) = without K as @ without K bs"
  by (simp_all add: without_def)

lemma values_without [simp]: "values k (without K as) = (if k \<in> K then [] else values k as)"
  by (induction as) auto

lemma without_without [simp]: "without K (without J as) = without (J \<union> K) as"
  by (induction as) auto

abbreviation staking_keys :: "string set" where
  "staking_keys \<equiv> {KEY_STAKED, KEY_STAKED_AT, KEY_LAST_CLAIM}"

abbreviation counter_keys :: "string set" where
  "counter_keys \<equiv> {KEY_TOTAL_STAKED, KEY_TOTAL_STAKED_LIFETIME}"

lemma stake_scan_Inr [res_simps]:
  "stake_scan as kept = Inr r \<longleftrightarrow>
     set (values KEY_STAKED as) \<subseteq> {''false''} \<and> r = kept @ without staking_keys as"
  by (induction as arbitrary: kept) auto

lemma stake_scan_Inl:
  "stake_scan as kept = Inl e \<longleftrightarrow> \<not> set (values KEY_STAKED as) \<subseteq> {''false''} \<and> e = AlreadyStaked"
  by (induction as arbitrary: kept) auto

text \<open>
  Lists as the program itself writes them: staked since \<open>t\<close>, rewarded up to \<open>l\<close>; or not
  staked. Whatever else the list has is not looked at.
\<close>

definition staked_list :: "i64 \<Rightarrow> i64 \<Rightarrow> attribute list \<Rightarrow> bool" where
  "staked_list t l as \<longleftrightarrow>
     values KEY_STAKED as = [''true''] \<and> values KEY_STAKED_AT as = [to_string_i64 t] \<and>
     values KEY_LAST_CLAIM as = [to_string_i64 l]"

definition idle_list :: "attribute list \<Rightarrow> bool" where
  "idle_list as \<longleftrightarrow> set (values KEY_STAKED as) \<subseteq> {''false''}"

lemma parse_timestamp_to_string [simp]: "parse_timestamp (to_string_i64 t) = Inr t"
  by (simp add: parse_timestamp_def)

text \<open>Each variable depends on the values of its own key only.\<close>

definition last_time :: "string list \<Rightarrow> i64 option \<Rightarrow> i64 option" where
  "last_time vs old = (if vs = [] then old else parse_i64 (last vs))"

lemma unstake_scan_Inr:
  "unstake_scan as s = Inr r \<Longrightarrow>
     sc_attributes_list r = sc_attributes_list s @ without staking_keys as \<and>
     sc_is_staked r =
       (if values KEY_STAKED as = [] then sc_is_staked s else last (values KEY_STAKED as) = ''true'') \<and>
     Some (sc_staked_at r) = last_time (values KEY_STAKED_AT as) (Some (sc_staked_at s)) \<and>
     sc_last_claim r = last_time (values KEY_LAST_CLAIM as) (sc_last_claim s)"
proof (induction as arbitrary: s)
  case (Cons a as)
  from Cons.prems show ?case
    by (auto simp: push_def last_time_def parse_timestamp_def res_simps dest!: Cons.IH
        split: if_splits)
qed (simp add: last_time_def)

lemma claim_scan_Inr:
  "claim_scan as s = Inr r \<Longrightarrow>
     sc_attributes_list r = sc_attributes_list s @ without {KEY_LAST_CLAIM} as \<and>
     sc_is_staked r =
       (if values KEY_STAKED as = [] then sc_is_staked s else last (values KEY_STAKED as) = ''true'') \<and>
     Some (sc_staked_at r) = last_time (values KEY_STAKED_AT as) (Some (sc_staked_at s)) \<and>
     sc_last_claim r = last_time (values KEY_LAST_CLAIM as) (sc_last_claim s)"
proof (induction as arbitrary: s)
  case (Cons a as)
  from Cons.prems show ?case
    by (auto simp: push_def last_time_def parse_timestamp_def res_simps dest!: Cons.IH
        split: if_splits)
qed (simp add: last_time_def)

text \<open>They succeed exactly when every timestamp parses.\<close>

lemma scan_succeeds:
  "(\<exists>r. unstake_scan as s = Inr r) \<longleftrightarrow>
     (\<forall>v\<in>set (values KEY_STAKED_AT as) \<union> set (values KEY_LAST_CLAIM as). parse_i64 v \<noteq> None)"
  "(\<exists>r. claim_scan as s = Inr r) \<longleftrightarrow>
     (\<forall>v\<in>set (values KEY_STAKED_AT as) \<union> set (values KEY_LAST_CLAIM as). parse_i64 v \<noteq> None)"
proof -
  show "(\<exists>r. unstake_scan as s = Inr r) \<longleftrightarrow>
     (\<forall>v\<in>set (values KEY_STAKED_AT as) \<union> set (values KEY_LAST_CLAIM as). parse_i64 v \<noteq> None)"
    by (induction as arbitrary: s) (auto simp: parse_timestamp_def res_simps)
  show "(\<exists>r. claim_scan as s = Inr r) \<longleftrightarrow>
     (\<forall>v\<in>set (values KEY_STAKED_AT as) \<union> set (values KEY_LAST_CLAIM as). parse_i64 v \<noteq> None)"
    by (induction as arbitrary: s) (auto simp: parse_timestamp_def res_simps)
qed

lemma staked_list_scan:
  assumes "staked_list t l as"
  shows "unstake_scan as scan_start =
      Inr \<lparr>sc_attributes_list = without staking_keys as, sc_is_staked = True, sc_staked_at = t,
        sc_last_claim = Some l\<rparr>"
    and "claim_scan as scan_start =
      Inr \<lparr>sc_attributes_list = without {KEY_LAST_CLAIM} as, sc_is_staked = True, sc_staked_at = t,
        sc_last_claim = Some l\<rparr>"
proof -
  obtain r where r: "unstake_scan as scan_start = Inr r"
    using scan_succeeds(1) [of as scan_start] assms by (auto simp: staked_list_def)
  then show "unstake_scan as scan_start =
      Inr \<lparr>sc_attributes_list = without staking_keys as, sc_is_staked = True, sc_staked_at = t,
        sc_last_claim = Some l\<rparr>"
    using unstake_scan_Inr [OF r] assms
    by (auto simp: staked_list_def scan_start_def last_time_def)
  obtain r' where r': "claim_scan as scan_start = Inr r'"
    using scan_succeeds(2) [of as scan_start] assms by (auto simp: staked_list_def)
  then show "claim_scan as scan_start =
      Inr \<lparr>sc_attributes_list = without {KEY_LAST_CLAIM} as, sc_is_staked = True, sc_staked_at = t,
        sc_last_claim = Some l\<rparr>"
    using claim_scan_Inr [OF r'] assms
    by (auto simp: staked_list_def scan_start_def last_time_def)
qed

text \<open>An asset that is not staked fails the check of both loops.\<close>

lemma idle_list_scan:
  assumes "idle_list as"
  shows "unstake_scan as scan_start = Inr r \<Longrightarrow> \<not> sc_is_staked r"
    and "claim_scan as scan_start = Inr r \<Longrightarrow> \<not> sc_is_staked r"
proof -
  have "values KEY_STAKED as \<noteq> [] \<Longrightarrow> last (values KEY_STAKED as) = ''false''"
    using assms last_in_set by (fastforce simp: idle_list_def)
  then show "unstake_scan as scan_start = Inr r \<Longrightarrow> \<not> sc_is_staked r"
    and "claim_scan as scan_start = Inr r \<Longrightarrow> \<not> sc_is_staked r"
    using unstake_scan_Inr [of as scan_start r] claim_scan_Inr [of as scan_start r]
    by (auto simp: scan_start_def)
qed

lemma not_staked_and_idle: "staked_list t l as \<Longrightarrow> \<not> idle_list as"
  by (simp add: staked_list_def idle_list_def)

lemma staked_list_unique: "staked_list t l as \<Longrightarrow> staked_list t' l' as \<Longrightarrow> t' = t \<and> l' = l"
  by (simp add: staked_list_def)

section \<open>The counters\<close>

definition read_count :: "string list \<Rightarrow> i64 \<Rightarrow> i64" where
  "read_count vs old =
     (if vs = [] then old else case parse_i64 (last vs) of None \<Rightarrow> 0 | Some n \<Rightarrow> n)"

lemma count_scan_eq:
  "count_scan as (kept, n, m) =
     (kept @ without counter_keys as, read_count (values KEY_TOTAL_STAKED as) n,
      read_count (values KEY_TOTAL_STAKED_LIFETIME as) m)"
  by (induction as arbitrary: kept n m) (auto simp: read_count_def)

text \<open>The two counters of a collection, zero when it has none.\<close>

definition counts :: "attribute list option \<Rightarrow> i64 \<times> i64" where
  "counts existing =
     (case existing of
        None \<Rightarrow> (0, 0)
      | Some as \<Rightarrow>
          (read_count (values KEY_TOTAL_STAKED as) 0,
           read_count (values KEY_TOTAL_STAKED_LIFETIME as) 0))"

lemma new_counts_Inr:
  assumes "new_counts existing delta = Inr as"
  shows "sint (fst (counts (Some as))) = max 0 (sint (fst (counts existing)) + sint delta)"
    and "sint (snd (counts (Some as))) = sint (snd (counts existing)) + max 0 (sint delta)"
    and "without counter_keys as = (case existing of None \<Rightarrow> [] | Some old \<Rightarrow> without counter_keys old)"
proof -
  have "read_count [] 0 = 0"
    by (simp add: read_count_def)
  with assms show "sint (fst (counts (Some as))) = max 0 (sint (fst (counts existing)) + sint delta)"
    and "sint (snd (counts (Some as))) = sint (snd (counts existing)) + max 0 (sint delta)"
    and "without counter_keys as = (case existing of None \<Rightarrow> [] | Some old \<Rightarrow> without counter_keys old)"
    by (auto simp: new_counts_def Let_def count_scan_eq res_simps counts_def read_count_def
        split: option.splits if_splits)
qed

end
