(* ===== verification/Staking_Program.thy ===== *)
theory Staking_Program
  imports Staking_Attributes Anchor
begin

text \<open>
  The instructions of the staking program: Anchor's account validation, then the handler.
  Everything the program reads from the chain belongs to mpl-core and to the token programs, and is
  kept as an opaque world \<open>'w\<close> with what the program can observe of it; the instructions of
  those programs that it calls are operations on worlds. Both are fields of \<open>mpl_host\<close>.
\<close>

section \<open>What the program sees\<close>

type_synonym st_error = "staking_error anchor_error"

datatype update_authority =
    No_Authority
  | Address_Authority address
  | Collection_Authority address

record base_asset =
  ba_owner :: address
  ba_update_authority :: update_authority

record config =
  cf_rewards_bps :: u16
  cf_freeze_period :: u16
  cf_rewards_bump :: u8
  cf_bump :: u8

datatype plugin = Attributes_Plugin "attribute list" | Freeze_Delegate bool

datatype plugin_authority = Plugin_Update_Authority

text \<open>
  Accounts as the program loads them, the plugins it fetches, and the supply of each mint (which
  the program does not read, but changes).
\<close>

record view =
  v_asset :: "address \<Rightarrow> st_error + base_asset"
  v_collection :: "address \<Rightarrow> st_error + address"
  v_config :: "address \<Rightarrow> st_error + config"
  v_mint :: "address \<Rightarrow> st_error + u8"
  v_attributes :: "address \<Rightarrow> attribute list option"
  v_frozen :: "address \<Rightarrow> bool option"
  v_counters :: "address \<Rightarrow> attribute list option"
  v_supply :: "address \<Rightarrow> nat"

record 'w mpl_host = anchor_env +
  observe :: "'w \<Rightarrow> view"
  clock_time :: "st_error + i64"
  MPL_CORE_ID :: address
  add_plugin_v1 :: "address \<Rightarrow> address \<Rightarrow> address \<Rightarrow> address \<Rightarrow> plugin \<Rightarrow> plugin_authority \<Rightarrow>
    signer_seeds list \<Rightarrow> 'w \<Rightarrow> st_error + 'w"
  update_plugin_v1 :: "address \<Rightarrow> address \<Rightarrow> address \<Rightarrow> address \<Rightarrow> plugin \<Rightarrow>
    signer_seeds list \<Rightarrow> 'w \<Rightarrow> st_error + 'w"
  add_collection_plugin_v1 :: "address \<Rightarrow> address \<Rightarrow> address \<Rightarrow> plugin \<Rightarrow> plugin_authority \<Rightarrow>
    signer_seeds list \<Rightarrow> 'w \<Rightarrow> st_error + 'w"
  update_collection_plugin_v1 :: "address \<Rightarrow> address \<Rightarrow> address \<Rightarrow> plugin \<Rightarrow>
    signer_seeds list \<Rightarrow> 'w \<Rightarrow> st_error + 'w"
  create_collection_v2 :: "address \<Rightarrow> address \<Rightarrow> address \<Rightarrow> string \<Rightarrow> string \<Rightarrow>
    signer_seeds list \<Rightarrow> 'w \<Rightarrow> st_error + 'w"
  create_v2 :: "address \<Rightarrow> address \<Rightarrow> address \<Rightarrow> address \<Rightarrow> address \<Rightarrow> string \<Rightarrow> string \<Rightarrow>
    signer_seeds list \<Rightarrow> 'w \<Rightarrow> st_error + 'w"
  mint_to_checked :: "address \<Rightarrow> address \<Rightarrow> address \<Rightarrow> address \<Rightarrow> u64 \<Rightarrow> u8 \<Rightarrow>
    signer_seeds list \<Rightarrow> 'w \<Rightarrow> st_error + 'w"
  init_config :: "address \<Rightarrow> address \<Rightarrow> signer_seeds \<Rightarrow> 'w \<Rightarrow> st_error + 'w"
  write_config :: "address \<Rightarrow> config \<Rightarrow> 'w \<Rightarrow> st_error + 'w"
  init_rewards_mint :: "address \<Rightarrow> address \<Rightarrow> u8 \<Rightarrow> address \<Rightarrow> address \<Rightarrow>
    signer_seeds \<Rightarrow> 'w \<Rightarrow> st_error + 'w"
  init_ata_if_needed :: "address \<Rightarrow> address \<Rightarrow> address \<Rightarrow> address \<Rightarrow> 'w \<Rightarrow> st_error + 'w"

text \<open>\<open>declare_id!("9L2bGXYSc8mZBAfnnVf2cavGCns4dvqwojYHuDkp12C1")\<close>, decoded.\<close>

definition staking_ID :: address where
  "staking_ID = 51936117226713182838412392837772052694482881238024367642408321006780072377723"

definition config_seeds :: "address \<Rightarrow> u8 list list" where
  "config_seeds collection = [byte_string ''config'', address_bytes collection]"

definition update_authority_seeds :: "address \<Rightarrow> u8 list list" where
  "update_authority_seeds collection =
     [byte_string ''update_authority'', address_bytes collection]"

definition rewards_mint_seeds :: "address \<Rightarrow> u8 list list" where
  "rewards_mint_seeds config = [byte_string ''rewards_mint'', address_bytes config]"

section \<open>Checks that several instructions share\<close>

text \<open>\<open>address = MPL_CORE_ID\<close>.\<close>

definition mpl_core :: "'w mpl_host \<Rightarrow> account_info \<Rightarrow> st_error + unit" where
  "mpl_core h a = require (ai_key a = MPL_CORE_ID h) ConstraintAddress"

text \<open>\<open>owner\<close>, \<open>config\<close>, \<open>asset\<close> and \<open>collection\<close> are loaded in this order.\<close>

definition load_staking_accounts ::
  "'w mpl_host \<Rightarrow> account_info \<Rightarrow> account_info \<Rightarrow> account_info \<Rightarrow> account_info \<Rightarrow> 'w \<Rightarrow>
     st_error + config \<times> base_asset \<times> address" where
  "load_staking_accounts h owner config asset collection w =
     and_then (signed owner) (\<lambda>_.
     and_then (v_config (observe h w) (ai_key config)) (\<lambda>c.
     and_then (v_asset (observe h w) (ai_key asset)) (\<lambda>a.
     and_then (v_collection (observe h w) (ai_key collection)) (\<lambda>u.
     Inr (c, a, u)))))"

text \<open>Their constraints, up to the one of \<open>update_authority\<close>, whose bump is the result.\<close>

definition staking_constraints ::
  "'w mpl_host \<Rightarrow> account_info \<Rightarrow> account_info \<Rightarrow> account_info \<Rightarrow> account_info \<Rightarrow> account_info \<Rightarrow>
     config \<times> base_asset \<times> address \<Rightarrow> st_error + u8" where
  "staking_constraints h owner config asset collection update_auth loaded =
     (let (c, a, u) = loaded in
      and_then (writable owner) (\<lambda>_.
      and_then (seeds_with_bump h staking_ID (config_seeds (ai_key collection)) (cf_bump c) config) (\<lambda>_.
      and_then (writable asset) (\<lambda>_.
      and_then (require (ba_owner a = ai_key owner) (Program_Error InvalidOwner)) (\<lambda>_.
      and_then
        (require (ba_update_authority a = Collection_Authority (ai_key collection))
          (Program_Error InvalidUpdateAuthority)) (\<lambda>_.
      and_then (writable collection) (\<lambda>_.
      and_then
        (require (u = ai_key update_auth) (Program_Error InvalidUpdateAuthority)) (\<lambda>_.
      seeds_canonical h staking_ID (update_authority_seeds (ai_key collection)) update_auth))))))))"

section \<open>The collection counters\<close>

definition update_collection_staked_count ::
  "'w mpl_host \<Rightarrow> address \<Rightarrow> address \<Rightarrow> address \<Rightarrow> signer_seeds list \<Rightarrow> i64 \<Rightarrow> 'w \<Rightarrow>
     st_error + 'w" where
  "update_collection_staked_count h collection payer update_auth signers delta w =
     (let existing = v_counters (observe h w) collection in
      and_then (map_err Program_Error (new_counts existing delta)) (\<lambda>attributes.
      if existing = None then
        add_collection_plugin_v1 h collection payer update_auth (Attributes_Plugin attributes)
          Plugin_Update_Authority signers w
      else
        update_collection_plugin_v1 h collection payer update_auth (Attributes_Plugin attributes)
          signers w))"

section \<open>initialize, create\_collection and mint\_asset\<close>

definition initialize ::
  "'w mpl_host \<Rightarrow> u16 \<Rightarrow> u16 \<Rightarrow> account_info list \<Rightarrow> 'w \<Rightarrow> st_error + 'w" where
  "initialize h rewards_bps freeze_period accounts w =
     (case accounts of
        adm # config # collection # update_auth # mint # system # token # _ \<Rightarrow>
          and_then (signed adm) (\<lambda>_.
          and_then (v_collection (observe h w) (ai_key collection)) (\<lambda>u.
          and_then (program h (\<lambda>p. p = system_program_ID) system) (\<lambda>_.
          and_then (program h (is_token_program h) token) (\<lambda>_.
          and_then (seeds_canonical h staking_ID (config_seeds (ai_key collection)) config) (\<lambda>cb.
          and_then (init_config h (ai_key adm) (ai_key config)
            (config_seeds (ai_key collection) @ [[cb]]) w) (\<lambda>w.
          and_then (writable config) (\<lambda>_.
          and_then (seeds_canonical h staking_ID (rewards_mint_seeds (ai_key config)) mint) (\<lambda>mb.
          and_then (init_rewards_mint h (ai_key adm) (ai_key mint) 6 (ai_key config) (ai_key token)
            (rewards_mint_seeds (ai_key config) @ [[mb]]) w) (\<lambda>w.
          and_then (writable mint) (\<lambda>_.
          and_then (writable adm) (\<lambda>_.
          and_then
            (require (u = ai_key update_auth) (Program_Error InvalidUpdateAuthority)) (\<lambda>_.
          and_then (seeds_canonical h staking_ID (update_authority_seeds (ai_key collection))
            update_auth) (\<lambda>_.
          write_config h (ai_key config)
            \<lparr>cf_rewards_bps = rewards_bps, cf_freeze_period = freeze_period,
             cf_rewards_bump = mb, cf_bump = cb\<rparr> w)))))))))))))
      | _ \<Rightarrow> Inl AccountNotEnoughKeys)"

definition create_collection ::
  "'w mpl_host \<Rightarrow> string \<Rightarrow> string \<Rightarrow> account_info list \<Rightarrow> 'w \<Rightarrow> st_error + 'w" where
  "create_collection h name uri accounts w =
     (case accounts of
        payer # collection # update_auth # system # mpl # _ \<Rightarrow>
          and_then (signed payer) (\<lambda>_.
          and_then (signed collection) (\<lambda>_.
          and_then (program h (\<lambda>p. p = system_program_ID) system) (\<lambda>_.
          and_then (writable payer) (\<lambda>_.
          and_then (writable collection) (\<lambda>_.
          and_then (seeds_canonical h staking_ID (update_authority_seeds (ai_key collection))
            update_auth) (\<lambda>ub.
          and_then (mpl_core h mpl) (\<lambda>_.
          create_collection_v2 h (ai_key collection) (ai_key payer) (ai_key update_auth) name uri
            [update_authority_seeds (ai_key collection) @ [[ub]]] w)))))))
      | _ \<Rightarrow> Inl AccountNotEnoughKeys)"

definition mint_asset ::
  "'w mpl_host \<Rightarrow> string \<Rightarrow> string \<Rightarrow> account_info list \<Rightarrow> 'w \<Rightarrow> st_error + 'w" where
  "mint_asset h name uri accounts w =
     (case accounts of
        user # asset # collection # update_auth # system # mpl # _ \<Rightarrow>
          and_then (signed user) (\<lambda>_.
          and_then (signed asset) (\<lambda>_.
          and_then (v_collection (observe h w) (ai_key collection)) (\<lambda>_.
          and_then (program h (\<lambda>p. p = system_program_ID) system) (\<lambda>_.
          and_then (writable user) (\<lambda>_.
          and_then (writable asset) (\<lambda>_.
          and_then (writable collection) (\<lambda>_.
          and_then (seeds_canonical h staking_ID (update_authority_seeds (ai_key collection))
            update_auth) (\<lambda>ub.
          and_then (mpl_core h mpl) (\<lambda>_.
          create_v2 h (ai_key asset) (ai_key collection) (ai_key update_auth) (ai_key user)
            (ai_key user) name uri [update_authority_seeds (ai_key collection) @ [[ub]]] w)))))))))
      | _ \<Rightarrow> Inl AccountNotEnoughKeys)"

section \<open>stake\<close>

definition stake_handler ::
  "'w mpl_host \<Rightarrow> address \<Rightarrow> address \<Rightarrow> address \<Rightarrow> address \<Rightarrow> u8 \<Rightarrow> 'w \<Rightarrow> st_error + 'w" where
  "stake_handler h owner asset collection update_auth bump w =
     (let fetched = v_attributes (observe h w) asset;
          signers = [update_authority_seeds collection @ [[bump]]] in
      and_then
        (map_err Program_Error
          (case fetched of None \<Rightarrow> Inr [] | Some as \<Rightarrow> stake_scan as [])) (\<lambda>kept.
      and_then (clock_time h) (\<lambda>now.
      let attributes = kept @ [attr KEY_STAKED ''true'', attr KEY_STAKED_AT (to_string_i64 now),
            attr KEY_LAST_CLAIM (to_string_i64 now)] in
      and_then
        (if fetched = None then
           add_plugin_v1 h asset collection owner update_auth (Attributes_Plugin attributes)
             Plugin_Update_Authority signers w
         else
           update_plugin_v1 h asset collection owner update_auth (Attributes_Plugin attributes)
             signers w) (\<lambda>w.
      and_then
        (if v_frozen (observe h w) asset = None then
           add_plugin_v1 h asset collection owner owner (Freeze_Delegate True)
             Plugin_Update_Authority [] w
         else
           update_plugin_v1 h asset collection owner update_auth (Freeze_Delegate True)
             signers w) (\<lambda>w.
      update_collection_staked_count h collection owner update_auth signers 1 w)))))"

definition stake :: "'w mpl_host \<Rightarrow> account_info list \<Rightarrow> 'w \<Rightarrow> st_error + 'w" where
  "stake h accounts w =
     (case accounts of
        owner # config # asset # collection # update_auth # system # mpl # _ \<Rightarrow>
          and_then (load_staking_accounts h owner config asset collection w) (\<lambda>loaded.
          and_then (program h (\<lambda>p. p = system_program_ID) system) (\<lambda>_.
          and_then (staking_constraints h owner config asset collection update_auth loaded) (\<lambda>ub.
          and_then (mpl_core h mpl) (\<lambda>_.
          stake_handler h (ai_key owner) (ai_key asset) (ai_key collection) (ai_key update_auth)
            ub w))))
      | _ \<Rightarrow> Inl AccountNotEnoughKeys)"

section \<open>Rewards\<close>

definition whole_days :: "i64 \<Rightarrow> i64 \<Rightarrow> st_error + i64" where
  "whole_days now since =
     and_then (ok_or (checked_sub_i64 now since) (Program_Error InvalidTimestamp)) (\<lambda>d.
     ok_or (checked_div_i64 d SECONDS_PER_DAY) (Program_Error InvalidTimestamp))"

text \<open>\<open>reward_days as u64\<close> keeps the bits; \<open>10u64.pow\<close> panics on overflow.\<close>

definition reward_amount :: "i64 \<Rightarrow> u16 \<Rightarrow> u8 \<Rightarrow> st_error + u64" where
  "reward_amount reward_days rewards_bps decimals =
     and_then (ok_or (checked_mul reward_days (ucast rewards_bps))
       (Program_Error InvalidRewardsBps)) (\<lambda>x.
     and_then (ok_or (checked_pow 10 (ucast decimals)) Panicked) (\<lambda>scale.
     and_then (ok_or (checked_mul x scale) (Program_Error InvalidRewardsBps)) (\<lambda>y.
     Inr (y div 10000))))"

definition pay_rewards ::
  "'w mpl_host \<Rightarrow> address \<Rightarrow> address \<Rightarrow> address \<Rightarrow> address \<Rightarrow> address \<Rightarrow> config \<Rightarrow> u8 \<Rightarrow>
     u64 \<Rightarrow> 'w \<Rightarrow> st_error + 'w" where
  "pay_rewards h token mint ata config collection c decimals amount w =
     (if amount > 0 then
        mint_to_checked h token mint ata config amount decimals
          [config_seeds collection @ [[cf_bump c]]] w
      else Inr w)"

section \<open>claim\_rewards\<close>

definition claim_rewards_handler ::
  "'w mpl_host \<Rightarrow> address \<Rightarrow> address \<Rightarrow> address \<Rightarrow> address \<Rightarrow> u8 \<Rightarrow> config \<Rightarrow> address \<Rightarrow> u8 \<Rightarrow>
     address \<Rightarrow> address \<Rightarrow> address \<Rightarrow> 'w \<Rightarrow> st_error + 'w" where
  "claim_rewards_handler h owner asset collection update_auth bump c config decimals mint ata token w =
     (case v_attributes (observe h w) asset of
        None \<Rightarrow> Inl (Program_Error AssetNotStaked)
      | Some attributes \<Rightarrow>
          and_then (clock_time h) (\<lambda>now.
          and_then (map_err Program_Error (claim_scan attributes scan_start)) (\<lambda>s.
          if \<not> sc_is_staked s then Inl (Program_Error AssetNotStaked)
          else
            let last_claim = (case sc_last_claim s of None \<Rightarrow> sc_staked_at s | Some t \<Rightarrow> t) in
            and_then (whole_days now last_claim) (\<lambda>reward_days.
            if reward_days = 0 then Inr w
            else
              and_then (ok_or (checked_mul_i64 reward_days SECONDS_PER_DAY)
                (Program_Error Staking_ArithmeticOverflow)) (\<lambda>seconds.
              and_then (ok_or (checked_add_i64 last_claim seconds)
                (Program_Error Staking_ArithmeticOverflow)) (\<lambda>new_last_claim.
              and_then (update_plugin_v1 h asset collection owner update_auth
                (Attributes_Plugin (sc_attributes_list s @
                  [attr KEY_LAST_CLAIM (to_string_i64 new_last_claim)]))
                [update_authority_seeds collection @ [[bump]]] w) (\<lambda>w.
              and_then (reward_amount reward_days (cf_rewards_bps c) decimals) (\<lambda>amount.
              pay_rewards h token mint ata config collection c decimals amount w))))))))"

section \<open>unstake\<close>

definition unstake_handler ::
  "'w mpl_host \<Rightarrow> address \<Rightarrow> address \<Rightarrow> address \<Rightarrow> address \<Rightarrow> u8 \<Rightarrow> config \<Rightarrow> address \<Rightarrow> u8 \<Rightarrow>
     address \<Rightarrow> address \<Rightarrow> address \<Rightarrow> 'w \<Rightarrow> st_error + 'w" where
  "unstake_handler h owner asset collection update_auth bump c config decimals mint ata token w =
     (case v_attributes (observe h w) asset of
        None \<Rightarrow> Inl (Program_Error AssetNotStaked)
      | Some attributes \<Rightarrow>
          let signers = [update_authority_seeds collection @ [[bump]]] in
          and_then (clock_time h) (\<lambda>now.
          and_then (map_err Program_Error (unstake_scan attributes scan_start)) (\<lambda>s.
          if \<not> sc_is_staked s then Inl (Program_Error AssetNotStaked)
          else
            and_then (whole_days now (sc_staked_at s)) (\<lambda>staked_days.
            if sint staked_days < sint (ucast (cf_freeze_period c) :: i64)
            then Inl (Program_Error FreezePeriodNotElapsed)
            else
              let last_claim = (case sc_last_claim s of None \<Rightarrow> sc_staked_at s | Some t \<Rightarrow> t) in
              and_then (whole_days now last_claim) (\<lambda>reward_days.
              and_then (update_plugin_v1 h asset collection owner update_auth
                (Attributes_Plugin (sc_attributes_list s @ [attr KEY_STAKED ''false'',
                  attr KEY_STAKED_AT ''0'', attr KEY_LAST_CLAIM ''0''])) signers w) (\<lambda>w.
              and_then (update_plugin_v1 h asset collection owner update_auth
                (Freeze_Delegate False) signers w) (\<lambda>w.
              and_then (update_collection_staked_count h collection owner update_auth signers
                (- 1) w) (\<lambda>w.
              and_then (reward_amount reward_days (cf_rewards_bps c) decimals) (\<lambda>amount.
              pay_rewards h token mint ata config collection c decimals amount w)))))))))"

section \<open>The accounts of claim\_rewards and unstake\<close>

text \<open>The two instructions have the same accounts; \<open>handler\<close> is the one to run.\<close>

definition with_rewards_accounts ::
  "('w mpl_host \<Rightarrow> address \<Rightarrow> address \<Rightarrow> address \<Rightarrow> address \<Rightarrow> u8 \<Rightarrow> config \<Rightarrow> address \<Rightarrow> u8 \<Rightarrow>
     address \<Rightarrow> address \<Rightarrow> address \<Rightarrow> 'w \<Rightarrow> st_error + 'w) \<Rightarrow>
   'w mpl_host \<Rightarrow> account_info list \<Rightarrow> 'w \<Rightarrow> st_error + 'w" where
  "with_rewards_accounts handler h accounts w =
     (case accounts of
        owner # config # asset # collection # update_auth # mint # ata # token # ata_program #
          system # mpl # _ \<Rightarrow>
          and_then (load_staking_accounts h owner config asset collection w) (\<lambda>loaded.
          and_then (v_mint (observe h w) (ai_key mint)) (\<lambda>decimals.
          and_then (program h (is_token_program h) token) (\<lambda>_.
          and_then (program h (\<lambda>p. p = associated_token_ID h) ata_program) (\<lambda>_.
          and_then (program h (\<lambda>p. p = system_program_ID) system) (\<lambda>_.
          and_then (init_ata_if_needed h (ai_key owner) (ai_key ata) (ai_key mint) (ai_key owner)
            w) (\<lambda>w.
          and_then (writable ata) (\<lambda>_.
          and_then (staking_constraints h owner config asset collection update_auth loaded) (\<lambda>ub.
          and_then (seeds_with_bump h staking_ID (rewards_mint_seeds (ai_key config))
            (cf_rewards_bump (fst loaded)) mint) (\<lambda>_.
          and_then (writable mint) (\<lambda>_.
          and_then (mpl_core h mpl) (\<lambda>_.
          handler h (ai_key owner) (ai_key asset) (ai_key collection) (ai_key update_auth) ub
            (fst loaded) (ai_key config) decimals (ai_key mint) (ai_key ata) (ai_key token)
            w)))))))))))
      | _ \<Rightarrow> Inl AccountNotEnoughKeys)"

definition claim_rewards :: "'w mpl_host \<Rightarrow> account_info list \<Rightarrow> 'w \<Rightarrow> st_error + 'w" where
  "claim_rewards = with_rewards_accounts claim_rewards_handler"

definition unstake :: "'w mpl_host \<Rightarrow> account_info list \<Rightarrow> 'w \<Rightarrow> st_error + 'w" where
  "unstake = with_rewards_accounts unstake_handler"

section \<open>The program\<close>

datatype staking_instruction =
    Initialize u16 u16
  | Create_Collection string string
  | Mint_Asset string string
  | Stake
  | Claim_Rewards
  | Unstake

fun anchor_core_staking ::
  "'w mpl_host \<Rightarrow> staking_instruction \<Rightarrow> account_info list \<Rightarrow> 'w \<Rightarrow> st_error + 'w" where
  "anchor_core_staking h (Initialize rewards_bps freeze_period) =
     initialize h rewards_bps freeze_period"
| "anchor_core_staking h (Create_Collection name uri) = create_collection h name uri"
| "anchor_core_staking h (Mint_Asset name uri) = mint_asset h name uri"
| "anchor_core_staking h Stake = stake h"
| "anchor_core_staking h Claim_Rewards = claim_rewards h"
| "anchor_core_staking h Unstake = unstake h"

end
