(* ===== verification/Staking_Steps.thy ===== *)
theory Staking_Steps
  imports Staking_Program
begin

text \<open>
  What an accepted staking instruction does to what the program observes. \<open>mpl_law\<close> states
  what the documentation of mpl-core and of the token programs promises of each call; on top of it
  every instruction is one update of the \<open>view\<close>, and a state of the abstract machine
  \<open>Idle\<close> / \<open>Staked\<close> becomes another.
\<close>

section \<open>What the documentation promises\<close>

fun set_plugin :: "address \<Rightarrow> plugin \<Rightarrow> view \<Rightarrow> view" where
  "set_plugin A (Attributes_Plugin as) v = v\<lparr>v_attributes := (v_attributes v)(A \<mapsto> as)\<rparr>"
| "set_plugin A (Freeze_Delegate b) v = v\<lparr>v_frozen := (v_frozen v)(A \<mapsto> b)\<rparr>"

fun set_collection_plugin :: "address \<Rightarrow> plugin \<Rightarrow> view \<Rightarrow> view" where
  "set_collection_plugin C (Attributes_Plugin as) v = v\<lparr>v_counters := (v_counters v)(C \<mapsto> as)\<rparr>"
| "set_collection_plugin C (Freeze_Delegate b) v = v"

definition plugin_law :: "'w mpl_host \<Rightarrow> bool" where
  "plugin_law h \<longleftrightarrow>
     (\<forall>A C p a pl ia s w w'. add_plugin_v1 h A C p a pl ia s w = Inr w' \<longrightarrow>
        observe h w' = set_plugin A pl (observe h w)) \<and>
     (\<forall>A C p a pl s w w'. update_plugin_v1 h A C p a pl s w = Inr w' \<longrightarrow>
        observe h w' = set_plugin A pl (observe h w))"

definition collection_plugin_law :: "'w mpl_host \<Rightarrow> bool" where
  "collection_plugin_law h \<longleftrightarrow>
     (\<forall>C p a pl ia s w w'. add_collection_plugin_v1 h C p a pl ia s w = Inr w' \<longrightarrow>
        observe h w' = set_collection_plugin C pl (observe h w)) \<and>
     (\<forall>C p a pl s w w'. update_collection_plugin_v1 h C p a pl s w = Inr w' \<longrightarrow>
        observe h w' = set_collection_plugin C pl (observe h w))"

definition mint_law :: "'w mpl_host \<Rightarrow> bool" where
  "mint_law h \<longleftrightarrow>
     (\<forall>tp m to a n d s w w'. mint_to_checked h tp m to a n d s w = Inr w' \<longrightarrow>
        observe h w' = (observe h w)
          \<lparr>v_supply := (v_supply (observe h w))(m := v_supply (observe h w) m + unat n)\<rparr>) \<and>
     (\<forall>p k m a w w'. init_ata_if_needed h p k m a w = Inr w' \<longrightarrow> observe h w' = observe h w)"

text \<open>A new asset, collection, config or mint is made at an address where none is.\<close>

definition creation_law :: "'w mpl_host \<Rightarrow> bool" where
  "creation_law h \<longleftrightarrow>
     (\<forall>A C a p own n u s w w'. create_v2 h A C a p own n u s w = Inr w' \<longrightarrow>
        isl (v_asset (observe h w) A) \<and>
        observe h w' = (observe h w)
          \<lparr>v_asset := (v_asset (observe h w))
             (A := Inr \<lparr>ba_owner = own, ba_update_authority = Collection_Authority C\<rparr>),
           v_attributes := (v_attributes (observe h w))(A := None),
           v_frozen := (v_frozen (observe h w))(A := None)\<rparr>) \<and>
     (\<forall>C p a n u s w w'. create_collection_v2 h C p a n u s w = Inr w' \<longrightarrow>
        isl (v_collection (observe h w) C) \<and>
        observe h w' = (observe h w)
          \<lparr>v_collection := (v_collection (observe h w))(C := Inr a),
           v_counters := (v_counters (observe h w))(C := None)\<rparr>)"

definition config_law :: "'w mpl_host \<Rightarrow> bool" where
  "config_law h \<longleftrightarrow>
     (\<forall>p k s w w'. init_config h p k s w = Inr w' \<longrightarrow>
        isl (v_config (observe h w) k) \<and>
        (\<exists>c. observe h w' = (observe h w)\<lparr>v_config := (v_config (observe h w))(k := Inr c)\<rparr>)) \<and>
     (\<forall>k c w w'. write_config h k c w = Inr w' \<longrightarrow>
        observe h w' = (observe h w)\<lparr>v_config := (v_config (observe h w))(k := Inr c)\<rparr>) \<and>
     (\<forall>p m d a tp s w w'. init_rewards_mint h p m d a tp s w = Inr w' \<longrightarrow>
        isl (v_mint (observe h w) m) \<and>
        observe h w' = (observe h w)
          \<lparr>v_mint := (v_mint (observe h w))(m := Inr d),
           v_supply := (v_supply (observe h w))(m := 0)\<rparr>)"

definition mpl_law :: "'w mpl_host \<Rightarrow> bool" where
  "mpl_law h \<longleftrightarrow>
     plugin_law h \<and> collection_plugin_law h \<and> mint_law h \<and> creation_law h \<and> config_law h"

lemma plugin_calls:
  "mpl_law h \<Longrightarrow> add_plugin_v1 h A C p a pl ia s w = Inr w' \<Longrightarrow>
     observe h w' = set_plugin A pl (observe h w)"
  "mpl_law h \<Longrightarrow> update_plugin_v1 h A C p a pl s w = Inr w' \<Longrightarrow>
     observe h w' = set_plugin A pl (observe h w)"
  unfolding mpl_law_def plugin_law_def by (elim conjE, meson)+

lemma collection_plugin_calls:
  "mpl_law h \<Longrightarrow> add_collection_plugin_v1 h C p a pl ia s w = Inr w' \<Longrightarrow>
     observe h w' = set_collection_plugin C pl (observe h w)"
  "mpl_law h \<Longrightarrow> update_collection_plugin_v1 h C p a pl s w = Inr w' \<Longrightarrow>
     observe h w' = set_collection_plugin C pl (observe h w)"
  unfolding mpl_law_def collection_plugin_law_def by (elim conjE, meson)+

lemma mint_calls:
  "mpl_law h \<Longrightarrow> mint_to_checked h tp m to a n d s w = Inr w' \<Longrightarrow>
     observe h w' = (observe h w)
       \<lparr>v_supply := (v_supply (observe h w))(m := v_supply (observe h w) m + unat n)\<rparr>"
  "mpl_law h \<Longrightarrow> init_ata_if_needed h p k m a w = Inr w' \<Longrightarrow> observe h w' = observe h w"
  unfolding mpl_law_def mint_law_def by (elim conjE, meson)+

lemma creation_calls:
  "mpl_law h \<Longrightarrow> create_v2 h A C a p own n u s w = Inr w' \<Longrightarrow>
     isl (v_asset (observe h w) A) \<and>
     observe h w' = (observe h w)
       \<lparr>v_asset := (v_asset (observe h w))
          (A := Inr \<lparr>ba_owner = own, ba_update_authority = Collection_Authority C\<rparr>),
        v_attributes := (v_attributes (observe h w))(A := None),
        v_frozen := (v_frozen (observe h w))(A := None)\<rparr>"
  "mpl_law h \<Longrightarrow> create_collection_v2 h C p a n u s w = Inr w' \<Longrightarrow>
     isl (v_collection (observe h w) C) \<and>
     observe h w' = (observe h w)
       \<lparr>v_collection := (v_collection (observe h w))(C := Inr a),
        v_counters := (v_counters (observe h w))(C := None)\<rparr>"
  unfolding mpl_law_def creation_law_def by (elim conjE, meson)+

lemma config_calls:
  "mpl_law h \<Longrightarrow> init_config h p k s w = Inr w' \<Longrightarrow>
     isl (v_config (observe h w) k) \<and>
     (\<exists>c. observe h w' = (observe h w)\<lparr>v_config := (v_config (observe h w))(k := Inr c)\<rparr>)"
  "mpl_law h \<Longrightarrow> write_config h k c w = Inr w' \<Longrightarrow>
     observe h w' = (observe h w)\<lparr>v_config := (v_config (observe h w))(k := Inr c)\<rparr>"
  "mpl_law h \<Longrightarrow> init_rewards_mint h p m d a tp s w = Inr w' \<Longrightarrow>
     isl (v_mint (observe h w) m) \<and>
     observe h w' = (observe h w)
       \<lparr>v_mint := (v_mint (observe h w))(m := Inr d),
        v_supply := (v_supply (observe h w))(m := 0)\<rparr>"
  unfolding mpl_law_def config_law_def by (elim conjE, meson)+

text \<open>The same host at another time.\<close>

definition at_clock :: "i64 \<Rightarrow> 'w mpl_host \<Rightarrow> 'w mpl_host" where
  "at_clock t h = h\<lparr>clock_time := Inr t\<rparr>"

lemma at_clock_law [simp]: "mpl_law (at_clock t h) = mpl_law h"
  by (simp add: mpl_law_def plugin_law_def collection_plugin_law_def mint_law_def creation_law_def
      config_law_def at_clock_def)

lemma at_clock_simps [simp]:
  "observe (at_clock t h) = observe h"
  "clock_time (at_clock t h) = Inr t"
  by (simp_all add: at_clock_def)

section \<open>The abstract machine of one asset\<close>

datatype stake_state = Idle | Staked i64 i64

fun in_state :: "stake_state \<Rightarrow> attribute list option \<Rightarrow> bool" where
  "in_state Idle None \<longleftrightarrow> True"
| "in_state Idle (Some as) \<longleftrightarrow> idle_list as"
| "in_state (Staked t l) None \<longleftrightarrow> False"
| "in_state (Staked t l) (Some as) \<longleftrightarrow> staked_list t l as"

lemma in_state_unique: "in_state s as \<Longrightarrow> in_state s' as \<Longrightarrow> s' = s"
  by (cases s; cases s'; cases as) (auto simp: staked_list_def idle_list_def)

text \<open>Whole days between two times, as the program counts them.\<close>

definition days_between :: "i64 \<Rightarrow> i64 \<Rightarrow> int" where
  "days_between since now = (sint now - sint since) sdiv 86400"

lemma whole_days_Inr [res_simps]:
  "whole_days now since = Inr d \<Longrightarrow> sint d = days_between since now"
  by (auto simp: whole_days_def res_simps days_between_def SECONDS_PER_DAY_def)

lemma days_between_nonneg:
  "sint since \<le> sint now \<Longrightarrow> days_between since now = (sint now - sint since) div 86400"
  by (simp add: days_between_def sdiv_nonneg)

text \<open>The attributes that are not the program's.\<close>

definition plain :: "attribute list option \<Rightarrow> attribute list" where
  "plain as = (case as of None \<Rightarrow> [] | Some as \<Rightarrow> without staking_keys as)"

section \<open>The counters\<close>

lemma update_count_effect:
  assumes law: "mpl_law h" and "update_collection_staked_count h C p u s delta w = Inr w'"
  obtains as where "observe h w' = (observe h w)\<lparr>v_counters := (v_counters (observe h w))(C \<mapsto> as)\<rparr>"
    and "new_counts (v_counters (observe h w) C) delta = Inr as"
  using assms(2) collection_plugin_calls [OF law]
  by (fastforce simp: update_collection_staked_count_def Let_def res_simps split: if_splits)

section \<open>Handlers\<close>

lemma pay_rewards_effect:
  assumes law: "mpl_law h" and "pay_rewards h tp m ata cfg C c dec n w = Inr w'"
  shows "observe h w' = (observe h w)
    \<lparr>v_supply := (v_supply (observe h w))(m := v_supply (observe h w) m + unat n)\<rparr>"
proof (cases "n > 0")
  case True
  with assms(2) show ?thesis
    by (auto simp: pay_rewards_def intro: mint_calls(1) [OF law])
next
  case False
  then have "n = 0"
    by (simp add: word_gt_0)
  with assms(2) show ?thesis
    by (simp add: pay_rewards_def)
qed

lemma put_plugin_effect:
  assumes "mpl_law h"
    and "(if c then add_plugin_v1 h A C p a pl ia s w else update_plugin_v1 h A C' p' a' pl s' w) =
      Inr w'"
  shows "observe h w' = set_plugin A pl (observe h w)"
  using assms plugin_calls [OF assms(1)] by (auto split: if_splits)

text \<open>\<open>stake\<close>: from idle to staked now, frozen, one more in both counters.\<close>

lemma stake_handler_effect:
  assumes law: "mpl_law h" and run: "stake_handler h own A C ua b w = Inr w'"
  obtains now as cs where "clock_time h = Inr now" and "in_state Idle (v_attributes (observe h w) A)"
    and "staked_list now now as" and "plain (Some as) = plain (v_attributes (observe h w) A)"
    and "new_counts (v_counters (observe h w) C) 1 = Inr cs"
    and "observe h w' = (observe h w)
      \<lparr>v_attributes := (v_attributes (observe h w))(A \<mapsto> as),
       v_frozen := (v_frozen (observe h w))(A \<mapsto> True),
       v_counters := (v_counters (observe h w))(C \<mapsto> cs)\<rparr>"
proof -
  let ?V = "observe h w"
  let ?new = "\<lambda>kept now. kept @ [attr KEY_STAKED ''true'', attr KEY_STAKED_AT (to_string_i64 now),
    attr KEY_LAST_CLAIM (to_string_i64 now)]"
  from run obtain kept now w1 w2 where
    kept: "(case v_attributes ?V A of None \<Rightarrow> Inr [] | Some as \<Rightarrow> stake_scan as []) = Inr kept"
    and now: "clock_time h = Inr now"
    and p1: "(if v_attributes ?V A = None then
        add_plugin_v1 h A C own ua (Attributes_Plugin (?new kept now)) Plugin_Update_Authority
          [update_authority_seeds C @ [[b]]] w
      else update_plugin_v1 h A C own ua (Attributes_Plugin (?new kept now))
          [update_authority_seeds C @ [[b]]] w) = Inr w1"
    and p2: "(if v_frozen (observe h w1) A = None then
        add_plugin_v1 h A C own own (Freeze_Delegate True) Plugin_Update_Authority [] w1
      else update_plugin_v1 h A C own ua (Freeze_Delegate True)
          [update_authority_seeds C @ [[b]]] w1) = Inr w2"
    and w': "update_collection_staked_count h C own ua [update_authority_seeds C @ [[b]]] 1 w2 =
      Inr w'"
    unfolding stake_handler_def Let_def and_then_Inr_iff map_err_Inr_iff by blast
  note w1 = put_plugin_effect [OF law p1] and w2 = put_plugin_effect [OF law p2]
  obtain cs where cs: "observe h w' = (observe h w2)\<lparr>v_counters := (v_counters (observe h w2))(C \<mapsto> cs)\<rparr>"
    "new_counts (v_counters (observe h w2) C) 1 = Inr cs"
    using w' update_count_effect [OF law] by metis
  have idle: "in_state Idle (v_attributes ?V A)" and plain: "kept = plain (v_attributes ?V A)"
    using kept by (auto simp: plain_def idle_list_def res_simps split: option.splits)
  have "staked_list now now (?new kept now)" and "plain (Some (?new kept now)) = kept"
    by (cases "v_attributes ?V A"; simp add: staked_list_def plain plain_def)+
  with now idle plain cs w1 w2 show ?thesis
    using that [of now "?new kept now" cs] by simp
qed

lemma claim_handler_effect:
  assumes law: "mpl_law h"
    and run: "claim_rewards_handler h own A C ua b c cfg dec m ata tp w = Inr w'"
    and state: "in_state (Staked t l) (v_attributes (observe h w) A)"
  obtains now d where "clock_time h = Inr now" and "sint d = days_between l now"
    and "d = 0 \<Longrightarrow> w' = w"
    and "d \<noteq> 0 \<Longrightarrow> \<exists>as l' n. sint l' = sint l + 86400 * sint d \<and> staked_list t l' as \<and>
      plain (Some as) = plain (v_attributes (observe h w) A) \<and>
      reward_amount d (cf_rewards_bps c) dec = Inr n \<and>
      observe h w' = (observe h w)
        \<lparr>v_attributes := (v_attributes (observe h w))(A \<mapsto> as),
         v_supply := (v_supply (observe h w))(m := v_supply (observe h w) m + unat n)\<rparr>"
proof -
  let ?V = "observe h w"
  from state obtain as where as: "v_attributes ?V A = Some as" "staked_list t l as"
    by (cases "v_attributes ?V A") auto
  note scan = staked_list_scan(2) [OF as(2)]
  from run obtain now d where now: "clock_time h = Inr now" and d: "whole_days now l = Inr d"
    by (auto simp: claim_rewards_handler_def as scan res_simps)
  have days: "sint d = days_between l now"
    using whole_days_Inr [OF d] .
  have zero: "w' = w" if "d = 0"
    using run that by (simp add: claim_rewards_handler_def as scan now d)
  have pays: "\<exists>as' l' n. sint l' = sint l + 86400 * sint d \<and> staked_list t l' as' \<and>
      plain (Some as') = plain (v_attributes ?V A) \<and>
      reward_amount d (cf_rewards_bps c) dec = Inr n \<and>
      observe h w' = ?V
        \<lparr>v_attributes := (v_attributes ?V)(A \<mapsto> as'),
         v_supply := (v_supply ?V)(m := v_supply ?V m + unat n)\<rparr>" if "d \<noteq> 0"
  proof -
    from run that obtain seconds l' w1 n where
      "checked_mul_i64 d SECONDS_PER_DAY = Some seconds" and "checked_add_i64 l seconds = Some l'"
      and w1: "observe h w1 = set_plugin A (Attributes_Plugin
        (without {KEY_LAST_CLAIM} as @ [attr KEY_LAST_CLAIM (to_string_i64 l')])) ?V"
      and n: "reward_amount d (cf_rewards_bps c) dec = Inr n"
      and w': "pay_rewards h tp m ata cfg C c dec n w1 = Inr w'"
      using plugin_calls(2) [OF law]
      by (fastforce simp: claim_rewards_handler_def as scan now d res_simps)
    then have "sint l' = sint l + 86400 * sint d"
      by (simp add: res_simps SECONDS_PER_DAY_def)
    moreover have "staked_list t l' (without {KEY_LAST_CLAIM} as @
        [attr KEY_LAST_CLAIM (to_string_i64 l')])"
      using as(2) by (simp add: staked_list_def)
    moreover have "plain (Some (without {KEY_LAST_CLAIM} as @
        [attr KEY_LAST_CLAIM (to_string_i64 l')])) = plain (v_attributes ?V A)"
      using as(1) by (simp add: plain_def insert_commute)
    ultimately show ?thesis
      using n w1 pay_rewards_effect [OF law w'] by fastforce
  qed
  show ?thesis
    using that [OF now days zero pays] .
qed

lemma unstake_handler_effect:
  assumes law: "mpl_law h"
    and run: "unstake_handler h own A C ua b c cfg dec m ata tp w = Inr w'"
    and state: "in_state (Staked t l) (v_attributes (observe h w) A)"
  obtains now d n as cs where "clock_time h = Inr now"
    and "int (unat (cf_freeze_period c)) \<le> days_between t now" and "sint d = days_between l now"
    and "reward_amount d (cf_rewards_bps c) dec = Inr n"
    and "idle_list as" and "plain (Some as) = plain (v_attributes (observe h w) A)"
    and "new_counts (v_counters (observe h w) C) (- 1) = Inr cs"
    and "observe h w' = (observe h w)
      \<lparr>v_attributes := (v_attributes (observe h w))(A \<mapsto> as),
       v_frozen := (v_frozen (observe h w))(A \<mapsto> False),
       v_counters := (v_counters (observe h w))(C \<mapsto> cs),
       v_supply := (v_supply (observe h w))(m := v_supply (observe h w) m + unat n)\<rparr>"
proof -
  let ?V = "observe h w"
  from state obtain as where as: "v_attributes ?V A = Some as" "staked_list t l as"
    by (cases "v_attributes ?V A") auto
  note scan = staked_list_scan(1) [OF as(2)]
  let ?new = "without staking_keys as @ [attr KEY_STAKED ''false'', attr KEY_STAKED_AT ''0'',
    attr KEY_LAST_CLAIM ''0'']"
  from run obtain now sd d w1 w2 w3 n where now: "clock_time h = Inr now"
    and sd: "whole_days now t = Inr sd" "sint (ucast (cf_freeze_period c) :: i64) \<le> sint sd"
    and d: "whole_days now l = Inr d"
    and w1: "update_plugin_v1 h A C own ua (Attributes_Plugin ?new)
      [update_authority_seeds C @ [[b]]] w = Inr w1"
    and w2: "update_plugin_v1 h A C own ua (Freeze_Delegate False)
      [update_authority_seeds C @ [[b]]] w1 = Inr w2"
    and w3: "update_collection_staked_count h C own ua [update_authority_seeds C @ [[b]]] (- 1) w2 =
      Inr w3"
    and n: "reward_amount d (cf_rewards_bps c) dec = Inr n"
    and w': "pay_rewards h tp m ata cfg C c dec n w3 = Inr w'"
    by (auto simp: unstake_handler_def as scan res_simps Let_def not_less)
  note w1 = plugin_calls(2) [OF law w1] and w2 = plugin_calls(2) [OF law w2]
  obtain cs where cs: "observe h w3 = (observe h w2)\<lparr>v_counters := (v_counters (observe h w2))(C \<mapsto> cs)\<rparr>"
    "new_counts (v_counters (observe h w2) C) (- 1) = Inr cs"
    using w3 update_count_effect [OF law] by metis
  have freeze: "int (unat (cf_freeze_period c)) \<le> days_between t now"
    using sd(2) whole_days_Inr [OF sd(1)] by (simp add: sint_ucast_widen)
  have "idle_list ?new" and "plain (Some ?new) = plain (v_attributes ?V A)"
    by (simp_all add: idle_list_def plain_def as(1))
  with now freeze whole_days_Inr [OF d] n w1 w2 cs pay_rewards_effect [OF law w'] show ?thesis
    using that [of now d n ?new cs] by simp
qed

text \<open>Neither runs on an idle asset.\<close>

lemma idle_no_rewards:
  assumes "in_state Idle (v_attributes (observe h w) A)"
  shows "claim_rewards_handler h own A C ua b c cfg dec m ata tp w \<noteq> Inr w'"
    and "unstake_handler h own A C ua b c cfg dec m ata tp w \<noteq> Inr w'"
  using assms idle_list_scan
  by (auto simp: claim_rewards_handler_def unstake_handler_def res_simps Let_def split: option.splits)

end
