(* ===== verification/Staking_Runs.thy ===== *)
theory Staking_Runs
  imports Staking_Steps
begin

text \<open>
  Instructions with their accounts, and two kinds of runs over them: the session of one asset, from
  the stake to the unstake, and the life of one collection with all its assets.
\<close>

section \<open>Accepted instructions\<close>

text \<open>What the account constraints have checked when a handler runs.\<close>

definition valid_staker ::
  "'w mpl_host \<Rightarrow> account_info \<Rightarrow> account_info \<Rightarrow> account_info \<Rightarrow> account_info \<Rightarrow> 'w \<Rightarrow>
     config \<Rightarrow> bool" where
  "valid_staker h owner config asset collection w c \<longleftrightarrow>
     ai_is_signer owner \<and> v_config (observe h w) (ai_key config) = Inr c \<and>
     create_program_address h (config_seeds (ai_key collection) @ [[cf_bump c]]) staking_ID =
       Some (ai_key config) \<and>
     v_asset (observe h w) (ai_key asset) =
       Inr \<lparr>ba_owner = ai_key owner,
            ba_update_authority = Collection_Authority (ai_key collection)\<rparr>"

lemma staking_checks:
  assumes "load_staking_accounts h owner config asset collection w = Inr loaded"
    and "staking_constraints h owner config asset collection ua loaded = Inr ub"
  shows "valid_staker h owner config asset collection w (fst loaded)"
proof -
  obtain c a u where loaded: "loaded = (c, a, u)"
    by (cases loaded) auto
  have "a = \<lparr>ba_owner = ba_owner a, ba_update_authority = ba_update_authority a\<rparr>"
    by simp
  then show ?thesis
    using assms unfolding loaded valid_staker_def
    by (auto simp: load_staking_accounts_def staking_constraints_def res_simps)
qed

lemma stake_accepted:
  assumes "stake h accounts w = Inr w'"
  obtains owner config asset collection ua rest c ub where
    "accounts = owner # config # asset # collection # ua # rest"
    and "valid_staker h owner config asset collection w c"
    and "stake_handler h (ai_key owner) (ai_key asset) (ai_key collection) (ai_key ua) ub w = Inr w'"
  using assms staking_checks
  by (fastforce simp: stake_def res_simps split: list.splits)

lemma rewards_shape:
  assumes "with_rewards_accounts handler h accounts w = Inr w'"
  obtains owner config asset collection ua mint rest where
    "accounts = owner # config # asset # collection # ua # mint # rest"
  using assms by (auto simp: with_rewards_accounts_def split: list.splits)

lemma rewards_accepted:
  assumes law: "mpl_law h" and run: "with_rewards_accounts handler h accounts w = Inr w'"
    and shape: "accounts = owner # config # asset # collection # ua # mint # rest"
  obtains ata token :: account_info and c dec ub w0 where
    "valid_staker h owner config asset collection w c"
    and "v_mint (observe h w) (ai_key mint) = Inr dec"
    and "create_program_address h (rewards_mint_seeds (ai_key config) @ [[cf_rewards_bump c]])
      staking_ID = Some (ai_key mint)"
    and "observe h w0 = observe h w"
    and "handler h (ai_key owner) (ai_key asset) (ai_key collection) (ai_key ua) ub c (ai_key config)
      dec (ai_key mint) (ai_key ata) (ai_key token) w0 = Inr w'"
proof -
  from run shape obtain ata token p s m others where
    accounts: "accounts = owner # config # asset # collection # ua # mint # ata # token # p # s # m # others"
    by (auto simp: with_rewards_accounts_def split: list.splits)
  from run obtain loaded dec w0 ub where
    l: "load_staking_accounts h owner config asset collection w = Inr loaded"
    and m: "v_mint (observe h w) (ai_key mint) = Inr dec"
    and ata: "init_ata_if_needed h (ai_key owner) (ai_key ata) (ai_key mint) (ai_key owner) w = Inr w0"
    and c: "staking_constraints h owner config asset collection ua loaded = Inr ub"
    and s: "create_program_address h (rewards_mint_seeds (ai_key config) @ [[cf_rewards_bump (fst loaded)]])
      staking_ID = Some (ai_key mint)"
    and r: "handler h (ai_key owner) (ai_key asset) (ai_key collection) (ai_key ua) ub (fst loaded)
      (ai_key config) dec (ai_key mint) (ai_key ata) (ai_key token) w0 = Inr w'"
    unfolding accounts with_rewards_accounts_def list.case and_then_Inr_iff check_Inr by blast
  show ?thesis
    by (rule that [OF staking_checks [OF l c] m s mint_calls(2) [OF law ata] r])
qed

section \<open>Effects\<close>

lemma stake_effect:
  assumes law: "mpl_law h" and run: "stake h accounts w = Inr w'"
  obtains owner config asset collection ua rest c now as cs where
    "accounts = owner # config # asset # collection # ua # rest"
    and "valid_staker h owner config asset collection w c" and "clock_time h = Inr now"
    and "in_state Idle (v_attributes (observe h w) (ai_key asset))"
    and "staked_list now now as" and "plain (Some as) = plain (v_attributes (observe h w) (ai_key asset))"
    and "new_counts (v_counters (observe h w) (ai_key collection)) 1 = Inr cs"
    and "observe h w' = (observe h w)
      \<lparr>v_attributes := (v_attributes (observe h w))(ai_key asset \<mapsto> as),
       v_frozen := (v_frozen (observe h w))(ai_key asset \<mapsto> True),
       v_counters := (v_counters (observe h w))(ai_key collection \<mapsto> cs)\<rparr>"
proof -
  obtain owner config asset collection ua rest c ub where
    a: "accounts = owner # config # asset # collection # ua # rest"
    and v: "valid_staker h owner config asset collection w c"
    and s: "stake_handler h (ai_key owner) (ai_key asset) (ai_key collection) (ai_key ua) ub w = Inr w'"
    by (rule stake_accepted [OF run])
  show ?thesis
    by (rule stake_handler_effect [OF law s]) (rule that [OF a v])
qed

lemma claim_effect:
  assumes law: "mpl_law h" and run: "claim_rewards h accounts w = Inr w'"
    and accounts: "accounts = owner # config # asset # collection # ua # mint # rest"
    and state: "in_state (Staked t l) (v_attributes (observe h w) (ai_key asset))"
  obtains c dec now d where
    "valid_staker h owner config asset collection w c" and "clock_time h = Inr now"
    and "v_mint (observe h w) (ai_key mint) = Inr dec"
    and "create_program_address h (rewards_mint_seeds (ai_key config) @ [[cf_rewards_bump c]])
      staking_ID = Some (ai_key mint)"
    and "sint d = days_between l now"
    and "d = 0 \<Longrightarrow> observe h w' = observe h w"
    and "d \<noteq> 0 \<Longrightarrow> \<exists>as l' n. sint l' = sint l + 86400 * sint d \<and> staked_list t l' as \<and>
      plain (Some as) = plain (v_attributes (observe h w) (ai_key asset)) \<and>
      reward_amount d (cf_rewards_bps c) dec = Inr n \<and>
      observe h w' = (observe h w)
        \<lparr>v_attributes := (v_attributes (observe h w))(ai_key asset \<mapsto> as),
         v_supply := (v_supply (observe h w))
           (ai_key mint := v_supply (observe h w) (ai_key mint) + unat n)\<rparr>"
proof -
  from run [unfolded claim_rewards_def accounts] obtain ata token :: account_info and c dec ub w0 where
    v: "valid_staker h owner config asset collection w c"
    and m: "v_mint (observe h w) (ai_key mint) = Inr dec"
    and s: "create_program_address h (rewards_mint_seeds (ai_key config) @ [[cf_rewards_bump c]])
      staking_ID = Some (ai_key mint)"
    and w0: "observe h w0 = observe h w"
    and r: "claim_rewards_handler h (ai_key owner) (ai_key asset) (ai_key collection) (ai_key ua) ub c
      (ai_key config) dec (ai_key mint) (ai_key ata) (ai_key token) w0 = Inr w'"
    by (rule rewards_accepted [OF law _ refl])
  show ?thesis
    by (rule claim_handler_effect [OF law r state [folded w0]])
      (rule that [OF v _ m s], auto simp: w0)
qed

lemma unstake_effect:
  assumes law: "mpl_law h" and run: "unstake h accounts w = Inr w'"
    and accounts: "accounts = owner # config # asset # collection # ua # mint # rest"
    and state: "in_state (Staked t l) (v_attributes (observe h w) (ai_key asset))"
  obtains c dec now d n as cs where
    "valid_staker h owner config asset collection w c" and "clock_time h = Inr now"
    and "v_mint (observe h w) (ai_key mint) = Inr dec"
    and "create_program_address h (rewards_mint_seeds (ai_key config) @ [[cf_rewards_bump c]])
      staking_ID = Some (ai_key mint)"
    and "int (unat (cf_freeze_period c)) \<le> days_between t now" and "sint d = days_between l now"
    and "reward_amount d (cf_rewards_bps c) dec = Inr n"
    and "idle_list as" and "plain (Some as) = plain (v_attributes (observe h w) (ai_key asset))"
    and "new_counts (v_counters (observe h w) (ai_key collection)) (- 1) = Inr cs"
    and "observe h w' = (observe h w)
      \<lparr>v_attributes := (v_attributes (observe h w))(ai_key asset \<mapsto> as),
       v_frozen := (v_frozen (observe h w))(ai_key asset \<mapsto> False),
       v_counters := (v_counters (observe h w))(ai_key collection \<mapsto> cs),
       v_supply := (v_supply (observe h w))
         (ai_key mint := v_supply (observe h w) (ai_key mint) + unat n)\<rparr>"
proof -
  from run [unfolded unstake_def accounts] obtain ata token :: account_info and c dec ub w0 where
    v: "valid_staker h owner config asset collection w c"
    and m: "v_mint (observe h w) (ai_key mint) = Inr dec"
    and s: "create_program_address h (rewards_mint_seeds (ai_key config) @ [[cf_rewards_bump c]])
      staking_ID = Some (ai_key mint)"
    and w0: "observe h w0 = observe h w"
    and r: "unstake_handler h (ai_key owner) (ai_key asset) (ai_key collection) (ai_key ua) ub c
      (ai_key config) dec (ai_key mint) (ai_key ata) (ai_key token) w0 = Inr w'"
    by (rule rewards_accepted [OF law _ refl])
  show ?thesis
    by (rule unstake_handler_effect [OF law r state [folded w0]])
      (rule that [OF v _ m s], simp_all add: w0)
qed

section \<open>What an instruction leaves alone\<close>

text \<open>
  From \<open>V\<close> to \<open>V'\<close> only plugins of the asset \<open>A\<close>, the counters of the collection
  \<open>C\<close>, configs and mints may change.
\<close>

definition touches :: "address \<Rightarrow> address \<Rightarrow> view \<Rightarrow> view \<Rightarrow> bool" where
  "touches A C V V' \<longleftrightarrow>
     v_asset V' = v_asset V \<and> v_collection V' = v_collection V \<and>
     (\<forall>a. a \<noteq> A \<longrightarrow> v_attributes V' a = v_attributes V a \<and> v_frozen V' a = v_frozen V a) \<and>
     (\<forall>c. c \<noteq> C \<longrightarrow> v_counters V' c = v_counters V c)"

lemma touches_simps [simp]:
  "touches A C V V"
  "touches A C V (set_plugin A pl V')= touches A C V V'"
  "touches A C V (set_collection_plugin C pl V') = touches A C V V'"
  "touches A C V (V'\<lparr>v_supply := f\<rparr>) = touches A C V V'"
  by (cases pl; auto simp: touches_def)+

lemma calls_touch:
  assumes law: "mpl_law h"
  shows "update_collection_staked_count h C p u s delta w = Inr w' \<Longrightarrow>
      touches A C V (observe h w') = touches A C V (observe h w)"
    and "update_plugin_v1 h A C' p u pl s w = Inr w' \<Longrightarrow>
      touches A C V (observe h w') = touches A C V (observe h w)"
    and "pay_rewards h tp m ata cfg C' c dec n w = Inr w' \<Longrightarrow>
      touches A C V (observe h w') = touches A C V (observe h w)"
proof -
  assume "update_collection_staked_count h C p u s delta w = Inr w'"
  then show "touches A C V (observe h w') = touches A C V (observe h w)"
    by (rule update_count_effect [OF law]) (simp add: touches_def)
next
  assume "update_plugin_v1 h A C' p u pl s w = Inr w'"
  then show "touches A C V (observe h w') = touches A C V (observe h w)"
    by (simp add: plugin_calls(2) [OF law])
next
  assume "pay_rewards h tp m ata cfg C' c dec n w = Inr w'"
  then show "touches A C V (observe h w') = touches A C V (observe h w)"
    by (simp add: pay_rewards_effect [OF law])
qed

lemma claim_handler_touches:
  assumes law: "mpl_law h"
    and run: "claim_rewards_handler h own A C ua b c cfg dec m ata tp w = Inr w'"
  shows "touches A C (observe h w) (observe h w')"
proof -
  from run consider "w' = w" | pl s w1 n where
      "update_plugin_v1 h A C own ua pl s w = Inr w1" "pay_rewards h tp m ata cfg C c dec n w1 = Inr w'"
    by (auto simp: claim_rewards_handler_def Let_def res_simps split: option.splits if_splits)
  then show ?thesis
    by cases (simp_all add: calls_touch(2,3) [OF law])
qed

lemma unstake_handler_touches:
  assumes law: "mpl_law h"
    and run: "unstake_handler h own A C ua b c cfg dec m ata tp w = Inr w'"
  shows "touches A C (observe h w) (observe h w')"
proof -
  from run obtain pl s w1 pl' s' w2 s'' w3 n where
      "update_plugin_v1 h A C own ua pl s w = Inr w1" "update_plugin_v1 h A C own ua pl' s' w1 = Inr w2"
      "update_collection_staked_count h C own ua s'' (- 1) w2 = Inr w3"
      "pay_rewards h tp m ata cfg C c dec n w3 = Inr w'"
    by (auto simp: unstake_handler_def Let_def res_simps split: option.splits if_splits)
  then show ?thesis
    by (simp add: calls_touch [OF law])
qed

end
