(* ===== verification/Staking_Session.thy ===== *)
theory Staking_Session
  imports Staking_Runs
begin

text \<open>
  One asset: the abstract machine \<open>Idle\<close> / \<open>Staked\<close> that stake, claim\_rewards and
  unstake move, and the session from a stake on, with any number of claims and any other
  transactions in between.
\<close>

lemma at_clock_staker [simp]: "valid_staker (at_clock t h) = valid_staker h"
  by (intro ext) (simp add: valid_staker_def at_clock_def)

lemma at_clock_addresses [simp]:
  "create_program_address (at_clock t h) = create_program_address h"
  by (simp add: at_clock_def)

section \<open>The machine\<close>

fun stake_machine :: "i64 \<Rightarrow> u16 \<Rightarrow> staking_instruction \<Rightarrow> stake_state \<Rightarrow> stake_state option" where
  "stake_machine now freeze Stake Idle = Some (Staked now now)"
| "stake_machine now freeze Claim_Rewards (Staked t l) =
     Some (Staked t (word_of_int (sint l + 86400 * days_between l now)))"
| "stake_machine now freeze Unstake (Staked t l) =
     (if int (unat freeze) \<le> days_between t now then Some Idle else None)"
| "stake_machine now freeze _ _ = None"

fun frozen_after :: "staking_instruction \<Rightarrow> bool option \<Rightarrow> bool option" where
  "frozen_after Stake b = Some True"
| "frozen_after Unstake b = Some False"
| "frozen_after _ b = b"

text \<open>The asset \<open>A\<close> is in state \<open>s\<close>.\<close>

abbreviation asset_in :: "'w mpl_host \<Rightarrow> 'w \<Rightarrow> address \<Rightarrow> stake_state \<Rightarrow> bool" where
  "asset_in h w A s \<equiv> in_state s (v_attributes (observe h w) A)"

text \<open>An accepted instruction made the step \<open>s'\<close> of the machine and kept other attributes.\<close>

definition machine_step ::
  "'w mpl_host \<Rightarrow> i64 \<Rightarrow> u16 \<Rightarrow> staking_instruction \<Rightarrow> address \<Rightarrow> stake_state \<Rightarrow> 'w \<Rightarrow> 'w \<Rightarrow> bool" where
  "machine_step h now freeze i A s w w' \<longleftrightarrow>
     (\<exists>s'. stake_machine now freeze i s = Some s' \<and> asset_in h w' A s') \<and>
     plain (v_attributes (observe h w') A) = plain (v_attributes (observe h w) A) \<and>
     v_frozen (observe h w') A = frozen_after i (v_frozen (observe h w) A)"

lemma stake_step:
  assumes law: "mpl_law h" and run: "stake (at_clock now h) accounts w = Inr w'"
    and accounts: "accounts = owner # config # asset # collection # rest"
    and s: "asset_in h w (ai_key asset) s"
  obtains c where "valid_staker h owner config asset collection w c"
    and "machine_step h now (cf_freeze_period c) Stake (ai_key asset) s w w'"
proof -
  have law': "mpl_law (at_clock now h)"
    using law by simp
  show ?thesis
  proof (rule stake_effect [OF law' run], goal_cases)
    case (1 ow co as cl ua r c now' new cs)
    have "s = Idle"
      using in_state_unique [OF s] 1(1,4) accounts by auto
    then show ?thesis
      using 1 accounts by (intro that [of c]) (auto simp: machine_step_def)
  qed
qed

lemma idle_not_rewarded:
  assumes law: "mpl_law h" and "asset_in h w (ai_key asset) Idle"
    and accounts: "accounts = owner # config # asset # collection # ua # mint # rest"
  shows "claim_rewards h accounts w \<noteq> Inr w'" and "unstake h accounts w \<noteq> Inr w'"
proof -
  show "claim_rewards h accounts w \<noteq> Inr w'"
  proof
    assume "claim_rewards h accounts w = Inr w'"
    from rewards_accepted [OF law this [unfolded claim_rewards_def] accounts]
    show False using assms(2) idle_no_rewards(1) by metis
  qed
  show "unstake h accounts w \<noteq> Inr w'"
  proof
    assume "unstake h accounts w = Inr w'"
    from rewards_accepted [OF law this [unfolded unstake_def] accounts]
    show False using assms(2) idle_no_rewards(2) by metis
  qed
qed

lemma claim_step:
  assumes law: "mpl_law h" and run: "claim_rewards (at_clock now h) accounts w = Inr w'"
    and accounts: "accounts = owner # config # asset # collection # ua # mint # rest"
    and s: "asset_in h w (ai_key asset) s"
  obtains c where "valid_staker h owner config asset collection w c"
    and "machine_step h now (cf_freeze_period c) Claim_Rewards (ai_key asset) s w w'"
proof (cases s)
  case Idle
  then show ?thesis
    using idle_not_rewarded(1) [of "at_clock now h", OF _ _ accounts] law run s by simp
next
  case (Staked t l)
  have law': "mpl_law (at_clock now h)"
    using law by simp
  have state: "in_state (Staked t l) (v_attributes (observe (at_clock now h) w) (ai_key asset))"
    using s Staked by simp
  show ?thesis
  proof (rule claim_effect [OF law' run accounts state], goal_cases)
    case (1 c dec now' d)
    have "machine_step h now (cf_freeze_period c) Claim_Rewards (ai_key asset) (Staked t l) w w'"
    proof (cases "d = 0")
      case True
      then show ?thesis
        using 1 state by (auto simp: machine_step_def)
    next
      case False
      then obtain l' where "sint l' = sint l + 86400 * sint d"
        and "asset_in h w' (ai_key asset) (Staked t l')"
        and "plain (v_attributes (observe h w') (ai_key asset)) =
          plain (v_attributes (observe h w) (ai_key asset))"
        and "v_frozen (observe h w') = v_frozen (observe h w)"
        using 1(7) by auto
      moreover from this(1) have "l' = word_of_int (sint l + 86400 * days_between l now)"
      proof -
        have "sint l + 86400 * days_between l now = sint l'"
          using 1(2,5) \<open>sint l' = _\<close> by simp
        then show ?thesis
          by (simp only: of_int_sint scast_id)
      qed
      ultimately show ?thesis
        by (simp add: machine_step_def)
    qed
    then show ?thesis
      using 1(1) Staked by (intro that [of c]) simp_all
  qed
qed

lemma unstake_step:
  assumes law: "mpl_law h" and run: "unstake (at_clock now h) accounts w = Inr w'"
    and accounts: "accounts = owner # config # asset # collection # ua # mint # rest"
    and s: "asset_in h w (ai_key asset) s"
  obtains c where "valid_staker h owner config asset collection w c"
    and "machine_step h now (cf_freeze_period c) Unstake (ai_key asset) s w w'"
proof (cases s)
  case Idle
  then show ?thesis
    using idle_not_rewarded(2) [of "at_clock now h", OF _ _ accounts] law run s by simp
next
  case (Staked t l)
  have law': "mpl_law (at_clock now h)"
    using law by simp
  have state: "in_state (Staked t l) (v_attributes (observe (at_clock now h) w) (ai_key asset))"
    using s Staked by simp
  show ?thesis
  proof (rule unstake_effect [OF law' run accounts state], goal_cases)
    case (1 c dec now' d n new cs)
    then show ?thesis
      using Staked by (intro that [of c]) (auto simp: machine_step_def)
  qed
qed

section \<open>Sessions\<close>

text \<open>With a rewards mint of 6 decimals, 100 units per day and basis point.\<close>

lemma reward_amount_6:
  assumes "reward_amount d b 6 = Inr n" and "0 \<le> sint d"
  shows "unat n = 100 * unat b * nat (sint d)"
proof -
  have "unat (ucast (6 :: u8) :: u32) = 6"
    by simp
  with assms(1) have "unat n = unat d * unat (ucast b :: u64) * 10 ^ 6 div 10000"
    by (auto simp: reward_amount_def res_simps unat_div)
  moreover have "unat (ucast b :: u64) = unat b"
    by (simp add: unat_ucast_widen)
  moreover have "uint d = sint d"
  proof -
    have "take_bit 64 (sint d) = sint d"
      using assms(2) sint_i64_bounds(2) [of d] by (simp add: take_bit_int_eq_self i64_MAX_def)
    then show ?thesis
      using uint_word_of_int_eq [where 'a = 64, of "sint d"] by simp
  qed
  then have "unat d = nat (sint d)"
    by (simp flip: nat_uint_eq)
  ultimately show ?thesis
    by (simp add: mult.commute)
qed

text \<open>
  The rate \<open>b\<close> of the config among the accounts, and a rewards mint of 6 decimals, as
  \<open>initialize\<close> makes it; and what an instruction adds to the supply of this mint.
\<close>

definition rewards_at :: "'w mpl_host \<Rightarrow> u16 \<Rightarrow> account_info list \<Rightarrow> 'w \<Rightarrow> bool" where
  "rewards_at h b accounts w \<longleftrightarrow>
     map_sum id cf_rewards_bps (v_config (observe h w) (ai_key (accounts ! 1))) = Inr b \<and>
     v_mint (observe h w) (ai_key (accounts ! 5)) = Inr 6"

definition minted :: "'w mpl_host \<Rightarrow> account_info list \<Rightarrow> 'w \<Rightarrow> 'w \<Rightarrow> nat" where
  "minted h accounts w w' =
     v_supply (observe h w') (ai_key (accounts ! 5)) - v_supply (observe h w) (ai_key (accounts ! 5))"

text \<open>
  \<open>session h A b t n seen w\<close>: the asset \<open>A\<close> was staked at \<open>t\<close>, claims at rate \<open>b\<close>
  have minted \<open>n\<close> so far, the latest at \<open>seen\<close>. Any other transaction leaves the attributes
  of \<open>A\<close>, whose authority is this program.
\<close>

inductive session :: "'w mpl_host \<Rightarrow> address \<Rightarrow> u16 \<Rightarrow> i64 \<Rightarrow> nat \<Rightarrow> i64 \<Rightarrow> 'w \<Rightarrow> bool"
  for h :: "'w mpl_host" and A :: address and b :: u16 where
  start: "stake (at_clock t h) accounts w = Inr w' \<Longrightarrow> ai_key (accounts ! 2) = A \<Longrightarrow>
    session h A b t 0 t w'"
| claim: "session h A b t n seen w \<Longrightarrow> sint seen \<le> sint now \<Longrightarrow>
    claim_rewards (at_clock now h) accounts w = Inr w' \<Longrightarrow> ai_key (accounts ! 2) = A \<Longrightarrow>
    rewards_at h b accounts w \<Longrightarrow> session h A b t (n + minted h accounts w w') now w'"
| other: "session h A b t n seen w \<Longrightarrow>
    v_attributes (observe h w') A = v_attributes (observe h w) A \<Longrightarrow> session h A b t n seen w'"

text \<open>Rewarded up to \<open>l\<close>, whole days after the stake, and exactly for these days.\<close>

definition rewarded :: "u16 \<Rightarrow> i64 \<Rightarrow> i64 \<Rightarrow> i64 \<Rightarrow> nat \<Rightarrow> bool" where
  "rewarded b t l seen n \<longleftrightarrow>
     (\<exists>k. sint l = sint t + 86400 * int k \<and> sint l \<le> sint seen \<and> n = 100 * unat b * k)"

lemma rewarded_more:
  assumes "rewarded b t l seen n" and "sint seen \<le> sint now"
    and "sint d = days_between l now" and "sint l' = sint l + 86400 * sint d"
  shows "0 \<le> sint d" and "rewarded b t l' now (n + 100 * unat b * nat (sint d))"
proof -
  obtain k where k: "sint l = sint t + 86400 * int k" "n = 100 * unat b * k"
    and l: "sint l \<le> sint now"
    using assms(1,2) unfolding rewarded_def by fastforce
  have d: "sint d = (sint now - sint l) div 86400"
    using assms(3) days_between_nonneg [OF l] by simp
  then show d0: "0 \<le> sint d"
    using l by (simp add: pos_imp_zdiv_nonneg_iff)
  have "86400 * sint d \<le> sint now - sint l"
    unfolding d using mult_div_mod_eq [of 86400 "sint now - sint l"]
      pos_mod_sign [of 86400 "sint now - sint l"] by linarith
  with k d0 assms(4) show "rewarded b t l' now (n + 100 * unat b * nat (sint d))"
    unfolding rewarded_def by (intro exI [of _ "k + nat (sint d)"]) (simp add: algebra_simps)
qed

text \<open>The total up to a time is the number of whole days since the stake.\<close>

lemma rewarded_total:
  assumes "rewarded b t l seen n" and "sint seen \<le> sint now" and "sint d = days_between l now"
  shows "n + 100 * unat b * nat (sint d) = 100 * unat b * nat (days_between t now)"
proof -
  obtain k where k: "sint l = sint t + 86400 * int k" "n = 100 * unat b * k"
    and l: "sint l \<le> sint now"
    using assms(1,2) unfolding rewarded_def by fastforce
  have d: "sint d = (sint now - sint l) div 86400"
    using assms(3) days_between_nonneg [OF l] by simp
  have "days_between t now = (sint now - sint t) div 86400"
    using k(1) l by (intro days_between_nonneg) simp
  also have "sint now - sint t = sint now - sint l + int k * 86400"
    using k(1) by simp
  also have "\<dots> div 86400 = sint d + int k"
    unfolding d by simp
  finally have "nat (days_between t now) = nat (sint d) + k"
    using d l by (simp add: nat_add_distrib pos_imp_zdiv_nonneg_iff)
  then show ?thesis
    by (simp add: k(2) add_mult_distrib2)
qed

text \<open>What one accepted claim or unstake mints.\<close>

lemma claim_mints:
  assumes law: "mpl_law h" and run: "claim_rewards (at_clock now h) accounts w = Inr w'"
    and A: "ai_key (accounts ! 2) = A" and rate: "rewards_at h b accounts w"
    and state: "asset_in h w A (Staked t l)" and before: "sint l \<le> sint now"
  obtains d l' :: i64 where "sint d = days_between l now" and "sint l' = sint l + 86400 * sint d"
    and "asset_in h w' A (Staked t l')" and "minted h accounts w w' = 100 * unat b * nat (sint d)"
proof -
  have law': "mpl_law (at_clock now h)"
    using law by simp
  obtain owner config asset collection ua mint rest where
    accounts: "accounts = owner # config # asset # collection # ua # mint # rest"
    by (rule rewards_shape [OF run [unfolded claim_rewards_def]])
  have state': "in_state (Staked t l) (v_attributes (observe (at_clock now h) w) (ai_key asset))"
    using state A by (simp add: accounts)
  show ?thesis
  proof (rule claim_effect [OF law' run accounts state'], goal_cases)
    case (1 c dec now' d)
    have c: "cf_rewards_bps c = b" and dec: "dec = 6"
      using rate 1(1,3) by (auto simp: rewards_at_def accounts valid_staker_def)
    have days: "sint d = days_between l now"
      using 1(2,5) by simp
    then have d: "0 \<le> sint d"
      using days_between_nonneg [OF before] before by (simp add: pos_imp_zdiv_nonneg_iff)
    show ?thesis
    proof (cases "d = 0")
      case True
      then show ?thesis
        using 1(6) state days by (intro that [of d l]) (simp_all add: minted_def)
    next
      case False
      with 1(7) obtain as l' n where l': "sint l' = sint l + 86400 * sint d"
        and "staked_list t l' as" and n: "reward_amount d b 6 = Inr n"
        and w': "observe h w' = (observe h w)
          \<lparr>v_attributes := (v_attributes (observe h w))(ai_key asset \<mapsto> as),
           v_supply := (v_supply (observe h w))
             (ai_key mint := v_supply (observe h w) (ai_key mint) + unat n)\<rparr>"
        unfolding c dec at_clock_simps by blast
      moreover have "ai_key asset = A" and "accounts ! 5 = mint"
        using A by (simp_all add: accounts)
      ultimately show ?thesis
        using days reward_amount_6 [OF n d] by (intro that [of d l']) (simp_all add: minted_def)
    qed
  qed
qed

lemma unstake_mints:
  assumes law: "mpl_law h" and run: "unstake (at_clock now h) accounts w = Inr w'"
    and A: "ai_key (accounts ! 2) = A" and rate: "rewards_at h b accounts w"
    and state: "asset_in h w A (Staked t l)" and before: "sint l \<le> sint now"
  obtains d :: i64 and c where "sint d = days_between l now" and "asset_in h w' A Idle"
    and "v_frozen (observe h w') A = Some False"
    and "v_config (observe h w) (ai_key (accounts ! 1)) = Inr c"
    and "int (unat (cf_freeze_period c)) \<le> days_between t now"
    and "minted h accounts w w' = 100 * unat b * nat (sint d)"
proof -
  have law': "mpl_law (at_clock now h)"
    using law by simp
  obtain owner config asset collection ua mint rest where
    accounts: "accounts = owner # config # asset # collection # ua # mint # rest"
    by (rule rewards_shape [OF run [unfolded unstake_def]])
  have key: "ai_key asset = A"
    using A by (simp add: accounts)
  have state': "in_state (Staked t l) (v_attributes (observe (at_clock now h) w) (ai_key asset))"
    using state key by simp
  show ?thesis
  proof (rule unstake_effect [OF law' run accounts state'], goal_cases)
    case (1 c dec now' d n as cs)
    have c: "cf_rewards_bps c = b" "v_config (observe h w) (ai_key config) = Inr c" and dec: "dec = 6"
      using rate 1(1,3) by (auto simp: rewards_at_def accounts valid_staker_def)
    have days: "sint d = days_between l now"
      using 1(2,6) by simp
    then have "0 \<le> sint d"
      using days_between_nonneg [OF before] before by (simp add: pos_imp_zdiv_nonneg_iff)
    then have "unat n = 100 * unat b * nat (sint d)"
      using 1(7) c dec by (simp add: reward_amount_6)
    with 1(2,5,8,11) days c key show ?thesis
      by (intro that [of d c]) (simp_all add: minted_def accounts)
  qed
qed

lemma session_rewarded:
  assumes law: "mpl_law h" and "session h A b t n seen w"
  shows "\<exists>l. asset_in h w A (Staked t l) \<and> rewarded b t l seen n"
  using assms(2)
proof induction
  case (start t accounts w w')
  have law': "mpl_law (at_clock t h)"
    using law by simp
  have "rewarded b t t t 0"
    unfolding rewarded_def by (intro exI [of _ 0]) simp
  moreover have "asset_in h w' A (Staked t t)"
    by (rule stake_effect [OF law' start(1)]) (use start(2) in auto)
  ultimately show ?case by blast
next
  case (claim t n seen w now accounts w')
  then obtain l where l: "asset_in h w A (Staked t l)" "rewarded b t l seen n"
    by blast
  have before: "sint l \<le> sint now"
    using l(2) claim.hyps(2) by (auto simp: rewarded_def)
  obtain d l' :: i64 where d: "sint d = days_between l now" and l': "sint l' = sint l + 86400 * sint d"
    and s: "asset_in h w' A (Staked t l')" and m: "minted h accounts w w' = 100 * unat b * nat (sint d)"
    by (rule claim_mints [OF law claim.hyps(3-5) l(1) before])
  show ?case
    using s rewarded_more(2) [OF l(2) claim.hyps(2) d l'] unfolding m by blast
next
  case (other t n seen w w')
  then show ?case by simp
qed

end
