(* ===== verification/Staking_Collection.thy ===== *)
theory Staking_Collection
  imports Staking_Session
begin

text \<open>
  One collection with all its assets: its two counters are the number of assets staked now and
  the number of stakes ever made, under every instruction of the program and under what other
  programs may do to the accounts.
\<close>

section \<open>The assets of a collection\<close>

definition member :: "view \<Rightarrow> address \<Rightarrow> address \<Rightarrow> bool" where
  "member V C A \<longleftrightarrow>
     (case v_asset V A of Inl e \<Rightarrow> False | Inr a \<Rightarrow> ba_update_authority a = Collection_Authority C)"

definition is_staked :: "attribute list option \<Rightarrow> bool" where
  "is_staked as \<longleftrightarrow> (\<exists>t l. in_state (Staked t l) as)"

definition staked_in :: "view \<Rightarrow> address \<Rightarrow> address set" where
  "staked_in V C = {A. member V C A \<and> is_staked (v_attributes V A)}"

text \<open>
  The counters are right, every asset is idle or staked in the form the program writes, and the
  staked ones are frozen. \<open>N\<close> is the number of stakes so far.
\<close>

definition counts_ok :: "address \<Rightarrow> nat \<Rightarrow> view \<Rightarrow> bool" where
  "counts_ok C N V \<longleftrightarrow>
     finite (staked_in V C) \<and> card (staked_in V C) \<le> N \<and>
     sint (fst (counts (v_counters V C))) = int (card (staked_in V C)) \<and>
     sint (snd (counts (v_counters V C))) = int N"

definition assets_ok :: "address \<Rightarrow> view \<Rightarrow> bool" where
  "assets_ok C V \<longleftrightarrow>
     \<not> isl (v_collection V C) \<and> (\<forall>A. member V C A \<longrightarrow> (\<exists>s. in_state s (v_attributes V A))) \<and>
     (\<forall>A\<in>staked_in V C. v_frozen V A = Some True)"

definition collection_ok :: "address \<Rightarrow> nat \<Rightarrow> view \<Rightarrow> bool" where
  "collection_ok C N V \<longleftrightarrow> counts_ok C N V \<and> assets_ok C V"

lemma staked_or_idle:
  "in_state s as \<Longrightarrow> is_staked as \<longleftrightarrow> s \<noteq> Idle"
  using in_state_unique unfolding is_staked_def by (cases s) blast+

lemma member_unique: "member V C A \<Longrightarrow> member V C' A \<Longrightarrow> C' = C"
  by (auto simp: member_def split: sum.splits)

lemma touches_member: "touches A C V V' \<Longrightarrow> member V' D B = member V D B"
  by (simp add: touches_def member_def)

lemma staker_member:
  "valid_staker h owner config asset collection w c \<Longrightarrow>
     member (observe h w) (ai_key collection) (ai_key asset)"
  by (simp add: valid_staker_def member_def)

section \<open>Steps of the view\<close>

text \<open>An asset of another collection.\<close>

lemma other_collection:
  assumes ok: "collection_ok C N V" and t: "touches A D V V'" and "member V D A" and "D \<noteq> C"
  shows "collection_ok C N V'"
proof -
  have "B \<noteq> A" if "member V C B" for B
    using that assms(3,4) member_unique by blast
  then have same: "v_attributes V' B = v_attributes V B \<and> v_frozen V' B = v_frozen V B"
    if "member V C B" for B
    using that t by (auto simp: touches_def)
  then have staked: "staked_in V' C = staked_in V C"
    by (auto simp: staked_in_def touches_member [OF t])
  moreover have "v_counters V' C = v_counters V C" and "v_collection V' C = v_collection V C"
    using t assms(4) by (auto simp: touches_def)
  ultimately show ?thesis
    using ok same
    by (auto simp: collection_ok_def counts_ok_def assets_ok_def touches_member [OF t] staked_in_def)
qed

text \<open>How the counters follow a change of state.\<close>

definition change :: "stake_state \<Rightarrow> stake_state \<Rightarrow> int" where
  "change s s' = (if s' \<noteq> Idle then 1 else 0) - (if s \<noteq> Idle then 1 else 0)"

lemma own_collection:
  assumes ok: "collection_ok C N V" and t: "touches A C V V'" and A: "member V C A"
    and s: "in_state s (v_attributes V A)" and s': "in_state s' (v_attributes V' A)"
    and frozen: "s' \<noteq> Idle \<Longrightarrow> v_frozen V' A = Some True"
    and staked: "sint (fst (counts (v_counters V' C))) =
      max 0 (sint (fst (counts (v_counters V C))) + change s s')"
    and lifetime: "sint (snd (counts (v_counters V' C))) =
      sint (snd (counts (v_counters V C))) + max 0 (change s s')"
  shows "collection_ok C (N + nat (change s s')) V'"
proof -
  have mem: "A \<in> staked_in V C \<longleftrightarrow> s \<noteq> Idle"
    using A staked_or_idle [OF s] by (simp add: staked_in_def)
  have new: "staked_in V' C = (if s' \<noteq> Idle then insert A (staked_in V C) else staked_in V C - {A})"
  proof (rule set_eqI)
    fix B
    show "B \<in> staked_in V' C \<longleftrightarrow>
        B \<in> (if s' \<noteq> Idle then insert A (staked_in V C) else staked_in V C - {A})"
      using t A staked_or_idle [OF s']
      by (cases "B = A") (auto simp: staked_in_def touches_member [OF t] touches_def)
  qed
  have fin: "finite (staked_in V C)" and le: "card (staked_in V C) \<le> N"
    using ok by (auto simp: collection_ok_def counts_ok_def)
  have card: "int (card (staked_in V' C)) = int (card (staked_in V C)) + change s s'"
  proof (cases "s \<noteq> Idle")
    case True
    then have "card (staked_in V C) > 0"
      using fin mem by (auto simp: card_gt_0_iff)
    with True mem fin show ?thesis
      by (auto simp: new change_def insert_absorb of_nat_diff)
  next
    case False
    with mem fin show ?thesis
      by (auto simp: new change_def)
  qed
  have "counts_ok C (N + nat (change s s')) V'"
    using ok le fin card staked lifetime
    by (auto simp: collection_ok_def counts_ok_def new)
  moreover have "assets_ok C V'"
  proof -
    have "\<exists>s. in_state s (v_attributes V' B)" if "member V C B" for B
      using ok that s' t by (cases "B = A") (auto simp: collection_ok_def assets_ok_def touches_def)
    moreover have "v_frozen V' B = Some True" if "B \<in> staked_in V' C" for B
      using ok that t frozen
      by (cases "B = A") (auto simp: new collection_ok_def assets_ok_def touches_def split: if_splits)
    moreover have "v_collection V' C = v_collection V C"
      using t by (simp add: touches_def)
    ultimately show ?thesis
      using ok by (simp add: collection_ok_def assets_ok_def touches_member [OF t])
  qed
  ultimately show ?thesis
    by (simp add: collection_ok_def)
qed

text \<open>
  What the chain may do besides: assets of the collection may disappear, but not staked ones that
  are frozen, which stay frozen; the attributes and the counters, whose authority is the
  program's, stay.
\<close>

definition foreign :: "address \<Rightarrow> view \<Rightarrow> view \<Rightarrow> bool" where
  "foreign C V V' \<longleftrightarrow>
     isl (v_collection V' C) = isl (v_collection V C) \<and> v_counters V' C = v_counters V C \<and>
     (\<forall>A. member V' C A \<longrightarrow> member V C A \<and> v_attributes V' A = v_attributes V A) \<and>
     (\<forall>A\<in>staked_in V C. v_frozen V A = Some True \<longrightarrow>
        member V' C A \<and> v_frozen V' A = Some True)"

lemma foreign_ok:
  assumes ok: "collection_ok C N V" and f: "foreign C V V'"
  shows "collection_ok C N V'"
proof -
  have "staked_in V' C = staked_in V C"
    using ok f by (auto simp: foreign_def collection_ok_def assets_ok_def staked_in_def)
  then show ?thesis
    using ok f by (auto simp: collection_ok_def counts_ok_def assets_ok_def foreign_def)
qed

section \<open>Instructions\<close>

text \<open>The number of stakes in \<open>C\<close> an accepted instruction adds.\<close>

fun stakes :: "address \<Rightarrow> staking_instruction \<Rightarrow> account_info list \<Rightarrow> nat" where
  "stakes C Stake accounts = (if ai_key (accounts ! 3) = C then 1 else 0)"
| "stakes C _ _ = 0"

lemma stake_keeps:
  assumes law: "mpl_law h" and run: "stake h accounts w = Inr w'"
    and ok: "collection_ok C N (observe h w)"
  shows "collection_ok C (N + stakes C Stake accounts) (observe h w')"
proof (rule stake_effect [OF law run], goal_cases)
  case (1 owner config asset collection ua rest c now as cs)
  let ?A = "ai_key asset" and ?D = "ai_key collection"
  have t: "touches ?A ?D (observe h w) (observe h w')"
    using 1 by (simp add: touches_def)
  note mem = staker_member [OF 1(2)]
  show ?case
  proof (cases "?D = C")
    case True
    have "collection_ok C (N + nat (change Idle (Staked now now))) (observe h w')"
    proof (rule own_collection [OF ok, of ?A])
      show "touches ?A C (observe h w) (observe h w')" and "member (observe h w) C ?A"
        using t mem True by simp_all
      show "in_state Idle (v_attributes (observe h w) ?A)"
        and "in_state (Staked now now) (v_attributes (observe h w') ?A)"
        and "v_frozen (observe h w') ?A = Some True"
        using 1 by simp_all
    qed (use new_counts_Inr [OF 1(7)] 1(8) True in \<open>simp_all add: change_def\<close>)
    then show ?thesis
      using 1(1) True by (simp add: change_def)
  next
    case False
    then show ?thesis
      using other_collection [OF ok t mem] 1(1) by simp
  qed
qed

lemma claim_keeps:
  assumes law: "mpl_law h" and run: "claim_rewards h accounts w = Inr w'"
    and ok: "collection_ok C N (observe h w)"
  shows "collection_ok C N (observe h w')"
proof -
  obtain owner config asset collection ua mint rest where
    accounts: "accounts = owner # config # asset # collection # ua # mint # rest"
    by (rule rewards_shape [OF run [unfolded claim_rewards_def]])
  let ?A = "ai_key asset" and ?D = "ai_key collection"
  obtain ata token :: account_info and c dec ub w0 where
    v: "valid_staker h owner config asset collection w c" and w0: "observe h w0 = observe h w"
    and r: "claim_rewards_handler h (ai_key owner) ?A ?D (ai_key ua) ub c (ai_key config) dec
      (ai_key mint) (ai_key ata) (ai_key token) w0 = Inr w'"
    by (rule rewards_accepted [OF law run [unfolded claim_rewards_def] accounts])
  have t: "touches ?A ?D (observe h w) (observe h w')"
    using claim_handler_touches [OF law r] w0 by simp
  note mem = staker_member [OF v]
  show ?thesis
  proof (cases "?D = C")
    case True
    then obtain s where s: "in_state s (v_attributes (observe h w) ?A)"
      using ok mem by (auto simp: collection_ok_def assets_ok_def)
    with idle_not_rewarded(1) [OF law _ accounts] run obtain st l where sl: "s = Staked st l"
      by (cases s) auto
    show ?thesis
    proof (rule claim_effect [OF law run accounts s [unfolded sl]], goal_cases)
      case (1 c dec now d)
      obtain l' where "in_state (Staked st l') (v_attributes (observe h w') ?A)"
        and "v_frozen (observe h w') = v_frozen (observe h w)"
        and "v_counters (observe h w') = v_counters (observe h w)"
        using 1(6,7) s sl by (cases "d = 0") auto
      moreover have "?A \<in> staked_in (observe h w) C"
        using mem True s sl by (auto simp: staked_in_def is_staked_def)
      then have "v_frozen (observe h w) ?A = Some True"
        using ok by (simp add: collection_ok_def assets_ok_def)
      ultimately have "collection_ok C (N + nat (change (Staked st l) (Staked st l'))) (observe h w')"
        using t mem True s sl ok
        by (intro own_collection [OF ok, of ?A])
          (simp_all add: change_def collection_ok_def counts_ok_def)
      then show ?thesis by (simp add: change_def)
    qed
  next
    case False
    then show ?thesis
      using other_collection [OF ok t mem] by simp
  qed
qed

lemma unstake_keeps:
  assumes law: "mpl_law h" and run: "unstake h accounts w = Inr w'"
    and ok: "collection_ok C N (observe h w)"
  shows "collection_ok C N (observe h w')"
proof -
  obtain owner config asset collection ua mint rest where
    accounts: "accounts = owner # config # asset # collection # ua # mint # rest"
    by (rule rewards_shape [OF run [unfolded unstake_def]])
  let ?A = "ai_key asset" and ?D = "ai_key collection"
  obtain ata token :: account_info and c dec ub w0 where
    v: "valid_staker h owner config asset collection w c" and w0: "observe h w0 = observe h w"
    and r: "unstake_handler h (ai_key owner) ?A ?D (ai_key ua) ub c (ai_key config) dec
      (ai_key mint) (ai_key ata) (ai_key token) w0 = Inr w'"
    by (rule rewards_accepted [OF law run [unfolded unstake_def] accounts])
  have t: "touches ?A ?D (observe h w) (observe h w')"
    using unstake_handler_touches [OF law r] w0 by simp
  note mem = staker_member [OF v]
  show ?thesis
  proof (cases "?D = C")
    case True
    then obtain s where s: "in_state s (v_attributes (observe h w) ?A)"
      using ok mem by (auto simp: collection_ok_def assets_ok_def)
    with idle_not_rewarded(2) [OF law _ accounts] run obtain st l where sl: "s = Staked st l"
      by (cases s) auto
    show ?thesis
    proof (rule unstake_effect [OF law run accounts s [unfolded sl]], goal_cases)
      case (1 c dec now d n as cs)
      have "collection_ok C (N + nat (change (Staked st l) Idle)) (observe h w')"
      proof (rule own_collection [OF ok, of ?A])
        show "touches ?A C (observe h w) (observe h w')" and "member (observe h w) C ?A"
          using t mem True by simp_all
        show "in_state (Staked st l) (v_attributes (observe h w) ?A)"
          and "in_state Idle (v_attributes (observe h w') ?A)"
          using s sl 1 by simp_all
      qed (use new_counts_Inr [OF 1(10)] 1(11) True in \<open>simp_all add: change_def\<close>)
      then show ?thesis by (simp add: change_def)
    qed
  next
    case False
    then show ?thesis
      using other_collection [OF ok t mem] by simp
  qed
qed

lemma same_accounts_ok:
  assumes "v_asset V' = v_asset V" and "v_collection V' = v_collection V"
    and "v_attributes V' = v_attributes V" and "v_frozen V' = v_frozen V"
    and "v_counters V' = v_counters V"
  shows "collection_ok C N V' = collection_ok C N V"
  using assms
  by (simp add: collection_ok_def counts_ok_def assets_ok_def staked_in_def member_def)

lemma initialize_keeps:
  assumes law: "mpl_law h" and run: "initialize h b f accounts w = Inr w'"
  shows "collection_ok C N (observe h w') = collection_ok C N (observe h w)"
proof -
  obtain p1 k1 s1 w1 p2 m2 d2 a2 tp2 s2 w2 k3 c3 where
    1: "init_config h p1 k1 s1 w = Inr w1" and 2: "init_rewards_mint h p2 m2 d2 a2 tp2 s2 w1 = Inr w2"
    and 3: "write_config h k3 c3 w2 = Inr w'"
    using run by (auto simp: initialize_def res_simps split: list.splits)
  show ?thesis
    using config_calls(1) [OF law 1] config_calls(2) [OF law 3] config_calls(3) [OF law 2]
    by (intro same_accounts_ok) auto
qed

lemma create_collection_keeps:
  assumes law: "mpl_law h" and run: "create_collection h name uri accounts w = Inr w'"
    and ok: "collection_ok C N (observe h w)"
  shows "collection_ok C N (observe h w')"
proof -
  obtain D p a s where "create_collection_v2 h D p a name uri s w = Inr w'"
    using run by (auto simp: create_collection_def res_simps split: list.splits)
  note new = creation_calls(2) [OF law this]
  then have "D \<noteq> C"
    using ok by (auto simp: collection_ok_def assets_ok_def)
  with new have "foreign C (observe h w) (observe h w')"
    by (auto simp: foreign_def member_def staked_in_def split: sum.splits)
  then show ?thesis
    by (rule foreign_ok [OF ok])
qed

lemma mint_asset_keeps:
  assumes law: "mpl_law h" and run: "mint_asset h name uri accounts w = Inr w'"
    and ok: "collection_ok C N (observe h w)"
  shows "collection_ok C N (observe h w')"
proof -
  obtain A D p a own s where "create_v2 h A D a p own name uri s w = Inr w'"
    using run by (auto simp: mint_asset_def res_simps split: list.splits)
  note new = creation_calls(1) [OF law this]
  have fresh: "\<not> member (observe h w) C A"
    using new by (auto simp: member_def isl_def)
  then have mem: "member (observe h w') C B \<longleftrightarrow> member (observe h w) C B \<or> B = A \<and> D = C" for B
    using new by (auto simp: member_def)
  have "\<not> is_staked None"
    by (simp add: is_staked_def)
  with fresh mem new have staked: "staked_in (observe h w') C = staked_in (observe h w) C"
    by (auto simp: staked_in_def split: if_splits)
  have "assets_ok C (observe h w')"
  proof -
    have "\<exists>s. in_state s (v_attributes (observe h w') B)" if "member (observe h w') C B" for B
    proof (cases "B = A")
      case True
      then show ?thesis
        using new by (intro exI [of _ Idle]) simp
    next
      case False
      then show ?thesis
        using ok that mem new by (simp add: collection_ok_def assets_ok_def)
    qed
    moreover have "v_frozen (observe h w') B = Some True" if "B \<in> staked_in (observe h w) C" for B
      using that ok fresh new by (auto simp: collection_ok_def assets_ok_def staked_in_def)
    moreover have "v_collection (observe h w') C = v_collection (observe h w) C"
      using new by simp
    ultimately show ?thesis
      using ok unfolding collection_ok_def assets_ok_def staked by metis
  qed
  moreover have "v_counters (observe h w') C = v_counters (observe h w) C"
    using new by simp
  ultimately show ?thesis
    using ok unfolding collection_ok_def counts_ok_def staked by metis
qed

text \<open>Every instruction.\<close>

lemma instruction_keeps:
  assumes law: "mpl_law h" and run: "anchor_core_staking h i accounts w = Inr w'"
    and ok: "collection_ok C N (observe h w)"
  shows "collection_ok C (N + stakes C i accounts) (observe h w')"
proof (cases i)
  case (Initialize b f)
  then show ?thesis
    using initialize_keeps [OF law] run ok by fastforce
next
  case Stake
  then show ?thesis
    using stake_keeps [OF law _ ok] run by simp
qed (use create_collection_keeps [OF law _ ok] mint_asset_keeps [OF law _ ok]
    claim_keeps [OF law _ ok] unstake_keeps [OF law _ ok] run in simp_all)

section \<open>The life of a collection\<close>

text \<open>
  \<open>life h C N w\<close>: from the creation of the collection \<open>C\<close>, which had no assets before, by
  instructions of the program at any times and by foreign steps; \<open>N\<close> of them were stakes.
\<close>

inductive life :: "'w mpl_host \<Rightarrow> address \<Rightarrow> nat \<Rightarrow> 'w \<Rightarrow> bool"
  for h :: "'w mpl_host" and C :: address where
  created: "create_collection (at_clock now h) name uri accounts w = Inr w' \<Longrightarrow>
    ai_key (accounts ! 1) = C \<Longrightarrow> (\<And>A. \<not> member (observe h w) C A) \<Longrightarrow> life h C 0 w'"
| instruction: "life h C N w \<Longrightarrow> anchor_core_staking (at_clock now h) i accounts w = Inr w' \<Longrightarrow>
    life h C (N + stakes C i accounts) w'"
| other: "life h C N w \<Longrightarrow> foreign C (observe h w) (observe h w') \<Longrightarrow> life h C N w'"

lemma created_ok:
  assumes law: "mpl_law h" and run: "create_collection h name uri accounts w = Inr w'"
    and C: "ai_key (accounts ! 1) = C" and none: "\<And>A. \<not> member (observe h w) C A"
  shows "collection_ok C 0 (observe h w')"
proof -
  obtain p a s where "create_collection_v2 h C p a name uri s w = Inr w'"
    using run C by (auto simp: create_collection_def res_simps split: list.splits)
  note new = creation_calls(2) [OF law this]
  have "\<not> member (observe h w') C A" for A
    using new none by (simp add: member_def)
  then show ?thesis
    using new by (simp add: collection_ok_def counts_ok_def assets_ok_def staked_in_def counts_def)
qed

lemma life_ok:
  assumes law: "mpl_law h" and "life h C N w"
  shows "collection_ok C N (observe h w)"
  using assms(2)
proof induction
  case (created now name uri accounts w w')
  with created_ok [of "at_clock now h"] law show ?case by simp
next
  case (instruction N w now i accounts w')
  with instruction_keeps [of "at_clock now h"] law show ?case by simp
next
  case (other N w w')
  then show ?case by (simp add: foreign_ok)
qed

end
