(* ===== verification/Staking_Refusals.thy ===== *)
theory Staking_Refusals
  imports Staking_Session
begin

text \<open>
  What the handlers refuse, and with which error: each from the state that the others leave.
\<close>

section \<open>Counting days\<close>

lemma whole_days_total:
  assumes "sint since \<le> sint now" and "sint now - sint since < 2 ^ 63"
  obtains d where "whole_days now since = Inr d" and "sint d = (sint now - sint since) div 86400"
proof -
  define n where "n = sint now - sint since"
  have n: "0 \<le> n" "n \<le> i64_MAX" "0 \<le> n div 86400" "n div 86400 \<le> n"
    using assms zdiv_mono2 [of "sint now - sint since" 1 86400] by (simp_all add: n_def i64_MAX_def pos_imp_zdiv_nonneg_iff)
  obtain x where x: "checked_sub_i64 now since = Some x" "sint x = n"
    using n(1,2) sint_word_of_int_i64 [of n]
    by (auto simp: checked_sub_i64_def checked_i64_def n_def i64_MIN_def)
  moreover have "checked_div_i64 x SECONDS_PER_DAY \<noteq> None"
    using n by (simp add: checked_div_i64_def checked_i64_None_iff x(2) SECONDS_PER_DAY_def
        sdiv_nonneg i64_MIN_def)
  then obtain d where "checked_div_i64 x SECONDS_PER_DAY = Some d"
    by blast
  ultimately have "whole_days now since = Inr d"
    by (simp add: whole_days_def)
  then show ?thesis
    using that whole_days_Inr days_between_nonneg [OF assms(1)] by metis
qed

section \<open>A staked asset\<close>

lemma staked_again:
  assumes "asset_in h w A (Staked t l)"
  shows "stake_handler h own A C ua b w = Inl (Program_Error AlreadyStaked)"
proof -
  obtain as where as: "v_attributes (observe h w) A = Some as" "staked_list t l as"
    using assms by (cases "v_attributes (observe h w) A") auto
  then have "stake_scan as [] = Inl AlreadyStaked"
    by (simp add: stake_scan_Inl staked_list_def)
  then show ?thesis
    by (simp add: stake_handler_def as(1))
qed

lemma unstaked_too_early:
  assumes s: "asset_in h w A (Staked t l)" and now: "clock_time h = Inr now"
    and t: "sint t \<le> sint now" "sint now - sint t < 2 ^ 63"
    and early: "(sint now - sint t) div 86400 < int (unat (cf_freeze_period c))"
  shows "unstake_handler h own A C ua b c cfg dec m ata tp w =
    Inl (Program_Error FreezePeriodNotElapsed)"
proof -
  obtain as where as: "v_attributes (observe h w) A = Some as" "staked_list t l as"
    using s by (cases "v_attributes (observe h w) A") auto
  obtain d where "whole_days now t = Inr d" and d: "sint d = (sint now - sint t) div 86400"
    by (rule whole_days_total [OF t])
  moreover from d early have "sint d < sint (ucast (cf_freeze_period c) :: i64)"
    by (simp add: sint_ucast_widen)
  ultimately show ?thesis
    by (simp add: unstake_handler_def as(1) staked_list_scan(1) [OF as(2)] now Let_def)
qed

text \<open>A claim when no whole day has passed changes nothing.\<close>

lemma claimed_up_to:
  assumes s: "asset_in h w A (Staked t l)" and now: "clock_time h = Inr now"
    and "sint l \<le> sint now" and "sint now - sint l < 86400"
  shows "claim_rewards_handler h own A C ua b c cfg dec m ata tp w = Inr w"
proof -
  obtain as where as: "v_attributes (observe h w) A = Some as" "staked_list t l as"
    using s by (cases "v_attributes (observe h w) A") auto
  have "sint now - sint l < 2 ^ 63"
    using assms(4) by simp
  then obtain d where "whole_days now l = Inr d" and "sint d = (sint now - sint l) div 86400"
    by (rule whole_days_total [OF assms(3)])
  moreover from this(2) have "sint d = sint (0 :: i64)"
    using assms(3,4) by (simp add: div_pos_pos_trivial)
  then have "d = 0"
    by (rule signed_word_eqI)
  ultimately show ?thesis
    by (simp add: claim_rewards_handler_def as(1) staked_list_scan(2) [OF as(2)] now)
qed

lemma claimed_twice:
  assumes law: "mpl_law h" and s: "asset_in h w A (Staked t l)" and now: "clock_time h = Inr now"
    and l: "sint l \<le> sint now"
    and run: "claim_rewards_handler h own A C ua b c cfg dec m ata tp w = Inr w'"
  shows "claim_rewards_handler h own A C ua b c cfg dec m ata tp w' = Inr w'"
proof -
  obtain d :: i64 where d: "sint d = days_between l now" and zero: "d = 0 \<Longrightarrow> w' = w"
    and pos: "d \<noteq> 0 \<Longrightarrow> \<exists>l'. sint l' = sint l + 86400 * sint d \<and> asset_in h w' A (Staked t l')"
  proof (rule claim_handler_effect [OF law run s], goal_cases)
    case (1 now' d)
    have "\<exists>l'. sint l' = sint l + 86400 * sint d \<and> asset_in h w' A (Staked t l')" if "d \<noteq> 0"
      using 1(5) [OF that] by (elim exE conjE) (rule exI, auto)
    with 1 now show ?case
      by simp
  qed
  show ?thesis
  proof (cases "d = 0")
    case True
    with zero run show ?thesis by simp
  next
    case False
    then obtain l' where l': "sint l' = sint l + 86400 * sint d" and s': "asset_in h w' A (Staked t l')"
      using pos by blast
    have "sint now - sint l' = (sint now - sint l) mod 86400"
      using d l days_between_nonneg [OF l] minus_mult_div_eq_mod [of "sint now - sint l" 86400]
      by (simp add: l')
    then have "0 \<le> sint now - sint l'" and "sint now - sint l' < 86400"
      by simp_all
    then show ?thesis
      using s' now by (intro claimed_up_to [where l = l']) simp_all
  qed
qed

section \<open>An asset that was unstaked\<close>

lemma unstake_writes:
  assumes law: "mpl_law h" and s: "asset_in h w A (Staked t l)"
    and run: "unstake_handler h own A C ua b c cfg dec m ata tp w = Inr w'"
  shows "v_attributes (observe h w') A = Some (plain (v_attributes (observe h w) A) @
    [attr KEY_STAKED ''false'', attr KEY_STAKED_AT ''0'', attr KEY_LAST_CLAIM ''0''])"
proof -
  obtain as where as: "v_attributes (observe h w) A = Some as" "staked_list t l as"
    using s by (cases "v_attributes (observe h w) A") auto
  let ?new = "without staking_keys as @ [attr KEY_STAKED ''false'', attr KEY_STAKED_AT ''0'',
    attr KEY_LAST_CLAIM ''0'']" and ?s = "[update_authority_seeds C @ [[b]]]"
  from run obtain w1 w2 w3 n where
    w1: "update_plugin_v1 h A C own ua (Attributes_Plugin ?new) ?s w = Inr w1"
    and w2: "update_plugin_v1 h A C own ua (Freeze_Delegate False) ?s w1 = Inr w2"
    and w3: "update_collection_staked_count h C own ua ?s (- 1) w2 = Inr w3"
    and w': "pay_rewards h tp m ata cfg C c dec n w3 = Inr w'"
    by (auto simp: unstake_handler_def as(1) staked_list_scan(1) [OF as(2)] res_simps Let_def)
  obtain cs where "observe h w3 = (observe h w2)\<lparr>v_counters := (v_counters (observe h w2))(C \<mapsto> cs)\<rparr>"
    using w3 update_count_effect [OF law] by metis
  then show ?thesis
    using plugin_calls(2) [OF law w1] plugin_calls(2) [OF law w2] pay_rewards_effect [OF law w'] as(1)
    by (simp add: plain_def)
qed

text \<open>Both loops end on what unstake wrote, and find nothing staked.\<close>

lemma not_staked_again:
  assumes as: "v_attributes (observe h w) A = Some (kept @ [attr KEY_STAKED ''false'',
      attr KEY_STAKED_AT ''0'', attr KEY_LAST_CLAIM ''0''])" and kept: "without staking_keys kept = kept"
    and now: "clock_time h = Inr now"
  shows "claim_rewards_handler h own A C ua b c cfg dec m ata tp w = Inl (Program_Error AssetNotStaked)"
    and "unstake_handler h own A C ua b c cfg dec m ata tp w = Inl (Program_Error AssetNotStaked)"
proof -
  let ?as = "kept @ [attr KEY_STAKED ''false'', attr KEY_STAKED_AT ''0'', attr KEY_LAST_CLAIM ''0'']"
  have vals: "values k kept = []" if "k \<in> staking_keys" for k
    using values_without [of k staking_keys kept] that by (simp add: kept)
  have zero: "parse_i64 ''0'' = Some 0"
    by code_simp
  have idle: "idle_list ?as"
    by (simp add: idle_list_def vals)
  obtain r r' where scans: "claim_scan ?as scan_start = Inr r" "unstake_scan ?as scan_start = Inr r'"
    using scan_succeeds [of ?as scan_start] zero vals by auto
  with idle_list_scan [OF idle] have "\<not> sc_is_staked r" and "\<not> sc_is_staked r'"
    by simp_all
  with scans as now show
    "claim_rewards_handler h own A C ua b c cfg dec m ata tp w = Inl (Program_Error AssetNotStaked)"
    "unstake_handler h own A C ua b c cfg dec m ata tp w = Inl (Program_Error AssetNotStaked)"
    by (simp_all add: claim_rewards_handler_def unstake_handler_def Let_def)
qed

end
