(* ===== verification/Staking_Theorems.thy ===== *)
theory Staking_Theorems
  imports Staking_Collection Staking_Refusals
begin

text \<open>
  The properties of the staking program, and a small host on which they are applied: worlds are
  views, the collection is at address 1, an asset at 2, its owner at 10, and the program's
  addresses at 100 (config), 101 (update authority) and 102 (rewards mint).
\<close>

section \<open>A host\<close>

definition st_pda :: "u8 list list \<Rightarrow> address" where
  "st_pda seeds =
     (if hd seeds = byte_string ''config'' then 100
      else if hd seeds = byte_string ''update_authority'' then 101 else 102)"

definition st_plugin :: "address \<Rightarrow> plugin \<Rightarrow> view \<Rightarrow> st_error + view" where
  "st_plugin A p V = Inr (set_plugin A p V)"

definition st_collection_plugin :: "address \<Rightarrow> plugin \<Rightarrow> view \<Rightarrow> st_error + view" where
  "st_collection_plugin C p V = Inr (set_collection_plugin C p V)"

definition st_new :: "st_error + 'a \<Rightarrow> view \<Rightarrow> st_error + view" where
  "st_new old V = (if isl old then Inr V else Inl (Called_Program_Error 0))"

definition st_host :: "view mpl_host" where
  "st_host =
     \<lparr>create_program_address = (\<lambda>seeds p. Some (st_pda seeds)),
      find_program_address = (\<lambda>seeds p. (st_pda seeds, 255)),
      is_executable = (\<lambda>_. True),
      is_token_program = (\<lambda>p. p = 7),
      associated_token_ID = 8,
      observe = (\<lambda>V. V),
      clock_time = Inr 0,
      MPL_CORE_ID = 9,
      add_plugin_v1 = (\<lambda>A C p a pl ia s. st_plugin A pl),
      update_plugin_v1 = (\<lambda>A C p a pl s. st_plugin A pl),
      add_collection_plugin_v1 = (\<lambda>C p a pl ia s. st_collection_plugin C pl),
      update_collection_plugin_v1 = (\<lambda>C p a pl s. st_collection_plugin C pl),
      create_collection_v2 = (\<lambda>C p a n u s V. st_new (v_collection V C)
        (V\<lparr>v_collection := (v_collection V)(C := Inr a), v_counters := (v_counters V)(C := None)\<rparr>)),
      create_v2 = (\<lambda>A C a p own n u s V. st_new (v_asset V A)
        (V\<lparr>v_asset := (v_asset V)
             (A := Inr \<lparr>ba_owner = own, ba_update_authority = Collection_Authority C\<rparr>),
           v_attributes := (v_attributes V)(A := None), v_frozen := (v_frozen V)(A := None)\<rparr>)),
      mint_to_checked = (\<lambda>tp m to a n d s V.
        Inr (V\<lparr>v_supply := (v_supply V)(m := v_supply V m + unat n)\<rparr>)),
      init_config = (\<lambda>p k s V. st_new (v_config V k) (V\<lparr>v_config := (v_config V)
        (k := Inr \<lparr>cf_rewards_bps = 0, cf_freeze_period = 0, cf_rewards_bump = 0, cf_bump = 0\<rparr>)\<rparr>)),
      write_config = (\<lambda>k c V. Inr (V\<lparr>v_config := (v_config V)(k := Inr c)\<rparr>)),
      init_rewards_mint = (\<lambda>p m d a tp s V. st_new (v_mint V m)
        (V\<lparr>v_mint := (v_mint V)(m := Inr d), v_supply := (v_supply V)(m := 0)\<rparr>)),
      init_ata_if_needed = (\<lambda>p k m a V. Inr V)\<rparr>"

lemma st_new_Inr [res_simps]: "st_new old V = Inr V' \<longleftrightarrow> isl old \<and> V' = V"
  by (auto simp: st_new_def)

lemma st_host_law: "mpl_law st_host"
  unfolding mpl_law_def
proof (intro conjI)
  show "plugin_law st_host" and "collection_plugin_law st_host"
    by (auto simp: plugin_law_def collection_plugin_law_def st_host_def st_plugin_def
        st_collection_plugin_def)
  show "mint_law st_host"
    by (auto simp: mint_law_def st_host_def)
  show "creation_law st_host" and "config_law st_host"
    by (auto simp: creation_law_def config_law_def st_host_def st_new_Inr)
qed

section \<open>A run: two assets' collection set up, one asset staked, claimed for and unstaked\<close>

definition st_info :: "address \<Rightarrow> account_info" where
  "st_info k = \<lparr>ai_key = k, ai_is_signer = True, ai_is_writable = True\<rparr>"

definition st_accounts :: "account_info list" where
  "st_accounts = map st_info [10, 100, 2, 1, 101]"

definition st_stake_accounts :: "account_info list" where
  "st_stake_accounts = st_accounts @ map st_info [system_program_ID, 9]"

definition st_rewards_accounts :: "account_info list" where
  "st_rewards_accounts = st_accounts @ map st_info [102, 50, 7, 8, system_program_ID, 9]"

definition st_empty :: view where
  "st_empty =
     \<lparr>v_asset = (\<lambda>_. Inl AccountNotInitialized), v_collection = (\<lambda>_. Inl AccountNotInitialized),
      v_config = (\<lambda>_. Inl AccountNotInitialized), v_mint = (\<lambda>_. Inl AccountNotInitialized),
      v_attributes = (\<lambda>_. None), v_frozen = (\<lambda>_. None), v_counters = (\<lambda>_. None),
      v_supply = (\<lambda>_. 0)\<rparr>"

definition st_config :: config where
  "st_config = \<lparr>cf_rewards_bps = 500, cf_freeze_period = 2, cf_rewards_bump = 255, cf_bump = 255\<rparr>"

definition st_created :: view where
  "st_created = st_empty\<lparr>v_collection := (v_collection st_empty)(1 := Inr 101)\<rparr>"

definition st_ready :: view where
  "st_ready = st_created
     \<lparr>v_asset := (v_asset st_empty)
        (2 := Inr \<lparr>ba_owner = 10, ba_update_authority = Collection_Authority 1\<rparr>),
      v_config := (v_config st_empty)(100 := Inr st_config),
      v_mint := (v_mint st_empty)(102 := Inr 6)\<rparr>"

definition st_counters :: "string \<Rightarrow> attribute list" where
  "st_counters n =
     [attr KEY_TOTAL_STAKED n, attr KEY_TOTAL_STAKED_LIFETIME (to_string_i64 1)]"

definition st_staked :: "i64 \<Rightarrow> nat \<Rightarrow> view" where
  "st_staked l n = st_ready
     \<lparr>v_attributes := [2 \<mapsto>
        [attr KEY_STAKED ''true'', attr KEY_STAKED_AT (to_string_i64 1000),
         attr KEY_LAST_CLAIM (to_string_i64 l)]],
      v_frozen := [2 \<mapsto> True],
      v_counters := [1 \<mapsto> st_counters (to_string_i64 1)],
      v_supply := (v_supply st_empty)(102 := n)\<rparr>"

definition st_done :: view where
  "st_done = (st_staked 0 150000)
     \<lparr>v_attributes := [2 \<mapsto>
        [attr KEY_STAKED ''false'', attr KEY_STAKED_AT ''0'', attr KEY_LAST_CLAIM ''0'']],
      v_frozen := [2 \<mapsto> False],
      v_counters := [1 \<mapsto> st_counters (to_string_i64 0)]\<rparr>"

lemmas st_defs = st_host_def st_pda_def st_plugin_def st_collection_plugin_def st_info_def
  st_empty_def st_created_def st_ready_def st_config_def

lemmas address_checks = program_def require_def signed_def writable_def seeds_with_bump_def
  seeds_canonical_def mpl_core_def load_staking_accounts_def staking_constraints_def

lemmas seed_simps = config_seeds_def update_authority_seeds_def rewards_mint_seeds_def
  byte_string_def

lemma st_create:
  "create_collection (at_clock 0 st_host) ''c'' ''u''
     (map st_info [10, 1, 101, system_program_ID, 9]) st_empty = Inr st_created"
  by (simp add: create_collection_def at_clock_def st_defs address_checks seed_simps st_new_def
      fun_upd_def cong: if_cong)

lemma st_initialize_mint:
  "and_then (anchor_core_staking (at_clock 0 st_host) (Initialize 500 2)
      (map st_info [11, 100, 1, 101, 102, system_program_ID, 7]) st_created)
     (anchor_core_staking (at_clock 0 st_host) (Mint_Asset ''a'' ''u'')
      (map st_info [10, 2, 1, 101, system_program_ID, 9])) = Inr st_ready"
  by (simp add: initialize_def mint_asset_def at_clock_def st_defs address_checks seed_simps
      st_new_def fun_upd_def cong: if_cong)

text \<open>A handler's checks with these accounts.\<close>

lemma st_accepts:
  assumes "v_config V = v_config st_ready" and "v_asset V = v_asset st_ready"
    and "v_collection V = v_collection st_ready" and "v_mint V = v_mint st_ready"
  shows "stake (at_clock t st_host) st_stake_accounts V =
      stake_handler (at_clock t st_host) 10 2 1 101 255 V"
    and "claim_rewards (at_clock t st_host) st_rewards_accounts V =
      claim_rewards_handler (at_clock t st_host) 10 2 1 101 255 st_config 100 6 102 50 7 V"
    and "unstake (at_clock t st_host) st_rewards_accounts V =
      unstake_handler (at_clock t st_host) 10 2 1 101 255 st_config 100 6 102 50 7 V"
  using assms
  by (simp_all add: stake_def claim_rewards_def unstake_def with_rewards_accounts_def
      st_stake_accounts_def st_rewards_accounts_def st_accounts_def at_clock_def st_defs address_checks
      seed_simps)

lemma st_same_accounts [simp]:
  "v_config (st_staked l n) = v_config st_ready" "v_asset (st_staked l n) = v_asset st_ready"
  "v_collection (st_staked l n) = v_collection st_ready" "v_mint (st_staked l n) = v_mint st_ready"
  by (simp_all add: st_staked_def)

lemma st_clock [simp]:
  "clock_time (at_clock t st_host) = Inr t"
  "observe st_host V = V"
  "add_plugin_v1 (at_clock t st_host) A C p a pl ia s = st_plugin A pl"
  "update_plugin_v1 (at_clock t st_host) A C p a pl s = st_plugin A pl"
  "add_collection_plugin_v1 (at_clock t st_host) C p a pl ia s = st_collection_plugin C pl"
  "update_collection_plugin_v1 (at_clock t st_host) C p a pl s = st_collection_plugin C pl"
  "mint_to_checked (at_clock t st_host) tp m tok a n d s V =
     Inr (V\<lparr>v_supply := (v_supply V)(m := v_supply V m + unat n)\<rparr>)"
  by (simp_all add: at_clock_def st_host_def)

lemma st_new_counts:
  "new_counts None 1 = Inr (st_counters (to_string_i64 1))"
  "new_counts (Some (st_counters (to_string_i64 1))) (- 1) = Inr (st_counters (to_string_i64 0))"
  by (simp_all add: new_counts_def st_counters_def count_scan_eq read_count_def checked_add_i64_def
      checked_i64_def i64_MIN_def i64_MAX_def max_i64_def)

lemma st_stake: "stake (at_clock 1000 st_host) st_stake_accounts st_ready = Inr (st_staked 1000 0)"
  by (simp add: st_accepts stake_handler_def update_collection_staked_count_def st_plugin_def
      st_collection_plugin_def st_new_counts st_staked_def st_ready_def st_created_def st_empty_def)
    (simp add: fun_eq_iff)

lemma st_reward:
  "reward_amount 1 500 6 = Inr 50000" "reward_amount 2 500 6 = Inr 100000"
  by (simp_all add: reward_amount_def checked_mul_def checked_pow_def)

lemma st_days:
  "whole_days 130600 1000 = Inr 1" "whole_days 260200 87400 = Inr 2" "whole_days 260200 1000 = Inr 3"
  by (simp_all add: whole_days_def SECONDS_PER_DAY_def checked_sub_i64_def checked_div_i64_def
      checked_i64_def i64_MIN_def i64_MAX_def)

lemma st_claim:
  "claim_rewards (at_clock 130600 st_host) st_rewards_accounts (st_staked 1000 0) =
     Inr (st_staked 87400 50000)"
  by (simp add: st_accepts claim_rewards_handler_def st_staked_def scan_start_def push_def st_days
      SECONDS_PER_DAY_def st_plugin_def checked_mul_i64_def checked_add_i64_def checked_i64_def
      i64_MIN_def i64_MAX_def st_config_def st_reward pay_rewards_def)

lemma st_unstake:
  "unstake (at_clock 260200 st_host) st_rewards_accounts (st_staked 87400 50000) = Inr st_done"
  by (simp add: st_accepts unstake_handler_def st_staked_def st_done_def scan_start_def st_days
      st_plugin_def st_collection_plugin_def update_collection_staked_count_def st_new_counts
      st_config_def st_reward pay_rewards_def)

section \<open>The properties\<close>

text \<open>C34: whenever a stake, a claim or an unstake is accepted, the signer owns the asset and the
  config belongs to its collection, the asset makes the step of the abstract machine (idle to staked
  now; rewarded up to a whole number of days later; back to idle, once the freeze period has passed),
  its other attributes are kept, and it is frozen by the stake and thawed by the unstake.\<close>

theorem asset_follows_machine:
  assumes "mpl_law h" and "i = Stake \<or> i = Claim_Rewards \<or> i = Unstake"
    and "anchor_core_staking (at_clock now h) i accounts w = Inr w'"
    and "accounts = owner # config # asset # collection # rest"
    and "in_state s (v_attributes (observe h w) (ai_key asset))"
  shows "\<exists>c. valid_staker h owner config asset collection w c \<and>
    machine_step h now (cf_freeze_period c) i (ai_key asset) s w w'"
proof -
  consider "i = Stake" | "i = Claim_Rewards" | "i = Unstake"
    using assms(2) by blast
  then show ?thesis
  proof cases
    case 1
    then show ?thesis
      using stake_step [OF assms(1) _ assms(4,5)] assms(3) by (metis anchor_core_staking.simps(4))
  next
    case 2
    then have run: "claim_rewards (at_clock now h) accounts w = Inr w'"
      using assms(3) by simp
    obtain ua mint more where "rest = ua # mint # more"
      using rewards_shape [OF run [unfolded claim_rewards_def]] assms(4) by auto
    then show ?thesis
      using claim_step [OF assms(1) run _ assms(5)] assms(4) 2 by blast
  next
    case 3
    then have run: "unstake (at_clock now h) accounts w = Inr w'"
      using assms(3) by simp
    obtain ua mint more where "rest = ua # mint # more"
      using rewards_shape [OF run [unfolded unstake_def]] assms(4) by auto
    then show ?thesis
      using unstake_step [OF assms(1) run _ assms(5)] assms(4) 3 by blast
  qed
qed

theorem asset_follows_machine_witness:
  "\<exists>c. valid_staker st_host (st_info 10) (st_info 100) (st_info 2) (st_info 1) (st_staked 87400 50000) c \<and>
    machine_step st_host 260200 (cf_freeze_period c) Unstake 2 (Staked 1000 87400)
      (st_staked 87400 50000) st_done"
proof -
  have i: "Unstake = Stake \<or> Unstake = Claim_Rewards \<or> Unstake = Unstake"
    by simp
  have run: "anchor_core_staking (at_clock 260200 st_host) Unstake st_rewards_accounts
      (st_staked 87400 50000) = Inr st_done"
    by (simp add: st_unstake)
  have accounts: "st_rewards_accounts = st_info 10 # st_info 100 # st_info 2 # st_info 1 #
      map st_info [101, 102, 50, 7, 8, system_program_ID, 9]"
    by (simp add: st_rewards_accounts_def st_accounts_def)
  have state: "in_state (Staked 1000 87400)
      (v_attributes (observe st_host (st_staked 87400 50000)) (ai_key (st_info 2)))"
    by (simp add: st_staked_def staked_list_def st_info_def)
  have key: "ai_key (st_info 2) = 2"
    by (simp add: st_info_def)
  show ?thesis
    using asset_follows_machine [OF st_host_law i run accounts state] unfolding key .
qed

text \<open>C32: a session of an asset, from its stake at \<open>t\<close> to its unstake at \<open>now\<close>, mints
  100 units per basis point for each whole day in between, however often and whenever rewards were
  claimed; it ends no earlier than the freeze period after the stake, which claims do not move; and
  the asset is idle and thawed.\<close>

theorem session_pays_whole_days:
  assumes "mpl_law h" and "session h A b t n seen w" and "sint seen \<le> sint now"
    and "unstake (at_clock now h) accounts w = Inr w'"
    and "ai_key (accounts ! 2) = A" and "rewards_at h b accounts w"
  shows "n + minted h accounts w w' = 100 * unat b * nat ((sint now - sint t) div 86400) \<and>
    (\<exists>c. v_config (observe h w) (ai_key (accounts ! 1)) = Inr c \<and>
       int (unat (cf_freeze_period c)) \<le> (sint now - sint t) div 86400) \<and>
    in_state Idle (v_attributes (observe h w') A) \<and> v_frozen (observe h w') A = Some False"
proof -
  obtain l where s: "in_state (Staked t l) (v_attributes (observe h w) A)" "rewarded b t l seen n"
    using session_rewarded [OF assms(1,2)] by blast
  have "sint l \<le> sint now" and "sint t \<le> sint now"
    using s(2) assms(3) by (auto simp: rewarded_def)
  then obtain d :: i64 and c where d: "sint d = days_between l now"
    and r: "minted h accounts w w' = 100 * unat b * nat (sint d)"
    and "in_state Idle (v_attributes (observe h w') A)" "v_frozen (observe h w') A = Some False"
    and "v_config (observe h w) (ai_key (accounts ! 1)) = Inr c"
    and "int (unat (cf_freeze_period c)) \<le> days_between t now"
    using unstake_mints [OF assms(1,4,5,6) s(1)] by metis
  with rewarded_total [OF s(2) assms(3) d] days_between_nonneg [OF \<open>sint t \<le> sint now\<close>]
  show ?thesis by simp
qed

theorem session_pays_whole_days_witness:
  "50000 + minted st_host st_rewards_accounts (st_staked 87400 50000) st_done =
     100 * unat (500 :: u16) * nat ((sint (260200 :: i64) - sint (1000 :: i64)) div 86400)"
proof -
  have rate: "rewards_at st_host 500 st_rewards_accounts (st_staked l n)" for l n
    by (simp add: rewards_at_def st_rewards_accounts_def st_accounts_def st_info_def st_ready_def
        st_config_def)
  have key: "ai_key (st_stake_accounts ! 2) = 2" "ai_key (st_rewards_accounts ! 2) = 2"
    by (simp_all add: st_stake_accounts_def st_rewards_accounts_def st_accounts_def st_info_def)
  have "session st_host 2 500 1000 0 1000 (st_staked 1000 0)"
    by (rule session.start [OF st_stake key(1)])
  then have "session st_host 2 500 1000
      (0 + minted st_host st_rewards_accounts (st_staked 1000 0) (st_staked 87400 50000)) 130600
      (st_staked 87400 50000)"
    by (rule session.claim) (simp_all add: st_claim key rate)
  then have s: "session st_host 2 500 1000 50000 130600 (st_staked 87400 50000)"
    by (simp add: minted_def st_rewards_accounts_def st_accounts_def st_info_def st_staked_def)
  show ?thesis
    using session_pays_whole_days [OF st_host_law s _ st_unstake key(2) rate] by simp
qed

text \<open>C33: at any time in the life of a collection, under all six instructions and whatever other
  programs may do, its counter of staked assets is the number of its assets that are staked, its
  lifetime counter the number of stakes ever accepted, and every staked asset is frozen.\<close>

theorem counters_count_staked:
  assumes "mpl_law h" and "life h C N w"
  shows "finite (staked_in (observe h w) C) \<and>
    sint (fst (counts (v_counters (observe h w) C))) = int (card (staked_in (observe h w) C)) \<and>
    sint (snd (counts (v_counters (observe h w) C))) = int N \<and>
    (\<forall>A. A \<in> staked_in (observe h w) C \<longrightarrow> v_frozen (observe h w) A = Some True)"
  using life_ok [OF assms] by (simp add: collection_ok_def counts_ok_def assets_ok_def)

theorem counters_count_staked_witness:
  "sint (fst (counts (v_counters (st_staked 1000 0) 1))) = int (card (staked_in (st_staked 1000 0) 1)) \<and>
   sint (snd (counts (v_counters (st_staked 1000 0) 1))) = 1"
proof -
  have "life st_host 1 0 st_created"
    by (rule life.created [OF st_create]) (simp_all add: st_info_def member_def st_empty_def)
  moreover obtain V where V:
    "anchor_core_staking (at_clock 0 st_host) (Initialize 500 2)
      (map st_info [11, 100, 1, 101, 102, system_program_ID, 7]) st_created = Inr V"
    "anchor_core_staking (at_clock 0 st_host) (Mint_Asset ''a'' ''u'')
      (map st_info [10, 2, 1, 101, system_program_ID, 9]) V = Inr st_ready"
    using st_initialize_mint by (auto simp: and_then_Inr_iff)
  ultimately have ready: "life st_host 1 (0 + 0 + 0) st_ready"
    using life.instruction [OF life.instruction [OF _ V(1)] V(2)] by simp
  have run: "anchor_core_staking (at_clock 1000 st_host) Stake st_stake_accounts st_ready =
      Inr (st_staked 1000 0)"
    using st_stake by simp
  have "stakes 1 Stake st_stake_accounts = 1"
    by (simp add: st_stake_accounts_def st_accounts_def st_info_def)
  with life.instruction [OF ready run] have "life st_host 1 1 (st_staked 1000 0)"
    by simp
  then show ?thesis
    using counters_count_staked [OF st_host_law, of 1 1 "st_staked 1000 0"] by simp
qed

text \<open>C35: what the handlers refuse, and why. At any point of a session, whatever was claimed: a second
  stake is refused as already staked; an unstake before the freeze period, in whole days since the
  stake, is refused as too early; a claim repeated at the same time is accepted and changes nothing,
  not even the supply; and once the asset is unstaked, both a claim and another unstake are refused
  as not staked, at any time.\<close>

theorem staking_refusals:
  assumes "mpl_law h" and "session h A b t n seen w"
    and "sint seen \<le> sint now" and "0 \<le> sint t"
  shows "stake_handler (at_clock now h) own A C ua bump w = Inl (Program_Error AlreadyStaked) \<and>
    ((sint now - sint t) div 86400 < int (unat (cf_freeze_period c)) \<longrightarrow>
      unstake_handler (at_clock now h) own A C ua bump c cfg dec m ata tp w =
        Inl (Program_Error FreezePeriodNotElapsed)) \<and>
    (\<forall>w'. claim_rewards_handler (at_clock now h) own A C ua bump c cfg dec m ata tp w = Inr w' \<longrightarrow>
      claim_rewards_handler (at_clock now h) own A C ua bump c cfg dec m ata tp w' = Inr w') \<and>
    (\<forall>w'. unstake_handler (at_clock now h) own A C ua bump c cfg dec m ata tp w = Inr w' \<longrightarrow>
      claim_rewards_handler (at_clock later h) own' A C' ua' bump' c' cfg' dec' m' ata' tp' w' =
        Inl (Program_Error AssetNotStaked) \<and>
      unstake_handler (at_clock later h) own' A C' ua' bump' c' cfg' dec' m' ata' tp' w' =
        Inl (Program_Error AssetNotStaked))"
proof -
  have law: "mpl_law (at_clock now h)"
    using assms(1) by simp
  obtain l where "in_state (Staked t l) (v_attributes (observe h w) A)" and l: "rewarded b t l seen n"
    using session_rewarded [OF assms(1,2)] by blast
  then have s: "in_state (Staked t l) (v_attributes (observe (at_clock now h) w) A)"
    by simp
  have before: "sint l \<le> sint now" "sint t \<le> sint now"
    using l assms(3) by (auto simp: rewarded_def)
  have short: "sint now - sint t < 2 ^ 63"
    using assms(4) sint_i64_bounds(2) [of now] by (simp add: i64_MAX_def)
  have clock: "clock_time (at_clock now h) = Inr now" "clock_time (at_clock later h) = Inr later"
    by simp_all
  have "claim_rewards_handler (at_clock later h) own' A C' ua' bump' c' cfg' dec' m' ata' tp' w' =
        Inl (Program_Error AssetNotStaked) \<and>
      unstake_handler (at_clock later h) own' A C' ua' bump' c' cfg' dec' m' ata' tp' w' =
        Inl (Program_Error AssetNotStaked)"
    if "unstake_handler (at_clock now h) own A C ua bump c cfg dec m ata tp w = Inr w'" for w'
    using not_staked_again [where h = "at_clock later h" and w = w', OF _ _ clock(2)]
      unstake_writes [OF law s that]
    by (simp add: plain_def split: option.split)
  then show ?thesis
    using claimed_twice [OF law s clock(1) before(1), of own C ua bump c cfg dec m ata tp]
    by (simp add: staked_again [OF s] unstaked_too_early [OF s clock(1) before(2) short])
qed

theorem staking_refusals_witness:
  "stake_handler (at_clock 130600 st_host) 10 2 1 101 255 (st_staked 1000 0) =
     Inl (Program_Error AlreadyStaked) \<and>
   unstake_handler (at_clock 130600 st_host) 10 2 1 101 255 st_config 100 6 102 50 7 (st_staked 1000 0) =
     Inl (Program_Error FreezePeriodNotElapsed)"
proof -
  have "session st_host 2 500 1000 0 1000 (st_staked 1000 0)"
    by (rule session.start [OF st_stake])
      (simp add: st_stake_accounts_def st_accounts_def st_info_def)
  from staking_refusals [OF st_host_law this, of 130600 10 1 101 255 st_config 100 6 102 50 7]
  show ?thesis
    by (simp add: st_config_def)
qed

end
