(* ===== verification/Anchor_Escrow_State.thy ===== *)
theory Anchor_Escrow_State
  imports Anchor_Account
begin

text \<open>
  The escrow account of the Anchor escrow program (\<open>src/state.rs\<close>): the one-byte
  discriminator, then the Borsh encoding of the struct, of fixed length. It is an instance of the
  contract \<open>anchor_account\<close>.
\<close>

record ae_escrow =
  ae_seed :: u64
  ae_maker :: address
  ae_mint_a :: address
  ae_mint_b :: address
  ae_receive :: u64
  ae_bump :: u8

text \<open>\<open>declare_id!("DfYWchGLtTmd1aVvQkL2Rpvz7SnvKN8dBhzDFhaj3MBm")\<close>, decoded.\<close>

definition ae_ID :: address where
  "ae_ID = 94247776978209064248675189799836691912229909073403957852464616993057735257020"

definition ESCROW_SEED :: "u8 list" where
  "ESCROW_SEED = byte_string ''escrow''"

definition ae_DISCRIMINATOR :: "u8 list" where
  "ae_DISCRIMINATOR = [1]"

text \<open>The sum that \<open>InitSpace\<close> derives from the fields.\<close>

definition ae_INIT_SPACE :: nat where
  "ae_INIT_SPACE = 8 + 32 + 32 + 32 + 8 + 1"

definition ae_serialize :: "ae_escrow \<Rightarrow> u8 list" where
  "ae_serialize e =
     to_le_bytes 8 (ae_seed e) @ address_bytes (ae_maker e) @ address_bytes (ae_mint_a e) @
     address_bytes (ae_mint_b e) @ to_le_bytes 8 (ae_receive e) @ [ae_bump e]"

definition ae_deserialize :: "u8 list \<Rightarrow> ae_escrow option" where
  "ae_deserialize bs =
     Option.bind (read_le 8 bs) (\<lambda>(seed, bs).
     Option.bind (read_le 32 bs) (\<lambda>(maker, bs).
     Option.bind (read_le 32 bs) (\<lambda>(mint_a, bs).
     Option.bind (read_le 32 bs) (\<lambda>(mint_b, bs).
     Option.bind (read_le 8 bs) (\<lambda>(receive, bs).
     Option.bind (read_le 1 bs) (\<lambda>(bump, bs).
     Some \<lparr>ae_seed = seed, ae_maker = maker, ae_mint_a = mint_a, ae_mint_b = mint_b,
       ae_receive = receive, ae_bump = bump\<rparr>))))))"

lemma length_ae_serialize [simp]: "length (ae_serialize e) = ae_INIT_SPACE"
  by (simp add: ae_serialize_def ae_INIT_SPACE_def)

interpretation ae_account: anchor_account "\<lambda>_. True" ae_serialize ae_deserialize ae_INIT_SPACE
proof
  show "ae_deserialize (ae_serialize e @ rest) = Some e" for e rest
    by (simp add: ae_deserialize_def ae_serialize_def codec_simps read_le_append del: One_nat_def)
qed simp

lemma ae_ID_not_system [simp]: "ae_ID \<noteq> system_program_ID" "system_program_ID \<noteq> ae_ID"
  by (simp_all add: ae_ID_def system_program_ID_def)

section \<open>Loading and writing back\<close>

definition ae_load :: "ledger \<Rightarrow> address \<Rightarrow> 'e anchor_error + ae_escrow" where
  "ae_load L k = account_load ae_ID ae_DISCRIMINATOR ae_deserialize L k"

definition ae_exit :: "address \<Rightarrow> ae_escrow \<Rightarrow> ledger \<Rightarrow> 'e anchor_error + ledger" where
  "ae_exit k e L = account_exit ae_ID ae_DISCRIMINATOR ae_serialize k e L"

text \<open>The escrow at an address, as the program would load it.\<close>

definition ae_at :: "ledger \<Rightarrow> address \<Rightarrow> ae_escrow \<Rightarrow> bool" where
  "ae_at L k e \<longleftrightarrow> account_holds ae_ID ae_DISCRIMINATOR ae_serialize ae_INIT_SPACE k e L"

lemma ae_load_at: "ae_at L k e \<Longrightarrow> ae_load L k = Inr e"
  unfolding ae_at_def ae_load_def by (rule ae_account.load_holds) simp_all

lemma ae_at_owner: "ae_at L k e \<Longrightarrow> acc_owner (L k) = ae_ID"
  by (simp add: ae_at_def account_holds_def)

lemma ae_at_foreign: "foreign_change ae_ID L L' \<Longrightarrow> ae_at L k e \<Longrightarrow> ae_at L' k e"
  unfolding ae_at_def by (rule foreign_change_account_holds)

lemma ae_at_same: "same_state (L' k) (L k) \<Longrightarrow> ae_at L k e \<Longrightarrow> ae_at L' k e"
  by (simp add: ae_at_def account_holds_def same_state_def)

lemma ae_exit_at:
  assumes "acc_owner (L k) = ae_ID" and "length (acc_data (L k)) = 1 + ae_INIT_SPACE"
  obtains L' where "ae_exit k e L = Inr L'" and "ae_at L' k e" and "\<And>a. a \<noteq> k \<Longrightarrow> L' a = L a"
proof -
  have "length (acc_data (L k)) = length ae_DISCRIMINATOR + ae_INIT_SPACE"
    using assms(2) by (simp add: ae_DISCRIMINATOR_def)
  from ae_account.exit_holds [where L = L and v = e, OF TrueI assms(1) this] show ?thesis
    unfolding ae_exit_def ae_at_def using that [unfolded ae_exit_def ae_at_def] by blast
qed

end
