(* ===== verification/Anchor_Escrow_Program.thy ===== *)
theory Anchor_Escrow_Program
  imports Anchor_Escrow_State
begin

text \<open>
  The three instructions of the Anchor escrow program (\<open>src/lib.rs\<close> and
  \<open>src/instructions\<close>): the account validation Anchor generates (loading, the inits, then the
  constraints, each in the order of the struct), the handler, and at the end the write-back or the
  closing of the escrow. The calls of the system, token and associated-token programs and their
  account parsers are the record \<open>ae_host\<close>.
\<close>

section \<open>Errors and parameters\<close>

datatype ae_error = CustomError

type_synonym ae_err = "ae_error anchor_error"

text \<open>
  \<open>default_token_program\<close> is the program \<open>associated_token\<close> derives addresses with when
  the constraint names none. A mint parses to its decimals.
\<close>

record ae_host = anchor_env +
  ae_token :: "account \<Rightarrow> ae_err + token_account"
  ae_mint :: "account \<Rightarrow> ae_err + u8"
  ae_ata_address :: "address \<Rightarrow> address \<Rightarrow> address \<Rightarrow> address"
  default_token_program :: address
  ae_init_account :: "address \<Rightarrow> address \<Rightarrow> nat \<Rightarrow> signer_seeds \<Rightarrow> ledger \<Rightarrow> ae_err + ledger"
  ae_init_ata :: "address \<Rightarrow> address \<Rightarrow> address \<Rightarrow> address \<Rightarrow> address \<Rightarrow> ledger \<Rightarrow> ae_err + ledger"
  ae_init_ata_if_needed ::
    "address \<Rightarrow> address \<Rightarrow> address \<Rightarrow> address \<Rightarrow> address \<Rightarrow> ledger \<Rightarrow> ae_err + ledger"
  ae_transfer_checked ::
    "address \<Rightarrow> address \<Rightarrow> address \<Rightarrow> address \<Rightarrow> address \<Rightarrow> u64 \<Rightarrow> u8 \<Rightarrow> signer_seeds list \<Rightarrow>
      ledger \<Rightarrow> ae_err + ledger"
  ae_close_account ::
    "address \<Rightarrow> address \<Rightarrow> address \<Rightarrow> address \<Rightarrow> signer_seeds list \<Rightarrow> ledger \<Rightarrow> ae_err + ledger"

section \<open>Checks\<close>

text \<open>\<open>SystemAccount\<close>.\<close>

definition system_account :: "account_info \<Rightarrow> ledger \<Rightarrow> ae_err + unit" where
  "system_account a L =
     require (acc_owner (L (ai_key a)) = system_program_ID) AccountNotSystemOwned"

text \<open>\<open>mint::token_program = token\<close>.\<close>

definition mint_program :: "account_info \<Rightarrow> account_info \<Rightarrow> ledger \<Rightarrow> ae_err + unit" where
  "mint_program mint token L =
     require (acc_owner (L (ai_key mint)) = ai_key token) ConstraintMintTokenProgram"

text \<open>
  \<open>associated_token\<close> on an account that is not initialised here: \<open>t\<close> is the account as
  loaded, \<open>tp\<close> the program named by the constraint, if any.
\<close>

definition associated_token ::
  "ae_host \<Rightarrow> account_info \<Rightarrow> token_account \<Rightarrow> address \<Rightarrow> address \<Rightarrow> account_info option \<Rightarrow>
     ledger \<Rightarrow> ae_err + unit" where
  "associated_token h a t mint auth tp L =
     and_then
       (case tp of
          None \<Rightarrow> Inr ()
        | Some p \<Rightarrow>
            require (acc_owner (L (ai_key a)) = ai_key p) ConstraintAssociatedTokenTokenProgram) (\<lambda>_.
     and_then (require (ta_owner t = auth) ConstraintTokenOwner) (\<lambda>_.
     require
       (ai_key a = ae_ata_address h auth mint
          (case tp of None \<Rightarrow> default_token_program h | Some p \<Rightarrow> ai_key p))
       ConstraintAssociated))"

definition ae_seeds :: "address \<Rightarrow> u64 \<Rightarrow> u8 list list" where
  "ae_seeds maker seed = [ESCROW_SEED, address_bytes maker, to_le_bytes 8 seed]"

section \<open>make\<close>

definition init_escrow :: "u64 \<Rightarrow> u64 \<Rightarrow> address \<Rightarrow> address \<Rightarrow> address \<Rightarrow> u8 \<Rightarrow> ae_escrow" where
  "init_escrow seed receive maker mint_a mint_b bump =
     \<lparr>ae_seed = seed, ae_maker = maker, ae_mint_a = mint_a, ae_mint_b = mint_b,
      ae_receive = receive, ae_bump = bump\<rparr>"

definition ae_make ::
  "ae_host \<Rightarrow> u64 \<Rightarrow> u64 \<Rightarrow> u64 \<Rightarrow> account_info list \<Rightarrow> ledger \<Rightarrow> ae_err + ledger" where
  "ae_make h seed deposit receive accounts L =
     (case accounts of
        maker # mint_a # mint_b # maker_ata_a # escrow # vault # ata_program # token # system # _ \<Rightarrow>
          and_then (signed maker) (\<lambda>_.
          and_then (ae_mint h (L (ai_key mint_a))) (\<lambda>decimals.
          and_then (ae_mint h (L (ai_key mint_b))) (\<lambda>_.
          and_then (ae_token h (L (ai_key maker_ata_a))) (\<lambda>t.
          and_then (program h (\<lambda>p. p = associated_token_ID h) ata_program) (\<lambda>_.
          and_then (program h (is_token_program h) token) (\<lambda>_.
          and_then (program h (\<lambda>p. p = system_program_ID) system) (\<lambda>_.
          and_then (seeds_canonical h ae_ID (ae_seeds (ai_key maker) seed) escrow) (\<lambda>bump.
          and_then (ae_init_account h (ai_key maker) (ai_key escrow)
            (length ae_DISCRIMINATOR + ae_INIT_SPACE) (ae_seeds (ai_key maker) seed @ [[bump]]) L) (\<lambda>L.
          and_then (writable escrow) (\<lambda>_.
          and_then (ae_init_ata h (ai_key maker) (ai_key vault) (ai_key mint_a) (ai_key escrow)
            (ai_key token) L) (\<lambda>L.
          and_then (writable vault) (\<lambda>_.
          and_then (writable maker) (\<lambda>_.
          and_then (mint_program mint_a token L) (\<lambda>_.
          and_then (mint_program mint_b token L) (\<lambda>_.
          and_then (associated_token h maker_ata_a t (ai_key mint_a) (ai_key maker) (Some token) L) (\<lambda>_.
          and_then (writable maker_ata_a) (\<lambda>_.
          and_then (ae_transfer_checked h (ai_key token) (ai_key maker_ata_a) (ai_key mint_a)
            (ai_key vault) (ai_key maker) deposit decimals [] L) (\<lambda>L.
          ae_exit (ai_key escrow)
            (init_escrow seed receive (ai_key maker) (ai_key mint_a) (ai_key mint_b) bump)
            L))))))))))))))))))
      | _ \<Rightarrow> Inl AccountNotEnoughKeys)"

section \<open>take and refund\<close>

text \<open>The seeds the program signs with, from the loaded escrow.\<close>

definition signer_seeds_of :: "address \<Rightarrow> ae_escrow \<Rightarrow> signer_seeds" where
  "signer_seeds_of maker e = ae_seeds maker (ae_seed e) @ [[ae_bump e]]"

text \<open>The constraints of \<open>escrow\<close> and \<open>vault\<close>; \<open>mint_b\<close> is checked by \<open>take\<close> only.\<close>

definition escrow_constraints ::
  "ae_host \<Rightarrow> account_info \<Rightarrow> ae_escrow \<Rightarrow> ae_err + unit \<Rightarrow> account_info \<Rightarrow> ae_err + unit" where
  "escrow_constraints h escrow e has_ones maker =
     and_then (seeds_with_bump h ae_ID (ae_seeds (ai_key maker) (ae_seed e)) (ae_bump e) escrow) (\<lambda>_.
     and_then (writable escrow) (\<lambda>_.
     and_then has_ones (\<lambda>_.
     require (ai_key escrow \<noteq> ai_key maker) ConstraintClose)))"

definition vault_constraints ::
  "ae_host \<Rightarrow> account_info \<Rightarrow> token_account \<Rightarrow> account_info \<Rightarrow> account_info \<Rightarrow> ledger \<Rightarrow>
     ae_err + unit" where
  "vault_constraints h vault v mint_a escrow L =
     and_then (associated_token h vault v (ai_key mint_a) (ai_key escrow) None L) (\<lambda>_.
     writable vault)"

text \<open>The whole vault goes to \<open>dest\<close>, then it is closed.\<close>

definition empty_and_close_vault ::
  "ae_host \<Rightarrow> account_info \<Rightarrow> account_info \<Rightarrow> token_account \<Rightarrow> account_info \<Rightarrow> account_info \<Rightarrow> u8 \<Rightarrow>
     account_info \<Rightarrow> account_info \<Rightarrow> ae_escrow \<Rightarrow> ledger \<Rightarrow> ae_err + ledger" where
  "empty_and_close_vault h token vault v mint_a dest decimals escrow maker e L =
     (let seeds = [signer_seeds_of (ai_key maker) e] in
      and_then (ae_transfer_checked h (ai_key token) (ai_key vault) (ai_key mint_a) (ai_key dest)
        (ai_key escrow) (ta_amount v) decimals seeds L) (\<lambda>L.
      ae_close_account h (ai_key token) (ai_key vault) (ai_key maker) (ai_key escrow) seeds L))"

definition ae_take :: "ae_host \<Rightarrow> account_info list \<Rightarrow> ledger \<Rightarrow> ae_err + ledger" where
  "ae_take h accounts L =
     (case accounts of
        taker # maker # mint_a # mint_b # taker_ata_a # taker_ata_b # maker_ata_b # escrow # vault #
          ata_program # token # system # _ \<Rightarrow>
          and_then (signed taker) (\<lambda>_.
          and_then (system_account maker L) (\<lambda>_.
          and_then (ae_mint h (L (ai_key mint_a))) (\<lambda>decimals_a.
          and_then (ae_mint h (L (ai_key mint_b))) (\<lambda>decimals_b.
          and_then (ae_token h (L (ai_key taker_ata_b))) (\<lambda>tb.
          and_then (ae_load L (ai_key escrow)) (\<lambda>e.
          and_then (ae_token h (L (ai_key vault))) (\<lambda>v.
          and_then (program h (\<lambda>p. p = associated_token_ID h) ata_program) (\<lambda>_.
          and_then (program h (is_token_program h) token) (\<lambda>_.
          and_then (program h (\<lambda>p. p = system_program_ID) system) (\<lambda>_.
          and_then (ae_init_ata_if_needed h (ai_key taker) (ai_key taker_ata_a) (ai_key mint_a)
            (ai_key taker) (ai_key token) L) (\<lambda>L.
          and_then (writable taker_ata_a) (\<lambda>_.
          and_then (ae_init_ata_if_needed h (ai_key taker) (ai_key maker_ata_b) (ai_key mint_b)
            (ai_key maker) (ai_key token) L) (\<lambda>L.
          and_then (writable maker_ata_b) (\<lambda>_.
          and_then (writable taker) (\<lambda>_.
          and_then (writable maker) (\<lambda>_.
          and_then (associated_token h taker_ata_b tb (ai_key mint_b) (ai_key taker) None L) (\<lambda>_.
          and_then (writable taker_ata_b) (\<lambda>_.
          and_then (escrow_constraints h escrow e
            (and_then (require (ae_maker e = ai_key maker) ConstraintHasOne) (\<lambda>_.
             and_then (require (ae_mint_a e = ai_key mint_a) ConstraintHasOne) (\<lambda>_.
             require (ae_mint_b e = ai_key mint_b) ConstraintHasOne))) maker) (\<lambda>_.
          and_then (vault_constraints h vault v mint_a escrow L) (\<lambda>_.
          and_then (ae_transfer_checked h (ai_key token) (ai_key taker_ata_b) (ai_key mint_b)
            (ai_key maker_ata_b) (ai_key taker) (ae_receive e) decimals_b [] L) (\<lambda>L.
          and_then (empty_and_close_vault h token vault v mint_a taker_ata_a decimals_a escrow maker
            e L) (\<lambda>L.
          anchor_close (ai_key escrow) (ai_key maker) L))))))))))))))))))))))
      | _ \<Rightarrow> Inl AccountNotEnoughKeys)"

definition ae_refund :: "ae_host \<Rightarrow> account_info list \<Rightarrow> ledger \<Rightarrow> ae_err + ledger" where
  "ae_refund h accounts L =
     (case accounts of
        maker # mint_a # maker_ata_a # escrow # vault # token # system # _ \<Rightarrow>
          and_then (signed maker) (\<lambda>_.
          and_then (ae_mint h (L (ai_key mint_a))) (\<lambda>decimals.
          and_then (ae_token h (L (ai_key maker_ata_a))) (\<lambda>t.
          and_then (ae_load L (ai_key escrow)) (\<lambda>e.
          and_then (ae_token h (L (ai_key vault))) (\<lambda>v.
          and_then (program h (is_token_program h) token) (\<lambda>_.
          and_then (program h (\<lambda>p. p = system_program_ID) system) (\<lambda>_.
          and_then (writable maker) (\<lambda>_.
          and_then (associated_token h maker_ata_a t (ai_key mint_a) (ai_key maker) None L) (\<lambda>_.
          and_then (writable maker_ata_a) (\<lambda>_.
          and_then (escrow_constraints h escrow e
            (and_then (require (ae_mint_a e = ai_key mint_a) ConstraintHasOne) (\<lambda>_.
             require (ae_maker e = ai_key maker) ConstraintHasOne)) maker) (\<lambda>_.
          and_then (vault_constraints h vault v mint_a escrow L) (\<lambda>_.
          and_then (empty_and_close_vault h token vault v mint_a maker_ata_a decimals escrow maker
            e L) (\<lambda>L.
          anchor_close (ai_key escrow) (ai_key maker) L)))))))))))))
      | _ \<Rightarrow> Inl AccountNotEnoughKeys)"

section \<open>The program\<close>

datatype ae_instruction =
    Make_Escrow u64 u64 u64
  | Take_Escrow
  | Refund_Escrow

fun anchor_escrow_q2_2026 ::
  "ae_host \<Rightarrow> ae_instruction \<Rightarrow> account_info list \<Rightarrow> ledger \<Rightarrow> ae_err + ledger" where
  "anchor_escrow_q2_2026 h (Make_Escrow seed deposit receive) = ae_make h seed deposit receive"
| "anchor_escrow_q2_2026 h Take_Escrow = ae_take h"
| "anchor_escrow_q2_2026 h Refund_Escrow = ae_refund h"

end
