(* ===== verification/Anchor_Escrow_Steps.thy ===== *)
theory Anchor_Escrow_Steps
  imports Anchor_Escrow_Program
begin

text \<open>
  What an accepted instruction of the Anchor escrow does to escrow accounts and to token
  accounts. \<open>swap_law\<close> states what the documentation of the system, token and associated-token
  programs promises of each call; a mint for which \<open>plain\<close> holds takes no fee on transfers.
\<close>

section \<open>What the documentation promises\<close>

text \<open>The token account at an address, if it holds one.\<close>

definition tok :: "ae_host \<Rightarrow> ledger \<Rightarrow> address \<Rightarrow> token_account option" where
  "tok h L k = (case ae_token h (L k) of Inl e \<Rightarrow> None | Inr t \<Rightarrow> Some t)"

text \<open>A call leaves escrow accounts alone, and token accounts outside \<open>D\<close>.\<close>

definition call :: "ae_host \<Rightarrow> address set \<Rightarrow> ledger \<Rightarrow> ledger \<Rightarrow> bool" where
  "call h D L L' \<longleftrightarrow> foreign_change ae_ID L L' \<and> (\<forall>k. k \<notin> D \<longrightarrow> tok h L' k = tok h L k)"

definition parse_law :: "ae_host \<Rightarrow> bool" where
  "parse_law h \<longleftrightarrow>
     (\<forall>a t. ae_token h a = Inr t \<longrightarrow> acc_owner a \<noteq> ae_ID \<and> acc_owner a \<noteq> system_program_ID) \<and>
     (\<forall>a b t. same_state a b \<longrightarrow> ae_token h a = Inr t \<longrightarrow> ae_token h b = Inr t)"

definition new_account_law :: "ae_host \<Rightarrow> bool" where
  "new_account_law h \<longleftrightarrow>
     (\<forall>p k n s L L'. ae_init_account h p k n s L = Inr L' \<longrightarrow>
        call h {} L L' \<and> acc_owner (L k) = system_program_ID \<and> acc_owner (L' k) = ae_ID \<and>
        acc_data (L' k) = replicate n 0)"

definition ata_law :: "ae_host \<Rightarrow> bool" where
  "ata_law h \<longleftrightarrow>
     (\<forall>p k m a tp L L'. ae_init_ata h p k m a tp L = Inr L' \<longrightarrow>
        call h {k} L L' \<and> k = ae_ata_address h a m tp \<and> tok h L k = None \<and>
        tok h L' k = Some \<lparr>ta_mint = m, ta_owner = a, ta_amount = 0\<rparr>) \<and>
     (\<forall>p k m a tp L L'. ae_init_ata_if_needed h p k m a tp L = Inr L' \<longrightarrow>
        call h {k} L L' \<and> k = ae_ata_address h a m tp \<and>
        (tok h L k \<noteq> None \<longrightarrow> tok h L' k = tok h L k) \<and>
        (\<exists>n. tok h L' k = Some \<lparr>ta_mint = m, ta_owner = a, ta_amount = n\<rparr> \<and>
           (tok h L k = None \<longrightarrow> n = 0)))"

text \<open>The source pays \<open>n\<close>, the destination receives \<open>r\<close>.\<close>

definition moves ::
  "ae_host \<Rightarrow> address \<Rightarrow> address \<Rightarrow> address \<Rightarrow> u64 \<Rightarrow> u64 \<Rightarrow> ledger \<Rightarrow> ledger \<Rightarrow> bool" where
  "moves h m from to n r L L' \<longleftrightarrow>
     (\<exists>f t. tok h L from = Some f \<and> tok h L to = Some t \<and> ta_mint f = m \<and> ta_mint t = m \<and>
        unat n \<le> unat (ta_amount f) \<and>
        tok h L' from = Some (f\<lparr>ta_amount := ta_amount f - n\<rparr>) \<and>
        unat (ta_amount t + r) = unat (ta_amount t) + unat r \<and>
        tok h L' to = Some (t\<lparr>ta_amount := ta_amount t + r\<rparr>))"

definition transfer_law :: "(address \<Rightarrow> bool) \<Rightarrow> ae_host \<Rightarrow> bool" where
  "transfer_law plain h \<longleftrightarrow>
     (\<forall>tp from m to a n d s L L'. ae_transfer_checked h tp from m to a n d s L = Inr L' \<longrightarrow>
        call h {from, to} L L' \<and>
        (if from = to then tok h L' to = tok h L to
         else \<exists>r. moves h m from to n r L L' \<and> unat r \<le> unat n \<and> (plain m \<longrightarrow> r = n))) \<and>
     (\<forall>tp k d a s L L'. ae_close_account h tp k d a s L = Inr L' \<longrightarrow>
        call h {k} L L' \<and> tok h L' k = None)"

definition swap_law :: "(address \<Rightarrow> bool) \<Rightarrow> ae_host \<Rightarrow> bool" where
  "swap_law plain h \<longleftrightarrow>
     parse_law h \<and> new_account_law h \<and> ata_law h \<and> transfer_law plain h"

lemma new_account_call:
  "swap_law plain h \<Longrightarrow> ae_init_account h p k n s L = Inr L' \<Longrightarrow>
     call h {} L L' \<and> acc_owner (L k) = system_program_ID \<and> acc_owner (L' k) = ae_ID \<and>
     acc_data (L' k) = replicate n 0"
  unfolding swap_law_def new_account_law_def by (elim conjE) meson

lemma ata_call:
  "swap_law plain h \<Longrightarrow> ae_init_ata h p k m a tp L = Inr L' \<Longrightarrow>
     call h {k} L L' \<and> k = ae_ata_address h a m tp \<and> tok h L k = None \<and>
     tok h L' k = Some \<lparr>ta_mint = m, ta_owner = a, ta_amount = 0\<rparr>"
  unfolding swap_law_def ata_law_def by (elim conjE) meson

lemma ata_if_needed_call:
  "swap_law plain h \<Longrightarrow> ae_init_ata_if_needed h p k m a tp L = Inr L' \<Longrightarrow>
     call h {k} L L' \<and> k = ae_ata_address h a m tp \<and>
     (tok h L k \<noteq> None \<longrightarrow> tok h L' k = tok h L k) \<and>
     (\<exists>n. tok h L' k = Some \<lparr>ta_mint = m, ta_owner = a, ta_amount = n\<rparr> \<and>
        (tok h L k = None \<longrightarrow> n = 0))"
  unfolding swap_law_def ata_law_def by (elim conjE) meson

lemma transfer_call:
  "swap_law plain h \<Longrightarrow> ae_transfer_checked h tp from m to a n d s L = Inr L' \<Longrightarrow>
     call h {from, to} L L' \<and>
     (if from = to then tok h L' to = tok h L to
      else \<exists>r. moves h m from to n r L L' \<and> unat r \<le> unat n \<and> (plain m \<longrightarrow> r = n))"
  unfolding swap_law_def transfer_law_def by (elim conjE) meson

lemma close_call:
  "swap_law plain h \<Longrightarrow> ae_close_account h tp k d a s L = Inr L' \<Longrightarrow>
     call h {k} L L' \<and> tok h L' k = None"
  unfolding swap_law_def transfer_law_def by (elim conjE) meson

section \<open>Calls in a row\<close>

lemma foreign_change_trans:
  assumes 1: "foreign_change p L L'" and 2: "foreign_change p L' L''"
  shows "foreign_change p L L''"
  unfolding foreign_change_def
proof (intro allI)
  fix a
  show "if acc_owner (L a) = p then same_state (L'' a) (L a)
    else acc_owner (L'' a) = p \<longrightarrow> (\<exists>n. acc_data (L'' a) = replicate n 0)"
  proof (cases "acc_owner (L' a) = p")
    case True
    then have "same_state (L'' a) (L' a)"
      using foreign_change_same [OF 2] by simp
    moreover have "if acc_owner (L a) = p then same_state (L' a) (L a)
        else acc_owner (L' a) = p \<longrightarrow> (\<exists>n. acc_data (L' a) = replicate n 0)"
      using 1 unfolding foreign_change_def by (rule spec)
    ultimately show ?thesis
      using True by (auto simp: same_state_def split: if_splits)
  next
    case False
    moreover have "acc_owner (L a) \<noteq> p"
      using False foreign_change_same [OF 1] unfolding same_state_def by metis
    ultimately show ?thesis
      using 2 unfolding foreign_change_def by metis
  qed
qed

lemma call_trans: "call h D L L' \<Longrightarrow> call h D' L' L'' \<Longrightarrow> call h (D \<union> D') L L''"
  unfolding call_def using foreign_change_trans by auto

lemma call_at: "call h D L L' \<Longrightarrow> ae_at L k e \<Longrightarrow> ae_at L' k e"
  unfolding call_def using ae_at_foreign by blast

lemma call_tok: "call h D L L' \<Longrightarrow> k \<notin> D \<Longrightarrow> tok h L' k = tok h L k"
  by (simp add: call_def)

lemma call_owner: "call h D L L' \<Longrightarrow> acc_owner (L k) = ae_ID \<Longrightarrow> acc_owner (L' k) = ae_ID"
  unfolding call_def using foreign_change_same same_state_def by metis

lemma tok_owner: "swap_law plain h \<Longrightarrow> tok h L k = Some t \<Longrightarrow> acc_owner (L k) \<noteq> ae_ID"
  unfolding swap_law_def parse_law_def tok_def by (auto split: sum.splits)

text \<open>The write-back and the closing of the escrow touch no token account.\<close>

lemma tok_same:
  assumes "swap_law plain h" and "same_state (L' k) (L k)"
  shows "tok h L' k = tok h L k"
proof -
  have "same_state (L k) (L' k)"
    using assms(2) by (simp add: same_state_def)
  with assms have "ae_token h (L' k) = Inr t \<longleftrightarrow> ae_token h (L k) = Inr t" for t
    unfolding swap_law_def parse_law_def by (elim conjE) meson
  then show ?thesis
    by (auto simp: tok_def split: sum.splits) metis+
qed

lemma tok_not_token:
  "swap_law plain h \<Longrightarrow> acc_owner (L k) = ae_ID \<or> acc_owner (L k) = system_program_ID \<Longrightarrow>
     tok h L k = None"
  unfolding swap_law_def parse_law_def tok_def by (auto split: sum.splits)

section \<open>What the instructions do\<close>

text \<open>Escrows other than the one at \<open>E\<close> are left alone.\<close>

definition others_kept :: "address \<Rightarrow> ledger \<Rightarrow> ledger \<Rightarrow> bool" where
  "others_kept E L L' \<longleftrightarrow> (\<forall>k e. k \<noteq> E \<longrightarrow> ae_at L k e \<longrightarrow> ae_at L' k e)"

text \<open>The balance of a token account, zero where there is none.\<close>

definition bal :: "ae_host \<Rightarrow> ledger \<Rightarrow> address \<Rightarrow> nat" where
  "bal h L k = (case tok h L k of None \<Rightarrow> 0 | Some t \<Rightarrow> unat (ta_amount t))"

text \<open>Token accounts outside \<open>K\<close> whose owners are outside \<open>U\<close> are left alone.\<close>

definition only_of :: "ae_host \<Rightarrow> address set \<Rightarrow> address set \<Rightarrow> ledger \<Rightarrow> ledger \<Rightarrow> bool" where
  "only_of h U K L L' \<longleftrightarrow>
     (\<forall>k t. k \<notin> K \<longrightarrow> tok h L k = Some t \<longrightarrow> ta_owner t \<notin> U \<longrightarrow> tok h L' k = Some t)"

lemma only_ofI:
  assumes "call h D L L'"
    and "\<And>k t. k \<in> D \<Longrightarrow> k \<notin> K \<Longrightarrow> tok h L k = Some t \<Longrightarrow> ta_owner t \<in> U"
  shows "only_of h U K L L'"
  unfolding only_of_def using assms call_tok [OF assms(1)] by metis

lemma exit_effect:
  assumes law: "swap_law plain h" and run: "ae_exit E e L = (Inr L' :: ae_err + ledger)" and own: "acc_owner (L E) = ae_ID"
    and len: "length (acc_data (L E)) = 1 + ae_INIT_SPACE"
  shows "ae_at L' E e" and "tok h L' k = tok h L k" and "others_kept E L L'"
proof -
  obtain L1 where "ae_exit E e L = (Inr L1 :: ae_err + ledger)" and at: "ae_at L1 E e"
    and other: "\<And>a. a \<noteq> E \<Longrightarrow> L1 a = L a"
    by (rule ae_exit_at [where L = L, OF own len]) blast
  with run have L1: "L1 = L'"
    by simp
  show "ae_at L' E e"
    using at L1 by simp
  show "tok h L' k = tok h L k"
  proof (cases "k = E")
    case True
    then show ?thesis
      using tok_not_token [OF law] own ae_at_owner [OF at] L1 by metis
  next
    case False
    then show ?thesis
      using other L1 by (simp add: tok_def)
  qed
  show "others_kept E L L'"
    using other L1 by (simp add: others_kept_def ae_at_def account_holds_def)
qed

lemma close_effect:
  assumes law: "swap_law plain h" and run: "anchor_close E d L = Inr L'"
    and own: "acc_owner (L E) = ae_ID"
  shows "\<not> ae_at L' E e" and "tok h L' k = tok h L k" and "others_kept E L L'"
proof -
  have E: "acc_owner (L' E) = system_program_ID"
    using run by (auto simp: anchor_close_def Let_def res_simps same_state_def split: if_splits)
  have other: "same_state (L' a) (L a)" if "a \<noteq> E" for a
    using run that by (auto simp: anchor_close_def Let_def res_simps same_state_def split: if_splits)
  show "\<not> ae_at L' E e"
    using E ae_at_owner by force
  show "tok h L' k = tok h L k"
  proof (cases "k = E")
    case True
    then show ?thesis
      using tok_not_token [OF law] own E by metis
  next
    case False
    then show ?thesis
      using tok_same [OF law] other by blast
  qed
  show "others_kept E L L'"
    unfolding others_kept_def using other ae_at_same by blast
qed

text \<open>
  The maker's tokens pass into a new vault at the address derived with the token program given,
  and the escrow account holds the terms.
\<close>

lemma ae_make_effect:
  assumes law: "swap_law plain h" and run: "ae_make h seed deposit receive accounts L = Inr L'"
  obtains maker mint_a mint_b ata escrow vault prog token rest bump r where
    "accounts = maker # mint_a # mint_b # ata # escrow # vault # prog # token # rest"
    and "ai_is_signer maker" and "is_token_program h (ai_key token)"
    and "ai_key vault = ae_ata_address h (ai_key escrow) (ai_key mint_a) (ai_key token)"
    and "tok h L (ai_key vault) = None"
    and "ae_at L' (ai_key escrow)
      (init_escrow seed receive (ai_key maker) (ai_key mint_a) (ai_key mint_b) bump)"
    and "tok h L' (ai_key vault) =
      Some \<lparr>ta_mint = ai_key mint_a, ta_owner = ai_key escrow, ta_amount = r\<rparr>"
    and "unat r \<le> unat deposit" and "plain (ai_key mint_a) \<Longrightarrow> r = deposit"
    and "only_of h {ai_key maker} {} L L'"
    and "others_kept (ai_key escrow) L L'" and "acc_owner (L (ai_key escrow)) = system_program_ID"
proof -
  obtain maker mint_a mint_b ata escrow vault prog token system rest where
    accounts: "accounts = maker # mint_a # mint_b # ata # escrow # vault # prog # token # system # rest"
    using run by (auto simp: ae_make_def split: list.splits)
  from run obtain decimals t bump L1 L2 u L3 where signer: "ai_is_signer maker"
    and t: "ae_token h (L (ai_key ata)) = Inr t" and prog: "is_token_program h (ai_key token)"
    and L1: "ae_init_account h (ai_key maker) (ai_key escrow)
      (length ae_DISCRIMINATOR + ae_INIT_SPACE) (ae_seeds (ai_key maker) seed @ [[bump]]) L = Inr L1"
    and L2: "ae_init_ata h (ai_key maker) (ai_key vault) (ai_key mint_a) (ai_key escrow)
      (ai_key token) L1 = Inr L2"
    and owner: "associated_token h ata t (ai_key mint_a) (ai_key maker) (Some token) L2 = Inr u"
    and L3: "ae_transfer_checked h (ai_key token) (ai_key ata) (ai_key mint_a) (ai_key vault)
      (ai_key maker) deposit decimals [] L2 = Inr L3"
    and L': "ae_exit (ai_key escrow)
      (init_escrow seed receive (ai_key maker) (ai_key mint_a) (ai_key mint_b) bump) L3 =
      (Inr L' :: ae_err + ledger)"
    unfolding accounts ae_make_def list.case and_then_Inr_iff check_Inr by blast
  note c1 = new_account_call [OF law L1] and c2 = ata_call [OF law L2]
    and c3 = transfer_call [OF law L3]
  have t': "tok h L (ai_key ata) = Some t" and own: "ta_owner t = ai_key maker"
    using t owner by (auto simp: tok_def associated_token_def res_simps)
  have t1: "tok h L1 k = tok h L k" for k
    using c1 call_tok [of h "{}"] by simp
  have new: "ai_key ata \<noteq> ai_key vault"
    using c2 t' t1 by auto
  obtain r where m: "moves h (ai_key mint_a) (ai_key ata) (ai_key vault) deposit r L2 L3"
    and r: "unat r \<le> unat deposit" "plain (ai_key mint_a) \<longrightarrow> r = deposit"
    using c3 new by auto
  have calls: "call h {ai_key ata, ai_key vault} L1 L3"
    using call_trans [of h "{ai_key vault}" L1 L2 "{ai_key ata, ai_key vault}" L3] c2 c3
    by (auto simp: insert_commute)
  have own3: "acc_owner (L3 (ai_key escrow)) = ae_ID"
    using call_owner [OF calls] c1 by simp
  have "same_state (L3 (ai_key escrow)) (L1 (ai_key escrow))"
    using calls c1 foreign_change_same [of ae_ID L1 L3] by (simp add: call_def)
  then have len3: "length (acc_data (L3 (ai_key escrow))) = 1 + ae_INIT_SPACE"
    using c1 by (simp add: same_state_def ae_DISCRIMINATOR_def)
  note e = exit_effect [OF law L' own3 len3]
  have vault: "tok h L' (ai_key vault) =
      Some \<lparr>ta_mint = ai_key mint_a, ta_owner = ai_key escrow, ta_amount = r\<rparr>"
    using m c2 by (auto simp: e(2) moves_def)
  have others: "tok h L' k = tok h L k" if "k \<noteq> ai_key ata" "k \<noteq> ai_key vault" for k
    using that call_tok [OF calls] t1 by (simp add: e(2))
  have kept: "others_kept (ai_key escrow) L L'"
    using e(3) call_at [OF calls] c1 call_at [of h "{}" L L1] unfolding others_kept_def by blast
  have only: "only_of h {ai_key maker} {} L L'"
    unfolding only_of_def using others t' own c2 t1 by (metis option.distinct(1) option.inject singletonI)
  show ?thesis
    by (rule that [OF accounts signer prog _ _ e(1) vault r(1) _ only kept])
      (use c1 c2 t1 r in auto)
qed

lemma moves_bal:
  assumes "moves h m from to n r L L'"
  shows "bal h L' to = bal h L to + unat r"
  using assms by (auto simp: moves_def bal_def)

lemma transfer_keeps_owner:
  assumes law: "swap_law plain h" and run: "ae_transfer_checked h tp from m to a n d s L = Inr L'"
    and k: "tok h L k = Some x"
  obtains y where "tok h L' k = Some y" and "ta_owner y = ta_owner x"
proof -
  note c = transfer_call [OF law run]
  have "\<exists>y. tok h L' k = Some y \<and> ta_owner y = ta_owner x"
  proof (cases "k = from \<or> k = to")
    case True
    with c k show ?thesis
      by (cases "from = to") (auto simp: moves_def)
  next
    case False
    then show ?thesis
      using c k call_tok [of h "{from, to}" L L' k] by simp
  qed
  then show ?thesis
    using that by blast
qed

lemma if_needed_effect:
  assumes law: "swap_law plain h" and run: "ae_init_ata_if_needed h p k m a tp L = Inr L'"
  shows "call h {k} L L'" and "only_of h {a} {} L L'" and "bal h L' j = bal h L j"
    and "\<exists>t. tok h L' k = Some t \<and> ta_mint t = m \<and> ta_owner t = a"
    and "tok h L j = Some t \<Longrightarrow> tok h L' j = Some t"
proof -
  note c = ata_if_needed_call [OF law run]
  then show call: "call h {k} L L'"
    by blast
  show "tok h L j = Some t \<Longrightarrow> tok h L' j = Some t" for j t
    using c call_tok [OF call, of j] by (cases "j = k") auto
  then show "only_of h {a} {} L L'"
    by (simp add: only_of_def)
  show "\<exists>t. tok h L' k = Some t \<and> ta_mint t = m \<and> ta_owner t = a"
    using c by auto
  show "bal h L' j = bal h L j"
  proof (cases "j = k")
    case True
    then show ?thesis
      using c by (cases "tok h L k") (auto simp: bal_def)
  next
    case False
    then show ?thesis
      using call_tok [OF call, of j] by (simp add: bal_def)
  qed
qed

text \<open>The vault's whole balance \<open>ta_amount v\<close> leaves, and the vault is gone.\<close>

lemma empty_vault_effect:
  assumes law: "swap_law plain h"
    and run: "empty_and_close_vault h token vault v mint_a dest d escrow maker e L = Inr L'"
    and v: "tok h L (ai_key vault) = Some v" and new: "ai_key vault \<noteq> ai_key dest"
  obtains r t where "call h {ai_key vault, ai_key dest} L L'" and "tok h L' (ai_key vault) = None"
    and "bal h L' (ai_key dest) = bal h L (ai_key dest) + unat r"
    and "unat r \<le> unat (ta_amount v)" and "plain (ai_key mint_a) \<Longrightarrow> r = ta_amount v"
    and "ta_mint v = ai_key mint_a" and "tok h L (ai_key dest) = Some t" and "ta_mint t = ai_key mint_a"
proof -
  obtain L1 s where t: "ae_transfer_checked h (ai_key token) (ai_key vault) (ai_key mint_a) (ai_key dest)
      (ai_key escrow) (ta_amount v) d s L = Inr L1"
    and c: "ae_close_account h (ai_key token) (ai_key vault) (ai_key maker) (ai_key escrow) s L1 = Inr L'"
    using run unfolding empty_and_close_vault_def Let_def and_then_Inr_iff by blast
  note t = transfer_call [OF law t] and c = close_call [OF law c]
  obtain r where m: "moves h (ai_key mint_a) (ai_key vault) (ai_key dest) (ta_amount v) r L L1"
    and r: "unat r \<le> unat (ta_amount v)" "plain (ai_key mint_a) \<longrightarrow> r = ta_amount v"
    using t new by auto
  have call: "call h {ai_key vault, ai_key dest} L L'"
    using call_trans [of h "{ai_key vault, ai_key dest}" L L1 "{ai_key vault}" L'] t c
    by (simp add: insert_commute)
  have "bal h L' (ai_key dest) = bal h L1 (ai_key dest)"
    using call_tok [of h "{ai_key vault}" L1 L' "ai_key dest"] c new by (simp add: bal_def)
  then have bal: "bal h L' (ai_key dest) = bal h L (ai_key dest) + unat r"
    using moves_bal [OF m] by simp
  obtain t where "tok h L (ai_key dest) = Some t" "ta_mint t = ai_key mint_a"
    and "ta_mint v = ai_key mint_a"
    using m v by (auto simp: moves_def)
  with call c bal r show ?thesis
    using that by blast
qed

lemma vault_constraints_Inr [res_simps]:
  "vault_constraints h vault v mint_a escrow L = Inr u \<longleftrightarrow>
     ta_owner v = ai_key escrow \<and> ai_is_writable vault \<and>
     ai_key vault = ae_ata_address h (ai_key escrow) (ai_key mint_a) (default_token_program h)"
  by (auto simp: vault_constraints_def associated_token_def res_simps)

lemma escrow_constraints_Inr [res_simps]:
  "escrow_constraints h escrow e has_ones maker = Inr u \<longleftrightarrow>
     create_program_address h (ae_seeds (ai_key maker) (ae_seed e) @ [[ae_bump e]]) ae_ID =
       Some (ai_key escrow) \<and>
     ai_is_writable escrow \<and> has_ones = Inr () \<and> ai_key escrow \<noteq> ai_key maker"
  by (auto simp: escrow_constraints_def res_simps)

lemma tokI: "ae_token h (L k) = Inr t \<Longrightarrow> tok h L k = Some t"
  by (simp add: tok_def)

lemma load_owner: "ae_load L k = Inr e \<Longrightarrow> acc_owner (L k) = ae_ID"
  unfolding ae_load_def by (drule account_load_carrier [rotated]) (auto simp: carriers_def)

text \<open>\<open>refund\<close>: the maker, who signs, gets the whole vault; escrow and vault are closed.\<close>

lemma ae_refund_effect:
  assumes law: "swap_law plain h" and run: "ae_refund h accounts L = Inr L'"
  obtains maker mint_a ata escrow vault rest e v r t where
    "accounts = maker # mint_a # ata # escrow # vault # rest" and "ai_is_signer maker"
    and "ae_load L (ai_key escrow) = (Inr e :: ae_err + ae_escrow)"
    and "ae_maker e = ai_key maker" and "ae_mint_a e = ai_key mint_a"
    and "ai_key vault = ae_ata_address h (ai_key escrow) (ai_key mint_a) (default_token_program h)"
    and "tok h L (ai_key vault) = Some v" and "ta_owner v = ai_key escrow"
    and "ta_mint v = ai_key mint_a" and "tok h L' (ai_key vault) = None" and "\<And>e'. \<not> ae_at L' (ai_key escrow) e'"
    and "bal h L' (ai_key ata) = bal h L (ai_key ata) + unat r"
    and "unat r \<le> unat (ta_amount v)" and "plain (ai_key mint_a) \<Longrightarrow> r = ta_amount v"
    and "others_kept (ai_key escrow) L L'"
    and "only_of h {ai_key maker} {ai_key vault} L L'"
    and "tok h L (ai_key ata) = Some t" and "ta_owner t = ai_key maker"
proof -
  obtain maker mint_a ata escrow vault token system rest where
    accounts: "accounts = maker # mint_a # ata # escrow # vault # token # system # rest"
    using run by (auto simp: ae_refund_def split: list.splits)
  from run obtain decimals t e v u x y z L1 where signer: "ai_is_signer maker"
    and t: "ae_token h (L (ai_key ata)) = Inr t"
    and e: "ae_load L (ai_key escrow) = (Inr e :: ae_err + ae_escrow)"
    and v: "ae_token h (L (ai_key vault)) = Inr v"
    and own: "associated_token h ata t (ai_key mint_a) (ai_key maker) None L = Inr x"
    and ec: "escrow_constraints h escrow e
      (and_then (require (ae_mint_a e = ai_key mint_a) ConstraintHasOne) (\<lambda>_.
       require (ae_maker e = ai_key maker) ConstraintHasOne)) maker = Inr y"
    and vc: "vault_constraints h vault v mint_a escrow L = Inr z"
    and L1: "empty_and_close_vault h token vault v mint_a ata decimals escrow maker e L = Inr L1"
    and L': "anchor_close (ai_key escrow) (ai_key maker) L1 = (Inr L' :: ae_err + ledger)"
    unfolding accounts ae_refund_def list.case and_then_Inr_iff check_Inr by blast
  have v': "tok h L (ai_key vault) = Some v" "ta_owner v = ai_key escrow"
    and t': "tok h L (ai_key ata) = Some t" "ta_owner t = ai_key maker"
    and diff: "ai_key escrow \<noteq> ai_key maker"
    using v t vc own ec by (auto simp: tokI associated_token_def res_simps)
  then have new: "ai_key vault \<noteq> ai_key ata"
    by auto
  obtain r where call: "call h {ai_key vault, ai_key ata} L L1" and gone: "tok h L1 (ai_key vault) = None"
    and bal: "bal h L1 (ai_key ata) = bal h L (ai_key ata) + unat r"
    and r: "unat r \<le> unat (ta_amount v)" "plain (ai_key mint_a) \<Longrightarrow> r = ta_amount v"
    and v_mint: "ta_mint v = ai_key mint_a"
    by (rule empty_vault_effect [OF law L1 v'(1) new]) blast
  have own1: "acc_owner (L1 (ai_key escrow)) = ae_ID"
    using call_owner [OF call load_owner [OF e]] .
  note close = close_effect [OF law L' own1]
  have only: "only_of h {ai_key maker} {ai_key vault} L L1"
    by (rule only_ofI [OF call]) (use v' t' in auto)
  have kept: "others_kept (ai_key escrow) L L'"
    using close(3) call_at [OF call] unfolding others_kept_def by blast
  have final: "tok h L' k = tok h L1 k" "bal h L' k = bal h L1 k" "\<not> ae_at L' (ai_key escrow) e'" for k e'
    using close(1,2) by (simp_all add: bal_def)
  show ?thesis
    by (rule that [OF accounts signer e, of v r t])
      (use ec vc gone bal only r v' v_mint t' kept final in \<open>auto simp: res_simps only_of_def\<close>)
qed

text \<open>The price moves to the maker before the vault \<open>K\<close> is emptied into the taker's account.\<close>

lemma take_payments:
  assumes law: "swap_law plain h"
    and tr: "ae_transfer_checked h p tb b mb taker n d ss L2 = Inr L3"
    and move: "tb \<noteq> mb \<Longrightarrow> moves h b tb mb n s L2 L3"
    and c4: "call h {K, ta} L3 L4" and bal4: "bal h L4 ta = bal h L3 ta + unat r" and "K \<noteq> mb"
    and ta: "tok h L2 ta = Some t" "ta_owner t = taker" "ta_mint t = a"
    and tb: "tok h L2 tb = Some x" "ta_owner x = taker"
    and mb: "tok h L2 mb = Some m" "ta_owner m = maker" "ta_mint m = b"
    and ne: "taker \<noteq> maker"
  shows "bal h L4 mb = bal h L2 mb + unat s"
    and "\<exists>y. tok h L4 mb = Some y \<and> ta_owner y = maker \<and> ta_mint y = b"
    and "a \<noteq> b \<Longrightarrow> bal h L4 ta = bal h L2 ta + unat r"
proof -
  have apart: "tb \<noteq> mb" "ta \<noteq> mb"
    using ne ta(1,2) tb mb by auto
  note mv = move [OF apart(1)]
  have same: "tok h L4 mb = tok h L3 mb"
    using call_tok [OF c4, of mb] apart(2) assms(6) by auto
  then show "bal h L4 mb = bal h L2 mb + unat s"
    using moves_bal [OF mv] by (simp add: bal_def)
  show "\<exists>y. tok h L4 mb = Some y \<and> ta_owner y = maker \<and> ta_mint y = b"
    using mv mb same by (auto simp: moves_def)
  show "bal h L4 ta = bal h L2 ta + unat r" if "a \<noteq> b"
  proof -
    have "ta \<noteq> tb"
      using mv ta that by (auto simp: moves_def)
    then have "bal h L3 ta = bal h L2 ta"
      using call_tok [of h "{tb, mb}" L2 L3] transfer_call [OF law tr] apart(2) by (simp add: bal_def)
    then show ?thesis
      using bal4 by simp
  qed
qed

text \<open>
  \<open>take\<close>: the taker, who signs, gets the whole vault and the maker the price; escrow and vault
  are closed.
\<close>

lemma ae_take_effect:
  assumes law: "swap_law plain h" and run: "ae_take h accounts L = Inr L'"
    and user: "\<And>a. a \<in> set accounts \<Longrightarrow> ai_is_signer a \<Longrightarrow> acc_owner (L (ai_key a)) \<noteq> ae_ID"
  obtains taker maker mint_a mint_b ta tb mb escrow vault rest e v r s where
    "accounts = taker # maker # mint_a # mint_b # ta # tb # mb # escrow # vault # rest"
    and "ai_is_signer taker" and "ae_load L (ai_key escrow) = (Inr e :: ae_err + ae_escrow)"
    and "ae_maker e = ai_key maker" and "ae_mint_a e = ai_key mint_a" and "ae_mint_b e = ai_key mint_b"
    and "ai_key vault = ae_ata_address h (ai_key escrow) (ai_key mint_a) (default_token_program h)"
    and "tok h L (ai_key vault) = Some v" and "ta_owner v = ai_key escrow"
    and "ta_mint v = ai_key mint_a" and "tok h L' (ai_key vault) = None" and "\<And>e'. \<not> ae_at L' (ai_key escrow) e'"
    and "ai_key taker \<noteq> ai_key maker \<Longrightarrow> bal h L' (ai_key mb) = bal h L (ai_key mb) + unat s"
    and "unat s \<le> unat (ae_receive e)" and "plain (ai_key mint_b) \<Longrightarrow> s = ae_receive e"
    and "ai_key mint_a \<noteq> ai_key mint_b \<Longrightarrow> ai_key taker \<noteq> ai_key maker \<Longrightarrow>
      bal h L' (ai_key ta) = bal h L (ai_key ta) + unat r"
    and "unat r \<le> unat (ta_amount v)" and "plain (ai_key mint_a) \<Longrightarrow> r = ta_amount v"
    and "others_kept (ai_key escrow) L L'"
    and "only_of h {ai_key taker, ai_key maker} {ai_key vault} L L'"
    and "acc_owner (L (ai_key maker)) = system_program_ID"
    and "ai_key taker \<noteq> ai_key maker \<Longrightarrow>
      \<exists>t. tok h L' (ai_key mb) = Some t \<and> ta_owner t = ai_key maker \<and> ta_mint t = ai_key mint_b"
proof -
  obtain taker maker mint_a mint_b ta tb mb escrow vault prog token system rest where
    accounts: "accounts = taker # maker # mint_a # mint_b # ta # tb # mb # escrow # vault # prog # token #
      system # rest"
    using run by (auto simp: ae_take_def split: list.splits)
  from run obtain da db b e v L1 L2 x y z L3 L4 u where signer: "ai_is_signer taker"
    and maker: "system_account maker L = Inr u"
    and b: "ae_token h (L (ai_key tb)) = Inr b"
    and e: "ae_load L (ai_key escrow) = (Inr e :: ae_err + ae_escrow)"
    and v: "ae_token h (L (ai_key vault)) = Inr v"
    and L1: "ae_init_ata_if_needed h (ai_key taker) (ai_key ta) (ai_key mint_a) (ai_key taker)
      (ai_key token) L = Inr L1"
    and L2: "ae_init_ata_if_needed h (ai_key taker) (ai_key mb) (ai_key mint_b) (ai_key maker)
      (ai_key token) L1 = Inr L2"
    and own: "associated_token h tb b (ai_key mint_b) (ai_key taker) None L2 = Inr x"
    and ec: "escrow_constraints h escrow e
      (and_then (require (ae_maker e = ai_key maker) ConstraintHasOne) (\<lambda>_.
       and_then (require (ae_mint_a e = ai_key mint_a) ConstraintHasOne) (\<lambda>_.
       require (ae_mint_b e = ai_key mint_b) ConstraintHasOne))) maker = Inr y"
    and vc: "vault_constraints h vault v mint_a escrow L2 = Inr z"
    and L3: "ae_transfer_checked h (ai_key token) (ai_key tb) (ai_key mint_b) (ai_key mb)
      (ai_key taker) (ae_receive e) db [] L2 = Inr L3"
    and L4: "empty_and_close_vault h token vault v mint_a ta da escrow maker e L3 = Inr L4"
    and L': "anchor_close (ai_key escrow) (ai_key maker) L4 = (Inr L' :: ae_err + ledger)"
    unfolding accounts ae_take_def list.case and_then_Inr_iff check_Inr by blast
  note i1 = if_needed_effect [OF law L1] and i2 = if_needed_effect [OF law L2]
  obtain t where ta: "tok h L1 (ai_key ta) = Some t" "ta_mint t = ai_key mint_a" "ta_owner t = ai_key taker"
    using i1(4) by blast
  obtain m where mb: "tok h L2 (ai_key mb) = Some m" "ta_mint m = ai_key mint_b" "ta_owner m = ai_key maker"
    using i2(4) by blast
  have ta2: "tok h L2 (ai_key ta) = Some t"
    using i2(5) ta(1) by blast
  have v2: "tok h L2 (ai_key vault) = Some v" and v_own: "ta_owner v = ai_key escrow"
    and tb2: "tok h L2 (ai_key tb) = Some b" and tb_own: "ta_owner b = ai_key taker"
    and diff: "ai_key escrow \<noteq> ai_key maker"
    using tokI [where L = L, OF v] tokI [where L = L, OF b] i1(5) i2(5) own vc ec by (auto simp: associated_token_def res_simps)
  have pda: "ai_key escrow \<noteq> ai_key taker"
    using user [of taker] signer load_owner [OF e] by (auto simp: accounts)
  have new: "ai_key vault \<noteq> ai_key ta" "ai_key vault \<noteq> ai_key tb" "ai_key vault \<noteq> ai_key mb"
    using ta2 v2 tb2 mb v_own tb_own ta diff pda by auto
  note t3 = transfer_call [OF law L3]
  have v3: "tok h L3 (ai_key vault) = Some v"
    using call_tok [of h _ L2 L3 "ai_key vault"] t3 new v2 by auto
  obtain r where c4: "call h {ai_key vault, ai_key ta} L3 L4" and gone: "tok h L4 (ai_key vault) = None"
    and bal4: "bal h L4 (ai_key ta) = bal h L3 (ai_key ta) + unat r"
    and r: "unat r \<le> unat (ta_amount v)" "plain (ai_key mint_a) \<Longrightarrow> r = ta_amount v"
    and v_mint: "ta_mint v = ai_key mint_a"
    by (rule empty_vault_effect [OF law L4 v3 new(1)]) blast
  have "call h {ai_key ta, ai_key mb} L L2"
    using call_trans [OF i1(1) i2(1)] by (simp add: insert_commute)
  with t3 have "call h ({ai_key ta, ai_key mb} \<union> {ai_key tb, ai_key mb}) L L3"
    using call_trans by blast
  with c4 have c: "call h ({ai_key ta, ai_key mb} \<union> {ai_key tb, ai_key mb} \<union> {ai_key vault, ai_key ta}) L L4"
    using call_trans by blast
  have own4: "acc_owner (L4 (ai_key escrow)) = ae_ID"
    using call_owner [OF c load_owner [OF e]] .
  note close = close_effect [OF law L' own4]
  have kept: "others_kept (ai_key escrow) L L'"
    using close(3) call_at [OF c] unfolding others_kept_def by blast
  obtain s where move: "ai_key tb \<noteq> ai_key mb \<Longrightarrow>
      moves h (ai_key mint_b) (ai_key tb) (ai_key mb) (ae_receive e) s L2 L3"
    and s: "unat s \<le> unat (ae_receive e)" "plain (ai_key mint_b) \<Longrightarrow> s = ae_receive e"
    using t3 by (cases "ai_key tb = ai_key mb") auto
  obtain t3' where "tok h L3 (ai_key ta) = Some t3'" "ta_owner t3' = ai_key taker"
    using transfer_keeps_owner [OF law L3 ta2] ta(3) by metis
  then have "only_of h {ai_key taker} {ai_key vault} L3 L4"
    by (intro only_ofI [OF c4]) auto
  moreover have "only_of h {ai_key taker, ai_key maker} {} L2 L3"
    using t3 tb2 tb_own mb by (intro only_ofI [of h "{ai_key tb, ai_key mb}"]) auto
  ultimately have "only_of h {ai_key taker, ai_key maker} {ai_key vault} L L4"
    using i1(2) i2(2) by (auto simp: only_of_def)
  then have only: "only_of h {ai_key taker, ai_key maker} {ai_key vault} L L'"
    using close(2) by (simp add: only_of_def)
  have start: "bal h L2 k = bal h L k" for k
    using i1(3) i2(3) by simp
  have final: "bal h L' k = bal h L4 k" "tok h L' k = tok h L4 k" "\<not> ae_at L' (ai_key escrow) e'"
    for k e'
    using close(1,2) by (simp_all add: bal_def)
  note paid = take_payments [OF law L3 move c4 bal4 new(3) ta2 ta(3,2) tb2 tb_own mb(1,3,2),
      folded final(1,2), unfolded start]
  show ?thesis
    by (rule that [OF accounts signer e, of v s r])
      (use ec vc gone r s v v_own v_mint kept only paid final maker
        in \<open>auto simp: res_simps tokI system_account_def\<close>)
qed

end
