(* ===== verification/Anchor_Escrow_Runs.thy ===== *)
theory Anchor_Escrow_Runs
  imports Anchor_Escrow_Steps
begin

text \<open>
  The life of one offer: from \<open>make\<close>, through any instructions of the program by anybody and
  whatever other programs do, until a \<open>take\<close> or \<open>refund\<close> names it.
\<close>

section \<open>An open offer\<close>

text \<open>
  The escrow at \<open>E\<close> holds the terms \<open>e\<close>, and its vault, at the address derived with the
  token program \<open>tp\<close>, at least \<open>n\<close> tokens.
\<close>

definition ae_vault :: "ae_host \<Rightarrow> address \<Rightarrow> ae_escrow \<Rightarrow> address \<Rightarrow> address" where
  "ae_vault h E e tp = ae_ata_address h E (ae_mint_a e) tp"

definition vault_holds :: "ae_host \<Rightarrow> address \<Rightarrow> ae_escrow \<Rightarrow> nat \<Rightarrow> address \<Rightarrow> ledger \<Rightarrow> bool" where
  "vault_holds h E e n tp L \<longleftrightarrow>
     (\<exists>t. tok h L (ae_vault h E e tp) = Some t \<and> ta_mint t = ae_mint_a e \<and> ta_owner t = E \<and>
        n \<le> unat (ta_amount t))"

definition ae_open :: "ae_host \<Rightarrow> address \<Rightarrow> ae_escrow \<Rightarrow> nat \<Rightarrow> address \<Rightarrow> ledger \<Rightarrow> bool" where
  "ae_open h E e n tp L \<longleftrightarrow> ae_at L E e \<and> vault_holds h E e n tp L"

text \<open>Signers are users: no account of the program signs a transaction.\<close>

definition users :: "account_info list \<Rightarrow> ledger \<Rightarrow> bool" where
  "users accounts L \<longleftrightarrow>
     (\<forall>a\<in>set accounts. ai_is_signer a \<longrightarrow> acc_owner (L (ai_key a)) \<noteq> ae_ID)"

text \<open>The escrow a take or a refund is about.\<close>

fun settles :: "ae_instruction \<Rightarrow> account_info list \<Rightarrow> address option" where
  "settles Take_Escrow accounts = Some (ai_key (accounts ! 7))"
| "settles Refund_Escrow accounts = Some (ai_key (accounts ! 3))"
| "settles _ accounts = None"

text \<open>
  What happens outside the program: escrow accounts are the program's, and the vault is only
  debited with the signature of its owner, an address of the program.
\<close>

definition foreign_to_offer ::
  "ae_host \<Rightarrow> address \<Rightarrow> ledger \<Rightarrow> ledger \<Rightarrow> bool" where
  "foreign_to_offer h V L L' \<longleftrightarrow>
     foreign_change ae_ID L L' \<and>
     (\<forall>t. tok h L V = Some t \<longrightarrow>
        (\<exists>t'. tok h L' V = Some t' \<and> ta_mint t' = ta_mint t \<and> ta_owner t' = ta_owner t \<and>
           unat (ta_amount t) \<le> unat (ta_amount t')))"

inductive offer_run ::
  "(address \<Rightarrow> bool) \<Rightarrow> ae_host \<Rightarrow> address \<Rightarrow> ae_escrow \<Rightarrow> nat \<Rightarrow> address \<Rightarrow> ledger \<Rightarrow> bool"
  for plain :: "address \<Rightarrow> bool" and h :: ae_host and E :: address and e :: ae_escrow and n :: nat
    and tp :: address where
  made: "ae_make h seed deposit receive accounts L = Inr L' \<Longrightarrow> plain (ai_key (accounts ! 1)) \<Longrightarrow>
    e = init_escrow seed receive (ai_key (accounts ! 0)) (ai_key (accounts ! 1)) (ai_key (accounts ! 2))
      bump \<Longrightarrow>
    ai_key (accounts ! 4) = E \<Longrightarrow> ae_at L' E e \<Longrightarrow> n = unat deposit \<Longrightarrow> tp = ai_key (accounts ! 7) \<Longrightarrow>
    offer_run plain h E e n tp L'"
| instruction: "offer_run plain h E e n tp L \<Longrightarrow> users accounts L \<Longrightarrow>
    anchor_escrow_q2_2026 h i accounts L = Inr L' \<Longrightarrow> settles i accounts \<noteq> Some E \<Longrightarrow>
    offer_run plain h E e n tp L'"
| other: "offer_run plain h E e n tp L \<Longrightarrow> foreign_to_offer h (ae_vault h E e tp) L L' \<Longrightarrow>
    offer_run plain h E e n tp L'"

section \<open>It stays open\<close>

lemma vault_holds_only:
  assumes "only_of h U K L L'" and "vault_holds h E e n tp L" and "E \<notin> U" and "ae_vault h E e tp \<notin> K"
  shows "vault_holds h E e n tp L'"
  using assms by (auto simp: only_of_def vault_holds_def)

lemma other_vault:
  assumes v: "vault_holds h E e n tp L" and k: "tok h L k = Some v" "ta_owner v = E'" "ta_mint v = m"
      "k = ae_ata_address h E' m (default_token_program h)"
    and other: "E' \<noteq> E \<or> ae_vault h E e tp \<noteq> ae_vault h E e (default_token_program h)"
  shows "ae_vault h E e tp \<notin> {k}"
proof
  assume "ae_vault h E e tp \<in> {k}"
  then have "E' = E" and "m = ae_mint_a e"
    using v k(1-3) by (auto simp: vault_holds_def)
  then show False
    using other k(4) \<open>ae_vault h E e tp \<in> {k}\<close> by (simp add: ae_vault_def)
qed

lemma instruction_keeps_vault:
  assumes law: "swap_law plain h" and users: "users accounts L"
    and run: "anchor_escrow_q2_2026 h i accounts L = Inr L'"
    and own: "acc_owner (L E) = ae_ID" and v: "vault_holds h E e n tp L"
    and other: "settles i accounts \<noteq> Some E \<or>
      ae_vault h E e tp \<noteq> ae_vault h E e (default_token_program h)"
  shows "vault_holds h E e n tp L'"
proof -
  have user: "ai_key a \<noteq> E" if "a \<in> set accounts" "ai_is_signer a" for a
    using users own that unfolding users_def by blast
  show ?thesis
  proof (cases i)
    case (Make_Escrow seed deposit receive)
    then have run: "ae_make h seed deposit receive accounts L = Inr L'"
      using run by simp
    show ?thesis
    proof (rule ae_make_effect [OF law run], goal_cases)
      case (1 maker mint_a mint_b ata escrow vault prog token rest bump r)
      then show ?thesis
        using user [of maker] by (intro vault_holds_only [OF 1(10) v]) auto
    qed
  next
    case Take_Escrow
    then have run: "ae_take h accounts L = Inr L'"
      using run by simp
    have signers: "\<And>a. a \<in> set accounts \<Longrightarrow> ai_is_signer a \<Longrightarrow> acc_owner (L (ai_key a)) \<noteq> ae_ID"
      using users unfolding users_def by blast
    show ?thesis
    proof (rule ae_take_effect [OF law run signers], goal_cases)
      case (3 taker maker mint_a mint_b ta tb mb escrow vault rest e' v' r s)
      have "settles i accounts = Some (ai_key escrow)"
        using Take_Escrow 3(1) by simp
      then have "ae_vault h E e tp \<notin> {ai_key vault}"
        using other by (intro other_vault [OF v 3(8,9,10,7)]) auto
      then show ?thesis
        using user [of taker] 3(1,2) own 3(21)
        by (intro vault_holds_only [OF 3(20) v]) (auto simp: system_program_ID_def ae_ID_def)
    qed simp_all
  next
    case Refund_Escrow
    then have run: "ae_refund h accounts L = Inr L'"
      using run by simp
    show ?thesis
    proof (rule ae_refund_effect [OF law run], goal_cases)
      case (1 maker mint_a ata escrow vault rest e' v' r t)
      have "settles i accounts = Some (ai_key escrow)"
        using Refund_Escrow 1(1) by simp
      then have "ae_vault h E e tp \<notin> {ai_key vault}"
        using other by (intro other_vault [OF v 1(7,8,9,6)]) auto
      then show ?thesis
        using user [of maker] 1(1,2) by (intro vault_holds_only [OF 1(16) v]) auto
    qed
  qed
qed

lemma instruction_keeps_escrow:
  assumes law: "swap_law plain h" and users: "users accounts L"
    and run: "anchor_escrow_q2_2026 h i accounts L = Inr L'"
    and at: "ae_at L E e" and other: "settles i accounts \<noteq> Some E"
  shows "ae_at L' E e"
proof (cases i)
  case (Make_Escrow seed deposit receive)
  then have run: "ae_make h seed deposit receive accounts L = Inr L'"
    using run by simp
  show ?thesis
  proof (rule ae_make_effect [OF law run], goal_cases)
    case (1 maker mint_a mint_b ata escrow vault prog token rest bump r)
    then have "E \<noteq> ai_key escrow"
      using ae_at_owner [OF at] by (auto simp: system_program_ID_def ae_ID_def)
    then show ?thesis
      using 1(11) at unfolding others_kept_def by blast
  qed
next
  case Take_Escrow
  then have run: "ae_take h accounts L = Inr L'"
    using run by simp
  have signers: "\<And>a. a \<in> set accounts \<Longrightarrow> ai_is_signer a \<Longrightarrow> acc_owner (L (ai_key a)) \<noteq> ae_ID"
    using users unfolding users_def by blast
  show ?thesis
  proof (rule ae_take_effect [OF law run signers], goal_cases)
    case (3 taker maker mint_a mint_b ta tb mb escrow vault rest e' v' r s)
    then have "E \<noteq> ai_key escrow"
      using other Take_Escrow by auto
    then show ?thesis
      using 3(19) at unfolding others_kept_def by blast
  qed simp_all
next
  case Refund_Escrow
  then have run: "ae_refund h accounts L = Inr L'"
    using run by simp
  show ?thesis
  proof (rule ae_refund_effect [OF law run], goal_cases)
    case (1 maker mint_a ata escrow vault rest e' v' r t)
    then have "E \<noteq> ai_key escrow"
      using other Refund_Escrow by auto
    then show ?thesis
      using 1(15) at unfolding others_kept_def by blast
  qed
qed

lemma offer_run_open:
  assumes law: "swap_law plain h" and "offer_run plain h E e n tp L"
  shows "ae_open h E e n tp L \<and> plain (ae_mint_a e)"
  using assms(2)
proof induction
  case (made seed deposit receive accounts L L' bump)
  show ?case
  proof (rule ae_make_effect [OF law made(1)], goal_cases)
    case (1 maker mint_a mint_b ata escrow vault prog token rest bump' r)
    then show ?thesis
      using made(2-) by (auto simp: ae_open_def vault_holds_def ae_vault_def init_escrow_def)
  qed
next
  case (instruction L accounts i L')
  then have o: "ae_at L E e" "vault_holds h E e n tp L" "plain (ae_mint_a e)"
    by (auto simp: ae_open_def)
  have "ae_at L' E e"
    by (rule instruction_keeps_escrow [OF law instruction(2,3) o(1) instruction(4)])
  moreover have "vault_holds h E e n tp L'"
    using instruction(4)
    by (intro instruction_keeps_vault [OF law instruction(2,3) ae_at_owner [OF o(1)] o(2)]) simp
  ultimately show ?case
    using o(3) by (simp add: ae_open_def)
next
  case (other L L')
  then have o: "ae_at L E e" "vault_holds h E e n tp L"
    by (auto simp: ae_open_def)
  have "ae_at L' E e"
    using other(2) o(1) ae_at_foreign unfolding foreign_to_offer_def by blast
  moreover have "vault_holds h E e n tp L'"
    using other(2) o(2) unfolding foreign_to_offer_def vault_holds_def by fastforce
  ultimately show ?case
    using other(3) by (simp add: ae_open_def)
qed

end
