(* ===== verification/Anchor_Escrow_Theorems.thy ===== *)
theory Anchor_Escrow_Theorems
  imports Anchor_Escrow_Runs
begin

text \<open>
  The properties of the Anchor escrow, and a small host on which they are applied: two token
  programs, 7 (the default) and 17, the maker 10, the taker 50, the mints 21 and 22, and escrows
  from 1000 on, by seed.
\<close>

section \<open>A host\<close>

definition ae_demo_token :: "address \<Rightarrow> address \<Rightarrow> address \<Rightarrow> u64 \<Rightarrow> account" where
  "ae_demo_token p mint own n =
     \<lparr>acc_lamports = 1, acc_owner = p,
      acc_data = address_bytes mint @ address_bytes own @ to_le_bytes 8 n\<rparr>"

definition ae_demo_parse :: "account \<Rightarrow> ae_err + token_account" where
  "ae_demo_parse a =
     (if (acc_owner a = 7 \<or> acc_owner a = 17) \<and> length (acc_data a) = 72 then
        Inr \<lparr>ta_mint = from_le_bytes (slice 0 32 (acc_data a)),
             ta_owner = from_le_bytes (slice 32 32 (acc_data a)),
             ta_amount = from_le_bytes (slice 64 8 (acc_data a))\<rparr>
      else Inl AccountDidNotDeserialize)"

definition ae_demo_ata :: "address \<Rightarrow> address \<Rightarrow> address \<Rightarrow> address" where
  "ae_demo_ata a m tp = a * 10000 + m * 100 + tp"

definition ae_demo_pda :: "u8 list list \<Rightarrow> address" where
  "ae_demo_pda seeds = 1000 + ucast (hd (seeds ! 2))"

definition ae_demo_new :: "bool \<Rightarrow> address \<Rightarrow> account \<Rightarrow> ledger \<Rightarrow> ae_err + ledger" where
  "ae_demo_new ok k a L =
     (if ok \<and> acc_owner (L k) = system_program_ID \<and> acc_data (L k) = [] then Inr (L(k := a))
      else Inl (Called_Program_Error 1))"

definition ae_demo_transfer :: "address \<Rightarrow> address \<Rightarrow> address \<Rightarrow> u64 \<Rightarrow> ledger \<Rightarrow> ae_err + ledger" where
  "ae_demo_transfer from m to n L =
     and_then (ae_demo_parse (L from)) (\<lambda>f.
     and_then (ae_demo_parse (L to)) (\<lambda>t.
     if ta_mint f \<noteq> m \<or> ta_mint t \<noteq> m \<or> ta_amount f < n \<or>
       2 ^ 64 \<le> unat (ta_amount t) + unat n then Inl (Called_Program_Error 2)
     else if from = to then Inr L
     else Inr (L(from := ae_demo_token (acc_owner (L from)) m (ta_owner f) (ta_amount f - n),
                 to := ae_demo_token (acc_owner (L to)) m (ta_owner t) (ta_amount t + n)))))"

definition ae_demo_host :: ae_host where
  "ae_demo_host =
     \<lparr>create_program_address = (\<lambda>seeds p. Some (ae_demo_pda seeds)),
      find_program_address = (\<lambda>seeds p. (ae_demo_pda seeds, 255)),
      is_executable = (\<lambda>_. True),
      is_token_program = (\<lambda>p. p = 7 \<or> p = 17),
      associated_token_ID = 8,
      ae_token = ae_demo_parse,
      ae_mint = (\<lambda>a. if acc_data a = [6] then Inr 6 else Inl AccountDidNotDeserialize),
      ae_ata_address = ae_demo_ata,
      default_token_program = 7,
      ae_init_account = (\<lambda>p k n s.
        ae_demo_new True k \<lparr>acc_lamports = 1, acc_owner = ae_ID, acc_data = replicate n 0\<rparr>),
      ae_init_ata = (\<lambda>p k m a tp.
        ae_demo_new ((tp = 7 \<or> tp = 17) \<and> k = ae_demo_ata a m tp) k (ae_demo_token tp m a 0)),
      ae_init_ata_if_needed = (\<lambda>p k m a tp L.
        case ae_demo_parse (L k) of
          Inl _ \<Rightarrow> ae_demo_new ((tp = 7 \<or> tp = 17) \<and> k = ae_demo_ata a m tp) k (ae_demo_token tp m a 0) L
        | Inr t \<Rightarrow>
            if k = ae_demo_ata a m tp \<and> ta_mint t = m \<and> ta_owner t = a then Inr L
            else Inl ConstraintTokenOwner),
      ae_transfer_checked = (\<lambda>tp from m to a n d s. ae_demo_transfer from m to n),
      ae_close_account = (\<lambda>tp k d a s L.
        and_then (ae_demo_parse (L k)) (\<lambda>_. Inr (L(k := closed_account))))\<rparr>"

lemma ae_demo_parse_token [simp]:
  "p = 7 \<or> p = 17 \<Longrightarrow> ae_demo_parse (ae_demo_token p m a n) =
     Inr \<lparr>ta_mint = m, ta_owner = a, ta_amount = n\<rparr>"
  by (simp add: ae_demo_parse_def ae_demo_token_def slice_simps address_bytes_def codec_simps)

lemma ae_demo_owners [simp]:
  "(7 :: address) \<noteq> ae_ID" "(17 :: address) \<noteq> ae_ID" "(7 :: address) \<noteq> system_program_ID"
  "(17 :: address) \<noteq> system_program_ID" "ae_ID \<noteq> 7" "ae_ID \<noteq> 17"
  "system_program_ID \<noteq> 7" "system_program_ID \<noteq> 17"
  by (simp_all add: ae_ID_def system_program_ID_def)

lemma ae_demo_ata_address [simp]: "ae_ata_address ae_demo_host = ae_demo_ata"
  by (simp add: ae_demo_host_def)

lemma token_account_update:
  "ta_mint t = m \<Longrightarrow> \<lparr>ta_mint = m, ta_owner = ta_owner t, ta_amount = n\<rparr> = t\<lparr>ta_amount := n\<rparr>"
  by (cases t) simp

lemma ae_demo_parse_owner:
  "ae_demo_parse a = Inr t \<Longrightarrow> acc_owner a = 7 \<or> acc_owner a = 17"
  by (simp add: ae_demo_parse_def split: if_splits)

lemma ae_demo_tok: "tok ae_demo_host L k = (case ae_demo_parse (L k) of Inl e \<Rightarrow> None | Inr t \<Rightarrow> Some t)"
  by (simp add: tok_def ae_demo_host_def)

lemma ae_demo_parse_closed [simp]: "acc_owner a = system_program_ID \<Longrightarrow> \<exists>e. ae_demo_parse a = Inl e"
  by (auto simp: ae_demo_parse_def system_program_ID_def)

text \<open>A change of accounts that are not, and do not become, accounts of the program.\<close>

lemma ae_demo_call:
  assumes "\<And>k. k \<in> D \<Longrightarrow> acc_owner (L k) \<noteq> ae_ID \<and> acc_owner (L' k) \<noteq> ae_ID"
    and "\<And>k. k \<notin> D \<Longrightarrow> L' k = L k"
  shows "call ae_demo_host D L L'"
  unfolding call_def
proof
  show "foreign_change ae_ID L L'"
    unfolding foreign_change_def
  proof (intro allI)
    fix a
    show "if acc_owner (L a) = ae_ID then same_state (L' a) (L a)
      else acc_owner (L' a) = ae_ID \<longrightarrow> (\<exists>n. acc_data (L' a) = replicate n 0)"
      using assms [of a] by (cases "a \<in> D") (auto simp: same_state_def)
  qed
  show "\<forall>k. k \<notin> D \<longrightarrow> tok ae_demo_host L' k = tok ae_demo_host L k"
    using assms(2) by (simp add: tok_def)
qed

lemma ae_demo_new_token:
  assumes "ae_demo_new ok k (ae_demo_token tp m a 0) L = Inr L'" and "ok \<Longrightarrow> tp = 7 \<or> tp = 17"
  shows "ok" and "call ae_demo_host {k} L L'" and "tok ae_demo_host L k = None"
    and "tok ae_demo_host L' k = Some \<lparr>ta_mint = m, ta_owner = a, ta_amount = 0\<rparr>"
proof -
  from assms show "ok"
    by (simp add: ae_demo_new_def split: if_splits)
  with assms have new: "acc_owner (L k) = system_program_ID" and tp: "tp = 7 \<or> tp = 17"
    and L': "L' = L(k := ae_demo_token tp m a 0)"
    by (auto simp: ae_demo_new_def split: if_splits)
  show "call ae_demo_host {k} L L'"
    using new tp by (intro ae_demo_call) (auto simp: L' ae_demo_token_def)
  show "tok ae_demo_host L k = None"
    using ae_demo_parse_closed [OF new] by (auto simp: ae_demo_tok)
  show "tok ae_demo_host L' k = Some \<lparr>ta_mint = m, ta_owner = a, ta_amount = 0\<rparr>"
    using tp by (simp add: ae_demo_tok L')
qed

lemma ae_demo_parse_law: "parse_law ae_demo_host"
  unfolding parse_law_def
  by (auto simp: ae_demo_host_def ae_demo_parse_def same_state_def split: if_splits)

lemma ae_demo_init_law: "new_account_law ae_demo_host"
  unfolding new_account_law_def
proof (intro allI impI)
  fix p k n s L L'
  assume "ae_init_account ae_demo_host p k n s L = Inr L'"
  then have new: "acc_owner (L k) = system_program_ID" "acc_data (L k) = []"
    and L': "L' = L(k := \<lparr>acc_lamports = 1, acc_owner = ae_ID, acc_data = replicate n 0\<rparr>)"
    by (auto simp: ae_demo_host_def ae_demo_new_def split: if_splits)
  have "foreign_change ae_ID L L'"
    using new by (auto simp: foreign_change_def L' same_state_def)
  moreover have "tok ae_demo_host L' j = tok ae_demo_host L j" for j
    using new by (auto simp: ae_demo_tok L' ae_demo_parse_def system_program_ID_def)
  ultimately show "call ae_demo_host {} L L' \<and> acc_owner (L k) = system_program_ID \<and>
      acc_owner (L' k) = ae_ID \<and> acc_data (L' k) = replicate n 0"
    using new by (simp add: call_def L')
qed

lemma ae_demo_if_needed:
  assumes "ae_init_ata_if_needed ae_demo_host p k m a tp L = Inr L'"
  shows "call ae_demo_host {k} L L' \<and> k = ae_ata_address ae_demo_host a m tp \<and>
    (tok ae_demo_host L k \<noteq> None \<longrightarrow> tok ae_demo_host L' k = tok ae_demo_host L k) \<and>
    (\<exists>n. tok ae_demo_host L' k = Some \<lparr>ta_mint = m, ta_owner = a, ta_amount = n\<rparr> \<and>
       (tok ae_demo_host L k = None \<longrightarrow> n = 0))"
proof (cases "ae_demo_parse (L k)")
  case (Inl e)
  then have "ae_demo_new ((tp = 7 \<or> tp = 17) \<and> k = ae_demo_ata a m tp) k (ae_demo_token tp m a 0) L =
      Inr L'"
    using assms by (simp add: ae_demo_host_def)
  note new = ae_demo_new_token [OF this]
  then show ?thesis
    by auto
next
  case (Inr t)
  then have "L' = L" and "k = ae_demo_ata a m tp" and "t = \<lparr>ta_mint = m, ta_owner = a, ta_amount = ta_amount t\<rparr>"
    using assms by (auto simp: ae_demo_host_def split: if_splits)
  moreover have "call ae_demo_host {k} L L"
    by (simp add: call_def foreign_change_def same_state_def)
  ultimately show ?thesis
    using Inr by (simp add: ae_demo_tok) (metis (no_types))
qed

lemma ae_demo_ata_law: "ata_law ae_demo_host"
  unfolding ata_law_def
proof (intro conjI allI impI)
  fix p k m a tp L L'
  assume "ae_init_ata ae_demo_host p k m a tp L = Inr L'"
  then have "ae_demo_new ((tp = 7 \<or> tp = 17) \<and> k = ae_demo_ata a m tp) k (ae_demo_token tp m a 0) L =
      Inr L'"
    by (simp add: ae_demo_host_def)
  note new = ae_demo_new_token [OF this]
  show "call ae_demo_host {k} L L'" and "k = ae_ata_address ae_demo_host a m tp"
    and "tok ae_demo_host L k = None"
    and "tok ae_demo_host L' k = Some \<lparr>ta_mint = m, ta_owner = a, ta_amount = 0\<rparr>"
    using new by (auto simp: ae_demo_host_def)
qed (use ae_demo_if_needed in blast)+

lemma ae_demo_transfer_effect:
  assumes "ae_demo_transfer from m to n L = Inr L'"
  shows "call ae_demo_host {from, to} L L'"
    and "if from = to then tok ae_demo_host L' to = tok ae_demo_host L to
      else moves ae_demo_host m from to n n L L'"
proof -
  obtain f t where f: "ae_demo_parse (L from) = Inr f" and t: "ae_demo_parse (L to) = Inr t"
    and r: "(if ta_mint f \<noteq> m \<or> ta_mint t \<noteq> m \<or> ta_amount f < n \<or>
        2 ^ 64 \<le> unat (ta_amount t) + unat n then Inl (Called_Program_Error 2)
      else if from = to then Inr L
      else Inr (L(from := ae_demo_token (acc_owner (L from)) m (ta_owner f) (ta_amount f - n),
                  to := ae_demo_token (acc_owner (L to)) m (ta_owner t) (ta_amount t + n)))) =
      (Inr L' :: ae_err + ledger)"
    using assms unfolding ae_demo_transfer_def and_then_Inr_iff by blast
  from r have ok: "ta_mint f = m" "ta_mint t = m" "\<not> ta_amount f < n"
      "\<not> 2 ^ 64 \<le> unat (ta_amount t) + unat n"
    unfolding if_Inl_Inr_iff by blast+
  from r have "(if from = to then Inr L
      else Inr (L(from := ae_demo_token (acc_owner (L from)) m (ta_owner f) (ta_amount f - n),
                  to := ae_demo_token (acc_owner (L to)) m (ta_owner t) (ta_amount t + n)))) =
      (Inr L' :: ae_err + ledger)"
    unfolding if_Inl_Inr_iff by blast
  then have L': "L' = (if from = to then L else
      L(from := ae_demo_token (acc_owner (L from)) m (ta_owner f) (ta_amount f - n),
        to := ae_demo_token (acc_owner (L to)) m (ta_owner t) (ta_amount t + n)))"
    by (simp split: if_splits)
  note own = ae_demo_parse_owner [OF f] ae_demo_parse_owner [OF t]
  show "call ae_demo_host {from, to} L L'"
    using own by (intro ae_demo_call) (auto simp: L' ae_demo_token_def)
  have "unat (ta_amount t + n) = unat (ta_amount t) + unat n"
    using ok(4) by (simp add: unat_word_ariths not_le)
  moreover have "unat n \<le> unat (ta_amount f)"
    using ok(3) by (simp add: word_le_nat_alt not_less)
  ultimately show "if from = to then tok ae_demo_host L' to = tok ae_demo_host L to
      else moves ae_demo_host m from to n n L L'"
    using f t own ok(1,2)
    by (simp add: L' moves_def ae_demo_tok token_account_update)
qed

lemma ae_demo_transfer_law: "transfer_law (\<lambda>_. True) ae_demo_host"
  unfolding transfer_law_def
proof (intro conjI allI impI)
  fix tp src m to a n d s L L'
  assume "ae_transfer_checked ae_demo_host tp src m to a n d s L = Inr L'"
  then have "ae_demo_transfer src m to n L = Inr L'"
    by (simp add: ae_demo_host_def)
  note t = ae_demo_transfer_effect [OF this]
  show "call ae_demo_host {src, to} L L'"
    by (rule t)
  show "if src = to then tok ae_demo_host L' to = tok ae_demo_host L to
      else \<exists>r. moves ae_demo_host m src to n r L L' \<and> unat r \<le> unat n \<and> (True \<longrightarrow> r = n)"
    using t(2) by (auto split: if_splits)
next
  fix tp k d a s L L'
  assume "ae_close_account ae_demo_host tp k d a s L = Inr L'"
  then obtain t where t: "ae_demo_parse (L k) = Inr t" and L': "L' = L(k := closed_account)"
    by (auto simp: ae_demo_host_def res_simps)
  show "call ae_demo_host {k} L L'"
    using ae_demo_parse_owner [OF t]
    by (intro ae_demo_call) (auto simp: L' closed_account_def)
  show "tok ae_demo_host L' k = None"
    by (simp add: ae_demo_tok L' ae_demo_parse_def closed_account_def system_program_ID_def)
qed

lemma ae_demo_law: "swap_law (\<lambda>_. True) ae_demo_host"
  by (simp add: swap_law_def ae_demo_parse_law ae_demo_init_law ae_demo_ata_law ae_demo_transfer_law)

section \<open>Two offers\<close>

definition ae_info :: "address \<Rightarrow> account_info" where
  "ae_info k = \<lparr>ai_key = k, ai_is_signer = (k = 10 \<or> k = 50), ai_is_writable = True\<rparr>"

definition ae_mint_account :: "address \<Rightarrow> account" where
  "ae_mint_account p = \<lparr>acc_lamports = 1, acc_owner = p, acc_data = [6]\<rparr>"

definition ae_start :: ledger where
  "ae_start = (\<lambda>_. closed_account)
     (21 := ae_mint_account 7, 22 := ae_mint_account 7,
      23 := ae_mint_account 17, 24 := ae_mint_account 17,
      102107 := ae_demo_token 7 21 10 500, 502207 := ae_demo_token 7 22 50 300,
      102317 := ae_demo_token 17 23 10 500)"

definition ae_make_accounts :: "account_info list" where
  "ae_make_accounts = map ae_info [10, 21, 22, 102107, 1000, 10002107, 8, 7, 0]"

definition ae_make_17_accounts :: "account_info list" where
  "ae_make_17_accounts = map ae_info [10, 23, 24, 102317, 1001, 10012317, 8, 17, 0]"

definition ae_take_accounts :: "account_info list" where
  "ae_take_accounts =
     map ae_info [50, 10, 21, 22, 502107, 502207, 102207, 1000, 10002107, 8, 7, 0]"

definition ae_terms :: ae_escrow where
  "ae_terms = init_escrow 0 30 10 21 22 255"

definition ae_terms_17 :: ae_escrow where
  "ae_terms_17 = init_escrow 1 30 10 23 24 255"

definition ae_escrow_account :: "ae_escrow \<Rightarrow> account" where
  "ae_escrow_account e =
     \<lparr>acc_lamports = 1, acc_owner = ae_ID, acc_data = ae_DISCRIMINATOR @ ae_serialize e\<rparr>"

definition ae_made :: "ledger \<Rightarrow> ledger" where
  "ae_made L = L(1000 := ae_escrow_account ae_terms, 10002107 := ae_demo_token 7 21 1000 100,
     102107 := ae_demo_token 7 21 10 400)"

definition ae_made_17 :: ledger where
  "ae_made_17 = ae_start(1001 := ae_escrow_account ae_terms_17,
     10012317 := ae_demo_token 17 23 1001 100, 102317 := ae_demo_token 17 23 10 400)"

lemma ae_demo_token_fields [simp]:
  "acc_owner (ae_demo_token p m a n) = p" "acc_lamports (ae_demo_token p m a n) = 1"
  by (simp_all add: ae_demo_token_def)

lemma ae_demo_fields [simp]:
  "ae_token ae_demo_host = ae_demo_parse"
  "default_token_program ae_demo_host = 7"
  "find_program_address ae_demo_host seeds p = (ae_demo_pda seeds, 255)"
  "create_program_address ae_demo_host seeds p = Some (ae_demo_pda seeds)"
  "is_executable ae_demo_host p"
  "is_token_program ae_demo_host p = (p = 7 \<or> p = 17)"
  "associated_token_ID ae_demo_host = 8"
  "ae_mint ae_demo_host a = (if acc_data a = [6] then Inr 6 else Inl AccountDidNotDeserialize)"
  by (simp_all add: ae_demo_host_def)

lemma ae_exit_new:
  assumes "L k = \<lparr>acc_lamports = 1, acc_owner = ae_ID, acc_data = replicate (length ae_DISCRIMINATOR + ae_INIT_SPACE) 0\<rparr>"
  shows "ae_exit k e L = Inr (L(k := ae_escrow_account e))"
  using assms
  by (simp add: ae_exit_def account_exit_def write_over_def ae_escrow_account_def)

lemma ae_closed [simp]:
  "acc_owner closed_account = system_program_ID" "acc_data closed_account = []"
  "acc_lamports closed_account = 0"
  by (simp_all add: closed_account_def)

lemma ae_pda_seed [simp]: "ae_demo_pda (ae_seeds m seed @ bs) = 1000 + ucast (ucast seed :: u8)"
  "ae_demo_pda (ae_seeds m seed) = 1000 + ucast (ucast seed :: u8)"
  by (simp_all add: ae_demo_pda_def ae_seeds_def numeral_eq_Suc)

lemma ae_demo_calls [simp]:
  "ae_init_account ae_demo_host p k j s =
     ae_demo_new True k \<lparr>acc_lamports = 1, acc_owner = ae_ID, acc_data = replicate j 0\<rparr>"
  "ae_init_ata ae_demo_host p k m a tp =
     ae_demo_new ((tp = 7 \<or> tp = 17) \<and> k = ae_demo_ata a m tp) k (ae_demo_token tp m a 0)"
  "ae_transfer_checked ae_demo_host tp src m dst a n d ss = ae_demo_transfer src m dst n"
  "ae_close_account ae_demo_host tp k dst a ss L =
     and_then (ae_demo_parse (L k)) (\<lambda>_. Inr (L(k := closed_account)))"
  by (simp_all add: ae_demo_host_def)

lemmas ae_checks = program_def require_def signed_def writable_def seeds_canonical_def
  seeds_with_bump_def mint_program_def associated_token_def system_account_def

lemma ae_make_0:
  assumes "L 21 = ae_mint_account 7" and "L 22 = ae_mint_account 7"
    and "L 102107 = ae_demo_token 7 21 10 500" and "L 1000 = closed_account"
    and "L 10002107 = closed_account"
  shows "ae_make ae_demo_host 0 100 30 ae_make_accounts L = Inr (ae_made L)"
  using assms
  by (simp add: ae_make_def ae_make_accounts_def ae_info_def ae_checks ae_demo_new_def ae_demo_ata_def
      ae_mint_account_def system_program_ID_def ae_demo_transfer_def ae_exit_new ae_made_def
      ae_terms_def fun_upd_twist)

lemma ae_make_17:
  "ae_make ae_demo_host 1 100 30 ae_make_17_accounts ae_start = Inr ae_made_17"
  by (simp add: ae_make_def ae_make_17_accounts_def ae_info_def ae_checks ae_demo_new_def
      ae_demo_ata_def ae_mint_account_def system_program_ID_def ae_demo_transfer_def ae_exit_new
      ae_made_17_def ae_terms_17_def ae_start_def fun_upd_twist)

lemma ae_escrow_at: "L k = ae_escrow_account e \<Longrightarrow> ae_at L k e"
  by (simp add: ae_at_def account_holds_def ae_escrow_account_def)

lemma ae_new_ata [simp]:
  assumes "L k = closed_account" and "tp = 7 \<or> tp = 17" and "k = ae_demo_ata a m tp"
  shows "ae_init_ata_if_needed ae_demo_host p k m a tp L = Inr (L(k := ae_demo_token tp m a 0))"
proof -
  have "\<exists>e. ae_demo_parse closed_account = Inl e"
    by simp
  then obtain e where "ae_demo_parse closed_account = Inl e"
    by blast
  with assms show ?thesis
    by (auto simp: ae_demo_host_def ae_demo_new_def)
qed

lemma ae_take_0: "\<exists>L'. ae_take ae_demo_host ae_take_accounts (ae_made ae_start) = Inr L'"
proof -
  have "ae_load (ae_made ae_start) 1000 = (Inr ae_terms :: ae_err + ae_escrow)"
    by (intro ae_load_at ae_escrow_at) (simp add: ae_made_def)
  then show ?thesis
    by (simp add: ae_take_def ae_take_accounts_def ae_info_def ae_checks ae_made_def ae_start_def
      ae_mint_account_def system_program_ID_def ae_demo_ata_def ae_terms_def init_escrow_def
      escrow_constraints_def vault_constraints_def empty_and_close_vault_def ae_demo_transfer_def
      anchor_close_def checked_add_def ae_escrow_account_def)
qed

section \<open>The properties\<close>

text \<open>How a take pays: the maker the price, the taker what is in the vault.\<close>

definition taken_at_terms ::
  "ae_host \<Rightarrow> ae_escrow \<Rightarrow> nat \<Rightarrow> account_info list \<Rightarrow> ledger \<Rightarrow> ledger \<Rightarrow> bool" where
  "taken_at_terms h e n accounts L L' \<longleftrightarrow>
     (let taker = ai_key (accounts ! 0); ta = ai_key (accounts ! 4); mb = ai_key (accounts ! 6) in
      ai_is_signer (accounts ! 0) \<and> ai_key (accounts ! 1) = ae_maker e \<and>
      (taker \<noteq> ae_maker e \<longrightarrow>
         (\<exists>t. tok h L' mb = Some t \<and> ta_owner t = ae_maker e \<and> ta_mint t = ae_mint_b e) \<and>
         bal h L' mb = bal h L mb + unat (ae_receive e) \<and>
         (ae_mint_a e \<noteq> ae_mint_b e \<longrightarrow> bal h L ta + n \<le> bal h L' ta)))"

text \<open>How a refund pays: the maker, who signs, what is in the vault.\<close>

definition refunded_to_maker ::
  "ae_host \<Rightarrow> ae_escrow \<Rightarrow> nat \<Rightarrow> account_info list \<Rightarrow> ledger \<Rightarrow> ledger \<Rightarrow> bool" where
  "refunded_to_maker h e n accounts L L' \<longleftrightarrow>
     (let maker = accounts ! 0; ata = ai_key (accounts ! 2) in
      ai_is_signer maker \<and> ai_key maker = ae_maker e \<and>
      (\<exists>t. tok h L ata = Some t \<and> ta_owner t = ae_maker e) \<and> bal h L ata + n \<le> bal h L' ata)"

lemma take_at_terms:
  assumes law: "swap_law plain h" and run: "ae_take h accounts L = Inr L'" and users: "users accounts L"
    and at: "ae_at L E e" and v: "vault_holds h E e n (default_token_program h) L"
    and plain: "plain (ae_mint_a e)" "plain (ae_mint_b e)"
    and settles: "settles Take_Escrow accounts = Some E"
  shows "taken_at_terms h e n accounts L L'"
    and "tok h L' (ae_vault h E e (default_token_program h)) = None" and "\<not> ae_at L' E e'"
proof -
  have load: "ae_load L E = (Inr e :: ae_err + ae_escrow)"
    by (rule ae_load_at [OF at])
  have signers: "\<And>a. a \<in> set accounts \<Longrightarrow> ai_is_signer a \<Longrightarrow> acc_owner (L (ai_key a)) \<noteq> ae_ID"
    using users unfolding users_def by blast
  have "taken_at_terms h e n accounts L L' \<and>
      tok h L' (ae_vault h E e (default_token_program h)) = None \<and> (\<forall>e'. \<not> ae_at L' E e')"
  proof (rule ae_take_effect [OF law run signers], goal_cases)
    case (3 taker maker mint_a mint_b ta tb mb escrow vault rest e' v' r s)
    have E: "ai_key escrow = E" and e: "e' = e"
      using settles 3(1,3) load by auto
    have vault: "ai_key vault = ae_vault h E e (default_token_program h)"
      using 3(5,7) E e by (simp add: ae_vault_def)
    have "n \<le> unat (ta_amount v')"
      using v 3(8) vault by (auto simp: vault_holds_def)
    moreover have "r = ta_amount v'" and "s = ae_receive e"
      using 3(15,18) 3(5,6) plain e by simp_all
    ultimately have "taken_at_terms h e n accounts L L'"
      using 3(1,2,4,5,6,13,16,22) e by (auto simp: taken_at_terms_def Let_def)
    then show ?case
      using 3(11,12) vault E by simp
  qed simp_all
  then show "taken_at_terms h e n accounts L L'"
    and "tok h L' (ae_vault h E e (default_token_program h)) = None" and "\<not> ae_at L' E e'"
    by blast+
qed

lemma refund_to_maker:
  assumes law: "swap_law plain h" and run: "ae_refund h accounts L = Inr L'"
    and at: "ae_at L E e" and v: "vault_holds h E e n (default_token_program h) L"
    and plain: "plain (ae_mint_a e)" and settles: "settles Refund_Escrow accounts = Some E"
  shows "refunded_to_maker h e n accounts L L'"
    and "tok h L' (ae_vault h E e (default_token_program h)) = None" and "\<not> ae_at L' E e'"
proof -
  have load: "ae_load L E = (Inr e :: ae_err + ae_escrow)"
    by (rule ae_load_at [OF at])
  have "refunded_to_maker h e n accounts L L' \<and>
      tok h L' (ae_vault h E e (default_token_program h)) = None \<and> (\<forall>e'. \<not> ae_at L' E e')"
  proof (rule ae_refund_effect [OF law run], goal_cases)
    case (1 maker mint_a ata escrow vault rest e' v' r t)
    have E: "ai_key escrow = E" and e: "e' = e"
      using settles 1(1,3) load by auto
    have vault: "ai_key vault = ae_vault h E e (default_token_program h)"
      using 1(5,6) E e by (simp add: ae_vault_def)
    have "n \<le> unat (ta_amount v')"
      using v 1(7) vault by (auto simp: vault_holds_def)
    moreover have "r = ta_amount v'"
      using 1(14) 1(5) plain e by simp
    ultimately have "refunded_to_maker h e n accounts L L'"
      using 1(1,2,4,12,17,18) e by (auto simp: refunded_to_maker_def Let_def)
    then show ?case
      using 1(10,11) vault E by simp
  qed
  then show "refunded_to_maker h e n accounts L L'"
    and "tok h L' (ae_vault h E e (default_token_program h)) = None" and "\<not> ae_at L' E e'"
    by blast+
qed

text \<open>C36: an offer made with the default token program stays open, with exactly the terms of its
  \<open>make\<close>, through all instructions and foreign steps until one names it; and that one is either a
  take, which pays the maker the price of the offer and the taker at least the deposit, or a refund
  signed by the maker, which pays the maker at least the deposit. Escrow and vault are then closed.\<close>

theorem offer_settles_at_terms:
  assumes "swap_law plain h" and "offer_run plain h E e n (default_token_program h) L"
    and "users accounts L" and "anchor_escrow_q2_2026 h i accounts L = Inr L'"
    and "settles i accounts = Some E" and "plain (ae_mint_b e)"
  shows "(i = Take_Escrow \<and> taken_at_terms h e n accounts L L' \<or>
      i = Refund_Escrow \<and> refunded_to_maker h e n accounts L L') \<and>
    tok h L' (ae_vault h E e (default_token_program h)) = None \<and> (\<forall>e'. \<not> ae_at L' E e')"
proof -
  have at: "ae_at L E e" and v: "vault_holds h E e n (default_token_program h) L"
    and pa: "plain (ae_mint_a e)"
    using offer_run_open [OF assms(1,2)] by (auto simp: ae_open_def)
  show ?thesis
  proof (cases i)
    case Make_Escrow
    then show ?thesis
      using assms(5) by simp
  next
    case Take_Escrow
    then show ?thesis
      using take_at_terms [OF assms(1) _ assms(3) at v pa assms(6)] assms(4,5) by simp
  next
    case Refund_Escrow
    then show ?thesis
      using refund_to_maker [OF assms(1) _ at v pa] assms(4,5) by simp
  qed
qed

lemma ae_users: "accounts = map ae_info ks \<Longrightarrow> acc_owner (L 10) \<noteq> ae_ID \<Longrightarrow>
    acc_owner (L 50) \<noteq> ae_ID \<Longrightarrow> users accounts L"
  by (auto simp: users_def ae_info_def)

lemma ae_demo_run: "offer_run (\<lambda>_. True) ae_demo_host 1000 ae_terms 100 7 (ae_made ae_start)"
proof (rule offer_run.made)
  show "ae_make ae_demo_host 0 100 30 ae_make_accounts ae_start = Inr (ae_made ae_start)"
    by (rule ae_make_0) (simp_all add: ae_start_def)
  show "ae_at (ae_made ae_start) 1000 ae_terms"
    by (intro ae_escrow_at) (simp add: ae_made_def)
qed (simp_all add: ae_make_accounts_def ae_info_def ae_terms_def)

theorem offer_settles_at_terms_witness:
  "\<exists>L'. ae_take ae_demo_host ae_take_accounts (ae_made ae_start) = Inr L' \<and>
     taken_at_terms ae_demo_host ae_terms 100 ae_take_accounts (ae_made ae_start) L'"
proof -
  obtain L' where L': "ae_take ae_demo_host ae_take_accounts (ae_made ae_start) = Inr L'"
    using ae_take_0 by blast
  have u: "users ae_take_accounts (ae_made ae_start)"
    by (rule ae_users [OF ae_take_accounts_def]) (simp_all add: ae_made_def ae_start_def)
  have run: "offer_run (\<lambda>_. True) ae_demo_host 1000 ae_terms 100 (default_token_program ae_demo_host)
      (ae_made ae_start)"
    using ae_demo_run by simp
  have take: "anchor_escrow_q2_2026 ae_demo_host Take_Escrow ae_take_accounts (ae_made ae_start) = Inr L'"
    using L' by simp
  have "settles Take_Escrow ae_take_accounts = Some 1000"
    by (simp add: ae_take_accounts_def ae_info_def)
  from offer_settles_at_terms [OF ae_demo_law run u take this] L' show ?thesis
    by simp
qed

text \<open>C37: the deposit of an offer that was made with another token program than the default never
  leaves its vault again: no instruction whatever debits it, because the vault that take and refund
  accept is the one at the address derived with the default token program.\<close>

theorem other_token_program_locked:
  assumes "swap_law plain h" and "offer_run plain h E e n tp L"
    and "ae_vault h E e tp \<noteq> ae_vault h E e (default_token_program h)"
    and "users accounts L" and "anchor_escrow_q2_2026 h i accounts L = Inr L'"
  shows "\<exists>t. tok h L' (ae_vault h E e tp) = Some t \<and> n \<le> unat (ta_amount t)"
proof -
  have at: "ae_at L E e" and v: "vault_holds h E e n tp L"
    using offer_run_open [OF assms(1,2)] by (auto simp: ae_open_def)
  have "vault_holds h E e n tp L'"
    by (rule instruction_keeps_vault [OF assms(1,4,5) ae_at_owner [OF at] v])
      (use assms(3) in blast)
  then show ?thesis
    by (auto simp: vault_holds_def)
qed

theorem other_token_program_locked_witness:
  "ae_make ae_demo_host 0 100 30 ae_make_accounts ae_made_17 = Inr (ae_made ae_made_17) \<and>
   (\<exists>t. tok ae_demo_host (ae_made ae_made_17) 10012317 = Some t \<and> 100 \<le> unat (ta_amount t))"
proof -
  have run: "offer_run (\<lambda>_. True) ae_demo_host 1001 ae_terms_17 100 17 ae_made_17"
  proof (rule offer_run.made [OF ae_make_17])
    show "ae_at ae_made_17 1001 ae_terms_17"
      by (intro ae_escrow_at) (simp add: ae_made_17_def)
  qed (simp_all add: ae_make_17_accounts_def ae_info_def ae_terms_17_def)
  have vault: "ae_vault ae_demo_host 1001 ae_terms_17 17 = 10012317"
    and other: "ae_vault ae_demo_host 1001 ae_terms_17 17 \<noteq>
      ae_vault ae_demo_host 1001 ae_terms_17 (default_token_program ae_demo_host)"
    by (simp_all add: ae_vault_def ae_demo_ata_def ae_terms_17_def init_escrow_def)
  have make: "ae_make ae_demo_host 0 100 30 ae_make_accounts ae_made_17 = Inr (ae_made ae_made_17)"
    by (rule ae_make_0) (simp_all add: ae_made_17_def ae_start_def)
  then have step: "anchor_escrow_q2_2026 ae_demo_host (Make_Escrow 0 100 30) ae_make_accounts ae_made_17 =
      Inr (ae_made ae_made_17)"
    by simp
  have u: "users ae_make_accounts ae_made_17"
    by (rule ae_users [OF ae_make_accounts_def]) (simp_all add: ae_made_17_def ae_start_def)
  show ?thesis
    using other_token_program_locked [OF ae_demo_law run other u step] make unfolding vault by simp
qed

end
