(* ===== verification/Anchor_History.thy ===== *)
theory Anchor_History
  imports Anchor_Account
begin

text \<open>
  The history of one program account: instructions that name it and instructions that do not, in
  any order, with whatever other programs do in between. The locale \<open>account_history\<close> is
  the contract of a program that keeps an abstract value in the account: an accepted instruction
  that names it is authorised and applies its abstract operation, anything else keeps the value. Then
  the account always holds the operations of its history applied to the first value.
\<close>

section \<open>What an instruction leaves alone\<close>

text \<open>Of the accounts of the program \<open>p\<close>, only \<open>k\<close> may change.\<close>

definition kept :: "address \<Rightarrow> address \<Rightarrow> ledger \<Rightarrow> ledger \<Rightarrow> bool" where
  "kept p k L L' \<longleftrightarrow> (\<forall>a. a \<noteq> k \<longrightarrow> acc_owner (L a) = p \<longrightarrow> same_state (L' a) (L a))"

lemma account_holds_same:
  "account_holds p disc serialize space k v L \<Longrightarrow> same_state (L' k) (L k) \<Longrightarrow>
     account_holds p disc serialize space k v L'"
  by (simp add: account_holds_def same_state_def)

lemma account_holds_owner: "account_holds p disc serialize space k v L \<Longrightarrow> acc_owner (L k) = p"
  by (simp add: account_holds_def)

lemma kept_holds:
  assumes "kept p k L L'" and "a \<noteq> k" and "account_holds p disc serialize space a v L"
  shows "account_holds p disc serialize space a v L'"
proof -
  have "same_state (L' a) (L a)"
    using assms(1,2) account_holds_owner [OF assms(3)] unfolding kept_def by blast
  then show ?thesis
    by (rule account_holds_same [OF assms(3)])
qed

lemma foreign_kept: "foreign_change p L L' \<Longrightarrow> kept p k L L'"
  unfolding kept_def using foreign_change_same by blast

lemma kept_trans: "kept p k L L' \<Longrightarrow> kept p k L' L'' \<Longrightarrow> kept p k L L''"
  unfolding kept_def same_state_def by metis

lemma account_exit_kept: "account_exit q disc serialize k v L = Inr L' \<Longrightarrow> kept p k L L'"
  by (auto simp: account_exit_def kept_def same_state_def res_simps split: if_splits)

lemma close_kept: "anchor_close k d L = Inr L' \<Longrightarrow> kept p k L L'"
  by (auto simp: anchor_close_def kept_def same_state_def Let_def res_simps split: if_splits)

lemma foreign_change_refl [simp]: "foreign_change p L L"
  by (simp add: foreign_change_def same_state_def)

context anchor_account
begin

text \<open>A call that leaves the program's accounts alone, then the write-back.\<close>

lemma exit_after:
  assumes ok: "ok u" and f: "foreign_change p L L1"
    and at: "account_holds p disc serialize space k v L"
    and run: "account_exit p disc serialize k u L1 = (Inr L' :: 'e anchor_error + ledger)"
  shows "account_holds p disc serialize space k u L'"
proof -
  have "account_holds p disc serialize space k v L1"
    by (rule foreign_change_account_holds [OF f at])
  then have own: "acc_owner (L1 k) = p" and len: "length (acc_data (L1 k)) = length disc + space"
    by (auto simp: account_holds_def)
  obtain L2 where "account_exit p disc serialize k u L1 = (Inr L2 :: 'e anchor_error + ledger)"
    and "account_holds p disc serialize space k u L2"
    by (rule exit_holds [where L = L1, OF ok own len]) blast
  then show ?thesis
    using run by simp
qed

end

section \<open>Histories\<close>

type_synonym 'i event = "'i \<times> account_info list"

inductive history_run ::
  "('i \<Rightarrow> account_info list \<Rightarrow> ledger \<Rightarrow> 'e + ledger) \<Rightarrow> ('i event \<Rightarrow> bool) \<Rightarrow>
     (ledger \<Rightarrow> ledger \<Rightarrow> bool) \<Rightarrow> ledger \<Rightarrow> 'i event list \<Rightarrow> ledger \<Rightarrow> bool"
  for step :: "'i \<Rightarrow> account_info list \<Rightarrow> ledger \<Rightarrow> 'e + ledger" and named :: "'i event \<Rightarrow> bool"
    and foreign :: "ledger \<Rightarrow> ledger \<Rightarrow> bool" and L0 :: ledger where
  start: "history_run step named foreign L0 [] L0"
| on: "history_run step named foreign L0 es L \<Longrightarrow> step i accounts L = Inr L' \<Longrightarrow>
    named (i, accounts) \<Longrightarrow> history_run step named foreign L0 (es @ [(i, accounts)]) L'"
| off: "history_run step named foreign L0 es L \<Longrightarrow> step i accounts L = Inr L' \<Longrightarrow>
    \<not> named (i, accounts) \<Longrightarrow> history_run step named foreign L0 es L'"
| other: "history_run step named foreign L0 es L \<Longrightarrow> foreign L L' \<Longrightarrow>
    history_run step named foreign L0 es L'"

locale account_history =
  fixes step :: "'i \<Rightarrow> account_info list \<Rightarrow> ledger \<Rightarrow> 'e + ledger"
    and named :: "'i event \<Rightarrow> bool"
    and foreign :: "ledger \<Rightarrow> ledger \<Rightarrow> bool"
    and holds :: "'v \<Rightarrow> ledger \<Rightarrow> bool"
    and operation :: "'i event \<Rightarrow> 'v \<Rightarrow> 'v"
    and authorised :: "'i event \<Rightarrow> 'v \<Rightarrow> bool"
  assumes on_holds: "holds v L \<Longrightarrow> step i accounts L = Inr L' \<Longrightarrow> named (i, accounts) \<Longrightarrow>
      holds (operation (i, accounts) v) L'"
    and on_authorised: "holds v L \<Longrightarrow> step i accounts L = Inr L' \<Longrightarrow> named (i, accounts) \<Longrightarrow>
      authorised (i, accounts) v"
    and off_holds: "holds v L \<Longrightarrow> step i accounts L = Inr L' \<Longrightarrow> \<not> named (i, accounts) \<Longrightarrow> holds v L'"
    and foreign_holds: "holds v L \<Longrightarrow> foreign L L' \<Longrightarrow> holds v L'"
begin

lemma run_holds:
  assumes "history_run step named foreign L0 es L" and "holds v L0"
  shows "holds (fold operation es v) L"
  using assms
  by induction (auto intro: on_holds off_holds foreign_holds)

lemma run_authorised:
  assumes "history_run step named foreign L0 es L" and "holds v L0"
    and "es = before @ [e] @ after"
  shows "authorised e (fold operation before v)"
  using assms
proof (induction arbitrary: after)
  case start
  then show ?case by simp
next
  case (on es L i accounts L')
  show ?case
  proof (cases after rule: rev_cases)
    case Nil
    then have "before = es" and "e = (i, accounts)"
      using on.prems(2) by simp_all
    then show ?thesis
      using run_holds [OF on.hyps(1) on.prems(1)] on.hyps(2,3) on_authorised by blast
  next
    case (snoc after' x)
    then show ?thesis
      using on.prems on.IH [of after'] by simp
  qed
qed simp_all

end

section \<open>Programs that keep one value per account\<close>

text \<open>
  What a program has to show of its instructions, one at a time: an accepted one leaves all accounts
  of the program alone, or names one, leaves the others alone and applies its operation to the value
  in that one. \<open>law\<close> is what the program relies on. Every account then has a history.
\<close>

locale account_program =
  fixes step :: "'i \<Rightarrow> account_info list \<Rightarrow> ledger \<Rightarrow> 'e + ledger"
    and subject :: "'i event \<Rightarrow> address option"
    and p :: address
    and at :: "address \<Rightarrow> 'v \<Rightarrow> ledger \<Rightarrow> bool"
    and operation :: "'i event \<Rightarrow> 'v \<Rightarrow> 'v"
    and authorised :: "'i event \<Rightarrow> 'v \<Rightarrow> bool"
    and law :: bool
  assumes at_stays: "at k v L \<Longrightarrow> (acc_owner (L k) = p \<Longrightarrow> same_state (L' k) (L k)) \<Longrightarrow> at k v L'"
    and effect: "law \<Longrightarrow> step i accounts L = Inr L' \<Longrightarrow>
      (case subject (i, accounts) of
         None \<Rightarrow> foreign_change p L L'
       | Some k \<Rightarrow> kept p k L L' \<and>
           (\<forall>v. at k v L \<longrightarrow> authorised (i, accounts) v \<and> at k (operation (i, accounts) v) L'))"
begin

lemma foreign_at: "foreign_change p L L' \<Longrightarrow> at k v L \<Longrightarrow> at k v L'"
  by (erule at_stays) (rule foreign_change_same)

lemma named_at:
  assumes law and "step i accounts L = Inr L'" and "subject (i, accounts) = Some k" and "at k v L"
  shows "authorised (i, accounts) v" and "at k (operation (i, accounts) v) L'"
  using effect [OF assms(1,2)] assms(3,4) by simp_all

lemma other_at:
  assumes law and "step i accounts L = Inr L'" and "subject (i, accounts) \<noteq> Some k" and "at k v L"
  shows "at k v L'"
proof (cases "subject (i, accounts)")
  case None
  then show ?thesis
    using effect [OF assms(1,2)] foreign_at [OF _ assms(4)] by simp
next
  case (Some k')
  then have "kept p k' L L'" and "k \<noteq> k'"
    using effect [OF assms(1,2)] assms(3) by simp_all
  with at_stays [OF assms(4)] show ?thesis
    unfolding kept_def by blast
qed

end

sublocale account_program \<subseteq> history: account_history step "\<lambda>e. subject e = Some k"
  "foreign_change p" "\<lambda>v L. law \<longrightarrow> at k v L" operation "\<lambda>e v. law \<longrightarrow> authorised e v" for k
proof
  fix v L i accounts L'
  assume at: "law \<longrightarrow> at k v L"
  show "law \<longrightarrow> at k (operation (i, accounts) v) L'" and "law \<longrightarrow> authorised (i, accounts) v"
    if "step i accounts L = Inr L'" and "subject (i, accounts) = Some k"
    using named_at [OF _ that] at by blast+
  show "law \<longrightarrow> at k v L'" if "step i accounts L = Inr L'" and "\<not> subject (i, accounts) = Some k"
    using other_at [OF _ that] at by blast
  show "law \<longrightarrow> at k v L'" if "foreign_change p L L'"
    using foreign_at [OF that] at by blast
qed

end
