(* ===== verification/Task_Queue.thy ===== *)
theory Task_Queue
  imports Anchor_History
begin

text \<open>
  What the two programs that schedule tasks pass to \<open>tuktuk\<close>: an instruction to run later, and
  the arguments of \<open>queue_task_v0\<close>. The program itself, and \<open>compile_transaction\<close> of its
  crate, are parameters.
\<close>

record account_meta =
  am_pubkey :: address
  am_is_signer :: bool
  am_is_writable :: bool

record solana_instruction =
  si_program_id :: address
  si_accounts :: "account_meta list"
  si_data :: "u8 list"

datatype trigger = Trigger_Now

record queue_task_args =
  qt_trigger :: trigger
  qt_transaction :: "u8 list"
  qt_crank_reward :: "u64 option"
  qt_free_tasks :: u8
  qt_id :: u16
  qt_description :: string

text \<open>
  The accounts of \<open>queue_task_v0\<close> are the payer, the queue authority, the queue, the authority's
  account of the queue, the task and the system program.
\<close>

record 'e tuktuk_env = anchor_env +
  TUKTUK_ID :: address
  compile_transaction :: "solana_instruction list \<Rightarrow> u8 list option"
  queue_task_v0 ::
    "address \<Rightarrow> address list \<Rightarrow> queue_task_args \<Rightarrow> signer_seeds list \<Rightarrow> ledger \<Rightarrow>
      'e anchor_error + ledger"

text \<open>The queue, like any other program, leaves the accounts of the program \<open>p\<close> alone.\<close>

definition queue_task_law :: "address \<Rightarrow> ('e, 'z) tuktuk_env_scheme \<Rightarrow> bool" where
  "queue_task_law p h \<longleftrightarrow>
     (\<forall>q ks args s L L'. queue_task_v0 h q ks args s L = Inr L' \<longrightarrow> foreign_change p L L')"

lemma queue_task_call:
  "queue_task_law p h \<Longrightarrow> queue_task_v0 h q ks args s L = Inr L' \<Longrightarrow> foreign_change p L L'"
  unfolding queue_task_law_def by blast

end
