(* ===== verification/Rollup_Program.thy ===== *)
theory Rollup_Program
  imports Task_Queue
begin

text \<open>
  The program \<open>er-state-account\<close> (\<open>magicblock_er_example\<close>): one account per user with a
  number in it, that the user sets, an oracle randomises and a scheduler counts up, on the base layer
  or, while the account is delegated, in an ephemeral rollup. The calls of the rollup, randomness and
  scheduling programs are parameters: fields of \<open>er_host\<close>. They also get the accounts that the
  attribute macros add: \<open>#[delegate]\<close> puts the buffer, the record and the metadata of the
  delegation before the account marked \<open>del\<close>; what \<open>#[delegate]\<close>,
  \<open>#[commit]\<close> and \<open>#[vrf]\<close> put behind the declared accounts is \<open>rest\<close>.
  The instruction that \<open>#[ephemeral]\<close> adds to the program, with which the delegation program
  hands an undelegated account back, is not modelled: on this ledger it is one more change by another
  program to an account that this one does not own.
\<close>

section \<open>The account\<close>

text \<open>\<open>declare_id!("9ChqoFDgVmmvD6Hcajv2JppVZ7S1qPDozrTw4V7q2yLP")\<close>, decoded.\<close>

definition er_ID :: address where
  "er_ID = 77923480102337632674600198685710299274187361249723440246629003871947035041145"

record user_account =
  ua_user :: address
  ua_data :: u64
  ua_bump :: u8

text \<open>The space of the account, with the discriminator.\<close>

definition user_account_INIT_SPACE :: nat where
  "user_account_INIT_SPACE = 32 + 8 + 1 + 8"

definition user_account_serialize :: "user_account \<Rightarrow> u8 list" where
  "user_account_serialize u = address_bytes (ua_user u) @ to_le_bytes 8 (ua_data u) @ [ua_bump u]"

definition user_account_deserialize :: "u8 list \<Rightarrow> user_account option" where
  "user_account_deserialize bs =
     Option.bind (read_le 32 bs) (\<lambda>(user, bs).
     Option.bind (read_le 8 bs) (\<lambda>(d, bs).
     Option.bind (read_le 1 bs) (\<lambda>(b, bs).
     Some \<lparr>ua_user = user, ua_data = d, ua_bump = b\<rparr>)))"

interpretation user_account: anchor_account "\<lambda>_. True" user_account_serialize user_account_deserialize 41
proof
  show "user_account_deserialize (user_account_serialize u @ rest) = Some u" for u rest
    by (simp add: user_account_deserialize_def user_account_serialize_def codec_simps read_le_append
        del: One_nat_def)
qed (simp add: user_account_serialize_def)

section \<open>Parameters\<close>

type_synonym er_err = "unit anchor_error"

text \<open>\<open>RequestRandomnessParams\<close>, as far as the program sets it.\<close>

record random_request =
  rr_payer :: address
  rr_oracle_queue :: address
  rr_callback_program_id :: address
  rr_callback_discriminator :: "u8 list"
  rr_caller_seed :: "u8 list"
  rr_accounts_metas :: "account_meta list option"

record er_host = "unit tuktuk_env" +
  er_discriminator :: "u8 list"
  consume_discriminator :: "u8 list"
  scheduled_update_data :: "u8 list"
  VRF_PROGRAM_IDENTITY :: address
  DEFAULT_QUEUE :: address
  DEFAULT_EPHEMERAL_QUEUE :: address
  er_init_account :: "address \<Rightarrow> address \<Rightarrow> nat \<Rightarrow> signer_seeds \<Rightarrow> ledger \<Rightarrow> er_err + ledger"
  commit_accounts :: "address \<Rightarrow> address list \<Rightarrow> account_info list \<Rightarrow> ledger \<Rightarrow> er_err + ledger"
  commit_and_undelegate_accounts ::
    "address \<Rightarrow> address list \<Rightarrow> account_info list \<Rightarrow> ledger \<Rightarrow> er_err + ledger"
  delegate_account ::
    "address \<Rightarrow> address \<Rightarrow> signer_seeds \<Rightarrow> address option \<Rightarrow> account_info list \<Rightarrow> ledger \<Rightarrow>
      er_err + ledger"
  invoke_signed_vrf :: "address \<Rightarrow> random_request \<Rightarrow> account_info list \<Rightarrow> ledger \<Rightarrow> er_err + ledger"

section \<open>What the instructions share\<close>

definition user_account_load :: "er_host \<Rightarrow> ledger \<Rightarrow> address \<Rightarrow> er_err + user_account" where
  "user_account_load h L k = account_load er_ID (er_discriminator h) user_account_deserialize L k"

definition user_account_exit ::
  "er_host \<Rightarrow> address \<Rightarrow> user_account \<Rightarrow> ledger \<Rightarrow> er_err + ledger" where
  "user_account_exit h k u L = account_exit er_ID (er_discriminator h) user_account_serialize k u L"

definition user_seeds :: "address \<Rightarrow> u8 list list" where
  "user_seeds user = [byte_string ''user'', address_bytes user]"

text \<open>\<open>mut, seeds = [b"user", user], bump = user_account.bump\<close>.\<close>

definition user_account_constraints ::
  "er_host \<Rightarrow> address \<Rightarrow> account_info \<Rightarrow> user_account \<Rightarrow> er_err + unit" where
  "user_account_constraints h user ua u =
     and_then (seeds_with_bump h er_ID (user_seeds user) (ua_bump u) ua) (\<lambda>_. writable ua)"

section \<open>Instructions\<close>

definition er_initialize :: "er_host \<Rightarrow> account_info list \<Rightarrow> ledger \<Rightarrow> er_err + ledger" where
  "er_initialize h accounts L =
     (case accounts of
        user # ua # system # _ \<Rightarrow>
          and_then (signed user) (\<lambda>_.
          and_then (program h (\<lambda>p. p = system_program_ID) system) (\<lambda>_.
          and_then (seeds_canonical h er_ID (user_seeds (ai_key user)) ua) (\<lambda>bump.
          and_then (er_init_account h (ai_key user) (ai_key ua) user_account_INIT_SPACE
            (user_seeds (ai_key user) @ [[bump]]) L) (\<lambda>L.
          and_then (writable ua) (\<lambda>_.
          and_then (writable user) (\<lambda>_.
          user_account_exit h (ai_key ua)
            \<lparr>ua_user = ai_key user, ua_data = 0, ua_bump = bump\<rparr> L))))))
      | _ \<Rightarrow> Inl AccountNotEnoughKeys)"

definition update :: "er_host \<Rightarrow> u64 \<Rightarrow> account_info list \<Rightarrow> ledger \<Rightarrow> er_err + ledger" where
  "update h new_data accounts L =
     (case accounts of
        user # ua # _ \<Rightarrow>
          and_then (signed user) (\<lambda>_.
          and_then (user_account_load h L (ai_key ua)) (\<lambda>u.
          and_then (user_account_constraints h (ai_key user) ua u) (\<lambda>_.
          user_account_exit h (ai_key ua) (u\<lparr>ua_data := new_data\<rparr>) L)))
      | _ \<Rightarrow> Inl AccountNotEnoughKeys)"

definition update_commit :: "er_host \<Rightarrow> u64 \<Rightarrow> account_info list \<Rightarrow> ledger \<Rightarrow> er_err + ledger" where
  "update_commit h new_data accounts L =
     (case accounts of
        user # ua # rest \<Rightarrow>
          and_then (signed user) (\<lambda>_.
          and_then (user_account_load h L (ai_key ua)) (\<lambda>u.
          and_then (writable user) (\<lambda>_.
          and_then (user_account_constraints h (ai_key user) ua u) (\<lambda>_.
          and_then (commit_accounts h (ai_key user) [ai_key ua] rest L) (\<lambda>L.
          user_account_exit h (ai_key ua) (u\<lparr>ua_data := new_data\<rparr>) L)))))
      | _ \<Rightarrow> Inl AccountNotEnoughKeys)"

definition build_request_randomness_ix ::
  "er_host \<Rightarrow> address \<Rightarrow> address \<Rightarrow> address \<Rightarrow> u8 \<Rightarrow> random_request" where
  "build_request_randomness_ix h payer ua oracle_queue client_seed =
     \<lparr>rr_payer = payer, rr_oracle_queue = oracle_queue, rr_callback_program_id = er_ID,
      rr_callback_discriminator = consume_discriminator h,
      rr_caller_seed = replicate 32 client_seed,
      rr_accounts_metas =
        Some [\<lparr>am_pubkey = ua, am_is_signer = False, am_is_writable = True\<rparr>]\<rparr>"

text \<open>The two requests differ in the queue they accept.\<close>

definition request_random ::
  "er_host \<Rightarrow> address \<Rightarrow> u8 \<Rightarrow> account_info list \<Rightarrow> ledger \<Rightarrow> er_err + ledger" where
  "request_random h default_queue client_seed accounts L =
     (case accounts of
        user # ua # queue # rest \<Rightarrow>
          and_then (signed user) (\<lambda>_.
          and_then (user_account_load h L (ai_key ua)) (\<lambda>u.
          and_then (writable user) (\<lambda>_.
          and_then (seeds_with_bump h er_ID (user_seeds (ai_key user)) (ua_bump u) ua) (\<lambda>_.
          and_then (require (ua_user u = ai_key user) ConstraintHasOne) (\<lambda>_.
          and_then (writable queue) (\<lambda>_.
          and_then (require (ai_key queue = default_queue) ConstraintAddress) (\<lambda>_.
          invoke_signed_vrf h (ai_key user)
            (build_request_randomness_ix h (ai_key user) (ai_key ua) (ai_key queue) client_seed)
            rest L)))))))
      | _ \<Rightarrow> Inl AccountNotEnoughKeys)"

definition request_random_update ::
  "er_host \<Rightarrow> u8 \<Rightarrow> account_info list \<Rightarrow> ledger \<Rightarrow> er_err + ledger" where
  "request_random_update h = request_random h (DEFAULT_QUEUE h)"

definition request_random_update_er ::
  "er_host \<Rightarrow> u8 \<Rightarrow> account_info list \<Rightarrow> ledger \<Rightarrow> er_err + ledger" where
  "request_random_update_er h = request_random h (DEFAULT_EPHEMERAL_QUEUE h)"

definition consume_random_update ::
  "er_host \<Rightarrow> u8 list \<Rightarrow> account_info list \<Rightarrow> ledger \<Rightarrow> er_err + ledger" where
  "consume_random_update h randomness accounts L =
     (case accounts of
        identity # ua # _ \<Rightarrow>
          and_then (signed identity) (\<lambda>_.
          and_then (user_account_load h L (ai_key ua)) (\<lambda>u.
          and_then (require (ai_key identity = VRF_PROGRAM_IDENTITY h) ConstraintAddress) (\<lambda>_.
          and_then (writable ua) (\<lambda>_.
          user_account_exit h (ai_key ua)
            (u\<lparr>ua_data := from_le_bytes (take 8 randomness)\<rparr>) L))))
      | _ \<Rightarrow> Inl AccountNotEnoughKeys)"

definition scheduled_update :: "er_host \<Rightarrow> account_info list \<Rightarrow> ledger \<Rightarrow> er_err + ledger" where
  "scheduled_update h accounts L =
     (case accounts of
        ua # _ \<Rightarrow>
          and_then (user_account_load h L (ai_key ua)) (\<lambda>u.
          and_then (user_account_constraints h (ua_user u) ua u) (\<lambda>_.
          user_account_exit h (ai_key ua) (u\<lparr>ua_data := saturating_add (ua_data u) 1\<rparr>) L))
      | _ \<Rightarrow> Inl AccountNotEnoughKeys)"

definition scheduled_update_ix :: "er_host \<Rightarrow> address \<Rightarrow> solana_instruction" where
  "scheduled_update_ix h ua =
     \<lparr>si_program_id = er_ID,
      si_accounts = [\<lparr>am_pubkey = ua, am_is_signer = False, am_is_writable = True\<rparr>],
      si_data = scheduled_update_data h\<rparr>"

definition schedule_tuktuk_update ::
  "er_host \<Rightarrow> u16 \<Rightarrow> account_info list \<Rightarrow> ledger \<Rightarrow> er_err + ledger" where
  "schedule_tuktuk_update h task_id accounts L =
     (case accounts of
        payer # ua # task_queue # task_queue_authority # task # queue_authority # system # tuktuk # _ \<Rightarrow>
          and_then (signed payer) (\<lambda>_.
          and_then (user_account_load h L (ai_key ua)) (\<lambda>u.
          and_then (program h (\<lambda>p. p = system_program_ID) system) (\<lambda>_.
          and_then (program h (\<lambda>p. p = TUKTUK_ID h) tuktuk) (\<lambda>_.
          and_then (writable payer) (\<lambda>_.
          and_then (user_account_constraints h (ua_user u) ua u) (\<lambda>_.
          and_then (writable task_queue) (\<lambda>_.
          and_then (writable task) (\<lambda>_.
          and_then (seeds_canonical h er_ID [byte_string ''queue_authority''] queue_authority) (\<lambda>qb.
          and_then (writable queue_authority) (\<lambda>_.
          and_then (ok_or (compile_transaction h [scheduled_update_ix h (ai_key ua)]) Panicked) (\<lambda>tx.
          and_then (queue_task_v0 h (ai_key tuktuk)
            [ai_key payer, ai_key queue_authority, ai_key task_queue, ai_key task_queue_authority,
             ai_key task, ai_key system]
            \<lparr>qt_trigger = Trigger_Now, qt_transaction = tx, qt_crank_reward = Some 1000001,
             qt_free_tasks = 0, qt_id = task_id, qt_description = ''magicblock-user-data-update''\<rparr>
            [[byte_string ''queue_authority'', [qb]]] L) (\<lambda>L.
          user_account_exit h (ai_key ua) u L))))))))))))
      | _ \<Rightarrow> Inl AccountNotEnoughKeys)"

definition delegate :: "er_host \<Rightarrow> account_info list \<Rightarrow> ledger \<Rightarrow> er_err + ledger" where
  "delegate h accounts L =
     (case accounts of
        user # buffer # delegation_record # delegation_metadata # ua # validator # system # rest \<Rightarrow>
          and_then (signed user) (\<lambda>_.
          and_then (user_account_load h L (ai_key ua)) (\<lambda>u.
          and_then (program h (\<lambda>p. p = system_program_ID) system) (\<lambda>_.
          and_then (writable user) (\<lambda>_.
          and_then (user_account_constraints h (ai_key user) ua u) (\<lambda>_.
          and_then (delegate_account h (ai_key user) (ai_key ua) (user_seeds (ai_key user))
            (Some (ai_key validator)) ([buffer, delegation_record, delegation_metadata] @ rest) L) (\<lambda>L.
          user_account_exit h (ai_key ua) u L))))))
      | _ \<Rightarrow> Inl AccountNotEnoughKeys)"

definition undelegate :: "er_host \<Rightarrow> account_info list \<Rightarrow> ledger \<Rightarrow> er_err + ledger" where
  "undelegate h accounts L =
     (case accounts of
        user # ua # rest \<Rightarrow>
          and_then (signed user) (\<lambda>_.
          and_then (user_account_load h L (ai_key ua)) (\<lambda>u.
          and_then (writable user) (\<lambda>_.
          and_then (user_account_constraints h (ai_key user) ua u) (\<lambda>_.
          and_then (commit_and_undelegate_accounts h (ai_key user) [ai_key ua] rest L) (\<lambda>L.
          user_account_exit h (ai_key ua) u L)))))
      | _ \<Rightarrow> Inl AccountNotEnoughKeys)"

definition close_user :: "er_host \<Rightarrow> account_info list \<Rightarrow> ledger \<Rightarrow> er_err + ledger" where
  "close_user h accounts L =
     (case accounts of
        user # ua # system # _ \<Rightarrow>
          and_then (signed user) (\<lambda>_.
          and_then (user_account_load h L (ai_key ua)) (\<lambda>u.
          and_then (program h (\<lambda>p. p = system_program_ID) system) (\<lambda>_.
          and_then (writable user) (\<lambda>_.
          and_then (user_account_constraints h (ai_key user) ua u) (\<lambda>_.
          and_then (require (ai_key ua \<noteq> ai_key user) ConstraintClose) (\<lambda>_.
          anchor_close (ai_key ua) (ai_key user) L))))))
      | _ \<Rightarrow> Inl AccountNotEnoughKeys)"

section \<open>The program\<close>

datatype er_instruction =
    Er_Initialize
  | Update u64
  | Update_Commit u64
  | Request_Random_Update u8
  | Request_Random_Update_Er u8
  | Consume_Random_Update "u8 list"
  | Scheduled_Update
  | Schedule_Tuktuk_Update u16
  | Delegate
  | Undelegate
  | Close_User

fun er_state_account ::
  "er_host \<Rightarrow> er_instruction \<Rightarrow> account_info list \<Rightarrow> ledger \<Rightarrow> er_err + ledger" where
  "er_state_account h Er_Initialize = er_initialize h"
| "er_state_account h (Update new_data) = update h new_data"
| "er_state_account h (Update_Commit new_data) = update_commit h new_data"
| "er_state_account h (Request_Random_Update seed) = request_random_update h seed"
| "er_state_account h (Request_Random_Update_Er seed) = request_random_update_er h seed"
| "er_state_account h (Consume_Random_Update randomness) = consume_random_update h randomness"
| "er_state_account h Scheduled_Update = scheduled_update h"
| "er_state_account h (Schedule_Tuktuk_Update task_id) = schedule_tuktuk_update h task_id"
| "er_state_account h Delegate = delegate h"
| "er_state_account h Undelegate = undelegate h"
| "er_state_account h Close_User = close_user h"

end
