(* ===== verification/Rollup_Steps.thy ===== *)
theory Rollup_Steps
  imports Rollup_Program
begin

text \<open>
  What each instruction of \<open>er-state-account\<close> does to the user accounts, and its instance of
  the contract \<open>account_history\<close>. \<open>er_law\<close> states what the documentation of the system, rollup,
  randomness and scheduling programs promises of their calls.
\<close>

section \<open>What the documentation promises\<close>

definition er_init_law :: "er_host \<Rightarrow> bool" where
  "er_init_law h \<longleftrightarrow>
     length (er_discriminator h) = 8 \<and>
     (\<forall>p k n s L L'. er_init_account h p k n s L = Inr L' \<longrightarrow>
        foreign_change er_ID L L' \<and> acc_owner (L k) = system_program_ID \<and>
        acc_owner (L' k) = er_ID \<and> acc_data (L' k) = replicate n 0)"

definition er_call_law :: "er_host \<Rightarrow> bool" where
  "er_call_law h \<longleftrightarrow>
     (\<forall>p ks r L L'. commit_accounts h p ks r L = Inr L' \<longrightarrow> foreign_change er_ID L L') \<and>
     (\<forall>p q r L L'. invoke_signed_vrf h p q r L = Inr L' \<longrightarrow> foreign_change er_ID L L') \<and>
     queue_task_law er_ID h"

definition er_delegation_law :: "er_host \<Rightarrow> bool" where
  "er_delegation_law h \<longleftrightarrow>
     (\<forall>p k s v r L L'. delegate_account h p k s v r L = Inr L' \<longrightarrow> kept er_ID k L L') \<and>
     (\<forall>p k r L L'. commit_and_undelegate_accounts h p [k] r L = Inr L' \<longrightarrow> kept er_ID k L L')"

text \<open>Different users have different addresses; \<open>init\<close> and the later checks derive the same one.\<close>

definition er_address_law :: "er_host \<Rightarrow> bool" where
  "er_address_law h \<longleftrightarrow>
     address_law h \<and>
     (\<forall>a a' b b' k. create_program_address h (user_seeds a @ [[b]]) er_ID = Some k \<longrightarrow>
        create_program_address h (user_seeds a' @ [[b']]) er_ID = Some k \<longrightarrow> a' = a)"

definition er_law :: "er_host \<Rightarrow> bool" where
  "er_law h \<longleftrightarrow> er_init_law h \<and> er_call_law h \<and> er_delegation_law h \<and> er_address_law h"

lemma er_init_call:
  "er_law h \<Longrightarrow> er_init_account h p k n s L = Inr L' \<Longrightarrow>
     foreign_change er_ID L L' \<and> acc_owner (L k) = system_program_ID \<and> acc_owner (L' k) = er_ID \<and>
     acc_data (L' k) = replicate n 0"
  unfolding er_law_def er_init_law_def by (elim conjE) meson

lemma er_calls:
  "er_law h \<Longrightarrow> commit_accounts h p ks r L = Inr L' \<Longrightarrow> foreign_change er_ID L L'"
  "er_law h \<Longrightarrow> invoke_signed_vrf h p q r L = Inr L' \<Longrightarrow> foreign_change er_ID L L'"
  "er_law h \<Longrightarrow> queue_task_v0 h p ks t s L = Inr L' \<Longrightarrow> foreign_change er_ID L L'"
  "er_law h \<Longrightarrow> delegate_account h p k sd v r L = Inr L' \<Longrightarrow> kept er_ID k L L'"
  "er_law h \<Longrightarrow> commit_and_undelegate_accounts h p [k] r L = Inr L' \<Longrightarrow> kept er_ID k L L'"
  unfolding er_law_def er_call_law_def er_delegation_law_def queue_task_law_def
  by (elim conjE, meson)+

lemma er_discriminator_length: "er_law h \<Longrightarrow> length (er_discriminator h) = 8"
  by (simp add: er_law_def er_init_law_def)

lemma er_same_user:
  "er_law h \<Longrightarrow> create_program_address h (user_seeds a @ [[b]]) er_ID = Some k \<Longrightarrow>
     create_program_address h (user_seeds a' @ [[b']]) er_ID = Some k \<Longrightarrow> a' = a"
  unfolding er_law_def er_address_law_def by (elim conjE) meson

lemma er_find:
  "er_law h \<Longrightarrow> find_program_address h seeds er_ID = (a, b) \<Longrightarrow>
     create_program_address h (seeds @ [[b]]) er_ID = Some a"
  by (simp add: er_law_def er_address_law_def address_law_def)

lemma er_ID_not_system [simp]: "er_ID \<noteq> system_program_ID" "system_program_ID \<noteq> er_ID"
  by (simp_all add: er_ID_def system_program_ID_def)

section \<open>The stored account\<close>

definition er_at :: "er_host \<Rightarrow> address \<Rightarrow> user_account \<Rightarrow> ledger \<Rightarrow> bool" where
  "er_at h k u L \<longleftrightarrow>
     account_holds er_ID (er_discriminator h) user_account_serialize 41 k u L"

lemma er_load_at: "er_at h k u L \<Longrightarrow> user_account_load h L k = Inr u"
  unfolding er_at_def user_account_load_def by (rule user_account.load_holds) simp_all

lemma er_at_owner: "er_at h k u L \<Longrightarrow> acc_owner (L k) = er_ID"
  by (simp add: er_at_def account_holds_def)

lemma exit_kept: "user_account_exit h k u L = Inr L' \<Longrightarrow> kept er_ID k L L'"
  unfolding user_account_exit_def by (rule account_exit_kept)

section \<open>Instructions as operations on the account\<close>

text \<open>The account an instruction is about.\<close>

fun er_subject :: "er_instruction event \<Rightarrow> address option" where
  "er_subject (Scheduled_Update, ua # _) = Some (ai_key ua)"
| "er_subject (Delegate, _ # _ # _ # _ # ua # _) = Some (ai_key ua)"
| "er_subject (Delegate, _) = None"
| "er_subject (i, _ # ua # _) = Some (ai_key ua)"
| "er_subject _ = None"

fun data_after :: "er_instruction \<Rightarrow> u64 \<Rightarrow> u64" where
  "data_after (Update new_data) d = new_data"
| "data_after (Update_Commit new_data) d = new_data"
| "data_after (Consume_Random_Update randomness) d = from_le_bytes (take 8 randomness)"
| "data_after Scheduled_Update d = saturating_add d 1"
| "data_after _ d = d"

text \<open>Instructions after which the account is no longer the program's on this ledger.\<close>

fun leaves :: "er_instruction \<Rightarrow> bool" where
  "leaves Delegate \<longleftrightarrow> True"
| "leaves Undelegate \<longleftrightarrow> True"
| "leaves Close_User \<longleftrightarrow> True"
| "leaves _ \<longleftrightarrow> False"

text \<open>Whose signature an instruction needs.\<close>

fun signed_for :: "er_host \<Rightarrow> address \<Rightarrow> er_instruction event \<Rightarrow> bool" where
  "signed_for h user (Er_Initialize, accounts) \<longleftrightarrow> False"
| "signed_for h user (Scheduled_Update, accounts) \<longleftrightarrow> True"
| "signed_for h user (Schedule_Tuktuk_Update task_id, accounts) \<longleftrightarrow> True"
| "signed_for h user (Consume_Random_Update randomness, accounts) \<longleftrightarrow>
     ai_is_signer (accounts ! 0) \<and> ai_key (accounts ! 0) = VRF_PROGRAM_IDENTITY h"
| "signed_for h user (i, accounts) \<longleftrightarrow> ai_is_signer (accounts ! 0) \<and> ai_key (accounts ! 0) = user"

definition er_holds :: "er_host \<Rightarrow> address \<Rightarrow> user_account option \<Rightarrow> ledger \<Rightarrow> bool" where
  "er_holds h k v L \<longleftrightarrow>
     (case v of
        None \<Rightarrow> True
      | Some u \<Rightarrow>
          er_at h k u L \<and>
          create_program_address h (user_seeds (ua_user u) @ [[ua_bump u]]) er_ID = Some k)"

definition er_operation ::
  "er_instruction event \<Rightarrow> user_account option \<Rightarrow> user_account option" where
  "er_operation e v =
     (if leaves (fst e) then None
      else map_option (\<lambda>u. u\<lparr>ua_data := data_after (fst e) (ua_data u)\<rparr>) v)"

definition er_authorised ::
  "er_host \<Rightarrow> er_instruction event \<Rightarrow> user_account option \<Rightarrow> bool" where
  "er_authorised h e v \<longleftrightarrow> (case v of None \<Rightarrow> True | Some u \<Rightarrow> signed_for h (ua_user u) e)"

text \<open>What one accepted instruction does, for the account \<open>k\<close> it names.\<close>

definition er_effect ::
  "er_host \<Rightarrow> er_instruction \<Rightarrow> account_info list \<Rightarrow> address \<Rightarrow> ledger \<Rightarrow> ledger \<Rightarrow> bool" where
  "er_effect h i accounts k L L' \<longleftrightarrow>
     er_subject (i, accounts) = Some k \<and> kept er_ID k L L' \<and>
     (\<forall>u. er_at h k u L \<longrightarrow>
        create_program_address h (user_seeds (ua_user u) @ [[ua_bump u]]) er_ID = Some k \<longrightarrow>
        signed_for h (ua_user u) (i, accounts) \<and>
        (\<not> leaves i \<longrightarrow> er_at h k (u\<lparr>ua_data := data_after i (ua_data u)\<rparr>) L'))"

lemma constraints_Inr [res_simps]:
  "user_account_constraints h user ua u = Inr x \<longleftrightarrow>
     create_program_address h (user_seeds user @ [[ua_bump u]]) er_ID = Some (ai_key ua) \<and>
     ai_is_writable ua"
  by (simp add: user_account_constraints_def res_simps)

lemma written:
  assumes f: "foreign_change er_ID L L1" and run: "user_account_exit h k u L1 = Inr L'"
  shows "kept er_ID k L L'" and "er_at h k v L \<Longrightarrow> er_at h k u L'"
  using kept_trans [OF foreign_kept [OF f] exit_kept [OF run]]
    user_account.exit_after [OF TrueI f _ run [unfolded user_account_exit_def]]
  by (auto simp: er_at_def)

lemma loaded:
  assumes "user_account_load h L k = Inr u'" and "er_at h k u L"
  shows "u' = u"
  using assms er_load_at by fastforce

lemma initialize_effect:
  assumes law: "er_law h" and run: "er_initialize h accounts L = Inr L'"
  obtains user ua rest bump where "accounts = user # ua # rest" and "ai_is_signer user"
    and "acc_owner (L (ai_key ua)) = system_program_ID" and "kept er_ID (ai_key ua) L L'"
    and "er_holds h (ai_key ua) (Some \<lparr>ua_user = ai_key user, ua_data = 0, ua_bump = bump\<rparr>) L'"
proof -
  obtain user ua system rest where accounts: "accounts = user # ua # system # rest"
    using run by (auto simp: er_initialize_def split: list.splits)
  from run obtain bump L1 where signer: "ai_is_signer user"
    and pda: "seeds_canonical h er_ID (user_seeds (ai_key user)) ua = (Inr bump :: er_err + u8)"
    and init: "er_init_account h (ai_key user) (ai_key ua) user_account_INIT_SPACE
      (user_seeds (ai_key user) @ [[bump]]) L = Inr L1"
    and exit: "user_account_exit h (ai_key ua)
      \<lparr>ua_user = ai_key user, ua_data = 0, ua_bump = bump\<rparr> L1 = Inr L'"
    unfolding accounts er_initialize_def list.case and_then_Inr_iff check_Inr by blast
  note i = er_init_call [OF law init]
  then have len: "length (acc_data (L1 (ai_key ua))) = length (er_discriminator h) + 41"
    by (simp add: user_account_INIT_SPACE_def er_discriminator_length [OF law])
  have own: "acc_owner (L1 (ai_key ua)) = er_ID"
    using i by simp
  obtain L2 where "user_account_exit h (ai_key ua) \<lparr>ua_user = ai_key user, ua_data = 0, ua_bump = bump\<rparr>
      L1 = Inr L2"
    and "er_at h (ai_key ua) \<lparr>ua_user = ai_key user, ua_data = 0, ua_bump = bump\<rparr> L2"
    unfolding user_account_exit_def er_at_def
    by (rule user_account.exit_holds [where L = L1, OF TrueI own len]) blast
  then have at: "er_at h (ai_key ua) \<lparr>ua_user = ai_key user, ua_data = 0, ua_bump = bump\<rparr> L'"
    using exit by simp
  have "find_program_address h (user_seeds (ai_key user)) er_ID = (ai_key ua, bump)"
    using pda by (simp add: res_simps)
  from er_find [OF law this] at
  have holds: "er_holds h (ai_key ua) (Some \<lparr>ua_user = ai_key user, ua_data = 0, ua_bump = bump\<rparr>) L'"
    by (simp add: er_holds_def)
  have "kept er_ID (ai_key ua) L L'"
    using kept_trans [OF foreign_kept exit_kept [OF exit]] i by blast
  then show ?thesis
    using that [OF accounts signer _ _ holds] i by simp
qed

lemma update_effect:
  assumes law: "er_law h" and run: "update h new_data accounts L = Inr L'"
  shows "\<exists>k. er_effect h (Update new_data) accounts k L L'"
proof -
  obtain user ua rest where accounts: "accounts = user # ua # rest"
    using run by (auto simp: update_def split: list.splits)
  from run obtain u where "ai_is_signer user" and u: "user_account_load h L (ai_key ua) = Inr u"
    and "create_program_address h (user_seeds (ai_key user) @ [[ua_bump u]]) er_ID = Some (ai_key ua)"
    and x: "user_account_exit h (ai_key ua) (u\<lparr>ua_data := new_data\<rparr>) L = Inr L'"
    by (auto simp: update_def accounts res_simps)
  then show ?thesis
    using written [OF foreign_change_refl x] loaded [OF u] er_same_user [OF law]
    by (auto simp: er_effect_def accounts)
qed

lemma update_commit_effect:
  assumes law: "er_law h" and run: "update_commit h new_data accounts L = Inr L'"
  shows "\<exists>k. er_effect h (Update_Commit new_data) accounts k L L'"
proof -
  obtain user ua rest where accounts: "accounts = user # ua # rest"
    using run by (auto simp: update_commit_def split: list.splits)
  from run obtain u L1 where "ai_is_signer user" and u: "user_account_load h L (ai_key ua) = Inr u"
    and "create_program_address h (user_seeds (ai_key user) @ [[ua_bump u]]) er_ID = Some (ai_key ua)"
    and c: "commit_accounts h (ai_key user) [ai_key ua] rest L = Inr L1"
    and x: "user_account_exit h (ai_key ua) (u\<lparr>ua_data := new_data\<rparr>) L1 = Inr L'"
    by (auto simp: update_commit_def accounts res_simps)
  then show ?thesis
    using written [OF er_calls(1) [OF law c] x] loaded [OF u] er_same_user [OF law]
    by (auto simp: er_effect_def accounts)
qed

lemma request_effect:
  assumes law: "er_law h" and run: "request_random h q client_seed accounts L = Inr L'"
    and i: "i = Request_Random_Update client_seed \<or> i = Request_Random_Update_Er client_seed"
  shows "\<exists>k. er_effect h i accounts k L L'"
proof -
  obtain user ua queue rest where accounts: "accounts = user # ua # queue # rest"
    using run by (auto simp: request_random_def split: list.splits)
  from run obtain u r where "ai_is_signer user" and u: "user_account_load h L (ai_key ua) = Inr u"
    and "create_program_address h (user_seeds (ai_key user) @ [[ua_bump u]]) er_ID = Some (ai_key ua)"
    and c: "invoke_signed_vrf h (ai_key user) r rest L = Inr L'"
    by (auto simp: request_random_def accounts res_simps)
  moreover note f = er_calls(2) [OF law c]
  have "er_at h (ai_key ua) v L'" if "er_at h (ai_key ua) v L" for v
    using that foreign_change_account_holds [OF f] by (simp add: er_at_def)
  ultimately show ?thesis
    using foreign_kept [OF f] loaded [OF u] er_same_user [OF law] i
    by (auto simp: er_effect_def accounts)
qed

lemma consume_effect:
  assumes law: "er_law h" and run: "consume_random_update h randomness accounts L = Inr L'"
  shows "\<exists>k. er_effect h (Consume_Random_Update randomness) accounts k L L'"
proof -
  obtain identity ua rest where accounts: "accounts = identity # ua # rest"
    using run by (auto simp: consume_random_update_def split: list.splits)
  from run obtain u where "ai_is_signer identity" "ai_key identity = VRF_PROGRAM_IDENTITY h"
    and u: "user_account_load h L (ai_key ua) = Inr u"
    and x: "user_account_exit h (ai_key ua) (u\<lparr>ua_data := from_le_bytes (take 8 randomness)\<rparr>) L = Inr L'"
    by (auto simp: consume_random_update_def accounts res_simps)
  then show ?thesis
    using written [OF foreign_change_refl x] loaded [OF u]
    by (auto simp: er_effect_def accounts)
qed

lemma scheduled_effect:
  assumes law: "er_law h" and run: "scheduled_update h accounts L = Inr L'"
  shows "\<exists>k. er_effect h Scheduled_Update accounts k L L'"
proof -
  obtain ua rest where accounts: "accounts = ua # rest"
    using run by (auto simp: scheduled_update_def split: list.splits)
  from run obtain u where u: "user_account_load h L (ai_key ua) = Inr u"
    and x: "user_account_exit h (ai_key ua) (u\<lparr>ua_data := saturating_add (ua_data u) 1\<rparr>) L = Inr L'"
    by (auto simp: scheduled_update_def accounts res_simps)
  then show ?thesis
    using written [OF foreign_change_refl x] loaded [OF u]
    by (auto simp: er_effect_def accounts)
qed

lemma schedule_effect:
  assumes law: "er_law h" and run: "schedule_tuktuk_update h task_id accounts L = Inr L'"
  shows "\<exists>k. er_effect h (Schedule_Tuktuk_Update task_id) accounts k L L'"
proof -
  obtain payer ua q qa t a system tuktuk rest where
    accounts: "accounts = payer # ua # q # qa # t # a # system # tuktuk # rest"
    using run by (auto simp: schedule_tuktuk_update_def split: list.splits)
  from run obtain u p ks args s L1 where u: "user_account_load h L (ai_key ua) = Inr u"
    and c: "queue_task_v0 h p ks args s L = Inr L1"
    and x: "user_account_exit h (ai_key ua) u L1 = Inr L'"
    unfolding accounts schedule_tuktuk_update_def list.case and_then_Inr_iff check_Inr by blast
  then show ?thesis
    using written [OF er_calls(3) [OF law c] x] loaded [OF u]
    by (auto simp: er_effect_def accounts)
qed

lemma leave_effect:
  assumes law: "er_law h"
  shows "delegate h accounts L = Inr L' \<Longrightarrow> \<exists>k. er_effect h Delegate accounts k L L'"
    and "undelegate h accounts L = Inr L' \<Longrightarrow> \<exists>k. er_effect h Undelegate accounts k L L'"
    and "close_user h accounts L = Inr L' \<Longrightarrow> \<exists>k. er_effect h Close_User accounts k L L'"
proof -
  assume run: "delegate h accounts L = Inr L'"
  then obtain user b r m ua v system rest where
    accounts: "accounts = user # b # r # m # ua # v # system # rest"
    by (auto simp: delegate_def split: list.splits)
  from run obtain u s L1 where "ai_is_signer user" and u: "user_account_load h L (ai_key ua) = Inr u"
    and "create_program_address h (user_seeds (ai_key user) @ [[ua_bump u]]) er_ID = Some (ai_key ua)"
    and c: "delegate_account h (ai_key user) (ai_key ua) s (Some (ai_key v))
      ([b, r, m] @ rest) L = Inr L1"
    and x: "user_account_exit h (ai_key ua) u L1 = Inr L'"
    by (auto simp: delegate_def accounts res_simps)
  then show "\<exists>k. er_effect h Delegate accounts k L L'"
    using kept_trans [OF er_calls(4) [OF law c] exit_kept [OF x]] loaded [OF u] er_same_user [OF law]
    by (auto simp: er_effect_def accounts)
next
  assume run: "undelegate h accounts L = Inr L'"
  then obtain user ua rest where accounts: "accounts = user # ua # rest"
    by (auto simp: undelegate_def split: list.splits)
  from run obtain u L1 where "ai_is_signer user" and u: "user_account_load h L (ai_key ua) = Inr u"
    and "create_program_address h (user_seeds (ai_key user) @ [[ua_bump u]]) er_ID = Some (ai_key ua)"
    and c: "commit_and_undelegate_accounts h (ai_key user) [ai_key ua] rest L = Inr L1"
    and x: "user_account_exit h (ai_key ua) u L1 = Inr L'"
    by (auto simp: undelegate_def accounts res_simps)
  then show "\<exists>k. er_effect h Undelegate accounts k L L'"
    using kept_trans [OF er_calls(5) [OF law c] exit_kept [OF x]] loaded [OF u] er_same_user [OF law]
    by (auto simp: er_effect_def accounts)
next
  assume run: "close_user h accounts L = Inr L'"
  then obtain user ua system rest where accounts: "accounts = user # ua # system # rest"
    by (auto simp: close_user_def split: list.splits)
  from run obtain u where "ai_is_signer user" and u: "user_account_load h L (ai_key ua) = Inr u"
    and "create_program_address h (user_seeds (ai_key user) @ [[ua_bump u]]) er_ID = Some (ai_key ua)"
    and x: "anchor_close (ai_key ua) (ai_key user) L = (Inr L' :: er_err + ledger)"
    by (auto simp: close_user_def accounts res_simps)
  then show "\<exists>k. er_effect h Close_User accounts k L L'"
    using close_kept [OF x] loaded [OF u] er_same_user [OF law]
    by (auto simp: er_effect_def accounts)
qed

section \<open>The history of one account\<close>

lemma run_effect:
  assumes law: "er_law h" and run: "er_state_account h i accounts L = Inr L'"
    and i: "i \<noteq> Er_Initialize"
  shows "\<exists>k. er_effect h i accounts k L L'"
  using run i update_effect [OF law] update_commit_effect [OF law] consume_effect [OF law]
    scheduled_effect [OF law] schedule_effect [OF law] leave_effect [OF law]
    request_effect [OF law]
  by (cases i) (auto simp: request_random_update_def request_random_update_er_def)

lemma er_holds_Some:
  "er_holds h k (Some u) L \<longleftrightarrow> er_at h k u L \<and>
     create_program_address h (user_seeds (ua_user u) @ [[ua_bump u]]) er_ID = Some k"
  by (simp add: er_holds_def)

lemma er_holds_None [simp]: "er_holds h k None L"
  by (simp add: er_holds_def)

lemma er_holds_stays:
  assumes "er_holds h k v L" and "acc_owner (L k) = er_ID \<Longrightarrow> same_state (L' k) (L k)"
  shows "er_holds h k v L'"
proof (cases v)
  case (Some u)
  then have at: "er_at h k u L"
    using assms(1) by (simp add: er_holds_Some)
  then have "er_at h k u L'"
    using account_holds_same [where k = k and L = L and L' = L', OF _ assms(2) [OF er_at_owner [OF at]]] by (simp add: er_at_def)
  then show ?thesis
    using Some assms(1) by (simp add: er_holds_Some)
qed simp

text \<open>The case \<open>initialize\<close>: the account was not the program's before.\<close>

lemma er_started:
  assumes law: "er_law h" and run: "er_initialize h accounts L = Inr L'"
  shows "\<exists>k. er_effect h Er_Initialize accounts k L L'"
proof (rule initialize_effect [OF law run])
  fix user ua rest
  assume accounts: "accounts = user # ua # rest"
    and new: "acc_owner (L (ai_key ua)) = system_program_ID" and "kept er_ID (ai_key ua) L L'"
  moreover have "\<not> er_at h (ai_key ua) u L" for u
    using new er_at_owner [of h "ai_key ua" u L] by auto
  ultimately show ?thesis
    by (auto simp: er_effect_def)
qed

text \<open>The program keeps the contract, for every host that behaves as documented.\<close>

interpretation er_program: account_program "er_state_account h" er_subject er_ID "er_holds h"
  er_operation "er_authorised h" "er_law h" for h
proof
  show "er_holds h k v L'" if "er_holds h k v L"
    and "acc_owner (L k) = er_ID \<Longrightarrow> same_state (L' k) (L k)" for k v L L'
    using that by (rule er_holds_stays)
next
  fix i accounts L L'
  assume law: "er_law h" and run: "er_state_account h i accounts L = Inr L'"
  obtain k where e: "er_effect h i accounts k L L'"
    using run_effect [OF law run] er_started [OF law, of accounts L L'] run by (cases "i = Er_Initialize") auto
  have "er_authorised h (i, accounts) v \<and> er_holds h k (er_operation (i, accounts) v) L'"
    if "er_holds h k v L" for v
    using e that
    by (cases v; cases "leaves i")
      (simp_all add: er_effect_def er_operation_def er_authorised_def er_holds_Some)
  with e show "case er_subject (i, accounts) of
      None \<Rightarrow> foreign_change er_ID L L'
    | Some k \<Rightarrow> kept er_ID k L L' \<and> (\<forall>v. er_holds h k v L \<longrightarrow>
        er_authorised h (i, accounts) v \<and> er_holds h k (er_operation (i, accounts) v) L')"
    by (simp add: er_effect_def)
qed

end
