(* ===== verification/Rollup_Theorems.thy ===== *)
theory Rollup_Theorems
  imports Rollup_Steps
begin

text \<open>
  The property of \<open>er-state-account\<close>: what a user account holds is what its history wrote, on a
  host that behaves as documented, with one such host and one history that show it can happen.
\<close>

section \<open>A host\<close>

definition er_demo_pda :: "u8 list list \<Rightarrow> address" where
  "er_demo_pda seeds = 1000 + from_le_bytes (seeds ! 1)"

definition er_demo_host :: er_host where
  "er_demo_host =
     \<lparr>create_program_address = (\<lambda>seeds p. Some (er_demo_pda seeds)),
      find_program_address = (\<lambda>seeds p. (er_demo_pda (seeds @ [[255]]), 255)),
      is_executable = (\<lambda>_. True), is_token_program = (\<lambda>_. False), associated_token_ID = 8, TUKTUK_ID = 80,
      compile_transaction = (\<lambda>ixs. Some []), queue_task_v0 = (\<lambda>p ks args s L. Inr L),
      er_discriminator = [1, 2, 3, 4, 5, 6, 7, 8], consume_discriminator = [9],
      scheduled_update_data = [10], VRF_PROGRAM_IDENTITY = 77, DEFAULT_QUEUE = 78,
      DEFAULT_EPHEMERAL_QUEUE = 79,
      er_init_account = (\<lambda>p k n s L.
        if acc_owner (L k) = system_program_ID
        then Inr (L(k := \<lparr>acc_lamports = 1, acc_owner = er_ID, acc_data = replicate n 0\<rparr>))
        else Inl AccountDidNotSerialize),
      commit_accounts = (\<lambda>p ks r L. Inr L),
      commit_and_undelegate_accounts = (\<lambda>p ks r L. Inr (L(hd ks := (L (hd ks))\<lparr>acc_owner := 99\<rparr>))),
      delegate_account = (\<lambda>p k s v r L. Inr (L(k := (L k)\<lparr>acc_owner := 99\<rparr>))),
      invoke_signed_vrf = (\<lambda>p q r L. Inr L)\<rparr>"

lemma er_demo_pda_user [simp]: "er_demo_pda (user_seeds a @ bs) = 1000 + a"
  by (simp add: er_demo_pda_def user_seeds_def address_bytes_def codec_simps nth_append)

lemma er_demo_law: "er_law er_demo_host"
proof -
  have "er_init_law er_demo_host"
    by (auto simp: er_init_law_def er_demo_host_def foreign_change_def same_state_def split: if_splits)
  moreover have "er_call_law er_demo_host"
    by (simp add: er_call_law_def queue_task_law_def er_demo_host_def)
  moreover have "er_delegation_law er_demo_host"
    by (auto simp: er_delegation_law_def er_demo_host_def kept_def same_state_def)
  moreover have "er_address_law er_demo_host"
    by (auto simp: er_address_law_def address_law_def er_demo_host_def er_demo_pda_def nth_append
        user_seeds_def address_bytes_def codec_simps split: if_splits)
  ultimately show ?thesis
    by (simp add: er_law_def)
qed

section \<open>A history\<close>

definition er_info :: "address \<Rightarrow> account_info" where
  "er_info k = \<lparr>ai_key = k, ai_is_signer = (k = 10 \<or> k = 77), ai_is_writable = True\<rparr>"

definition er_value :: "u64 \<Rightarrow> user_account" where
  "er_value d = \<lparr>ua_user = 10, ua_data = d, ua_bump = 255\<rparr>"

definition er_stored :: "user_account \<Rightarrow> account" where
  "er_stored u =
     \<lparr>acc_lamports = 1, acc_owner = er_ID, acc_data = [1, 2, 3, 4, 5, 6, 7, 8] @ user_account_serialize u\<rparr>"

definition er_ledger :: "u64 \<Rightarrow> ledger" where
  "er_ledger d = (\<lambda>_. closed_account)(1010 := er_stored (er_value d))"

definition er_events :: "er_instruction event list" where
  "er_events =
     [(Update 5, map er_info [10, 1010]), (Scheduled_Update, [er_info 1010]),
      (Consume_Random_Update [1, 2, 0, 0, 0, 0, 0, 0, 7], map er_info [77, 1010]),
      (Scheduled_Update, [er_info 1010])]"

lemma er_demo_fields [simp]:
  "er_discriminator er_demo_host = [1, 2, 3, 4, 5, 6, 7, 8]"
  "create_program_address er_demo_host seeds p = Some (er_demo_pda seeds)"
  "find_program_address er_demo_host seeds p = (er_demo_pda (seeds @ [[255]]), 255)"
  "is_executable er_demo_host a" "VRF_PROGRAM_IDENTITY er_demo_host = 77"
  "er_init_account er_demo_host p k n s L =
     (if acc_owner (L k) = system_program_ID
      then Inr (L(k := \<lparr>acc_lamports = 1, acc_owner = er_ID, acc_data = replicate n 0\<rparr>))
      else Inl AccountDidNotSerialize)"
  by (simp_all add: er_demo_host_def)

lemma er_demo_load [simp]:
  "user_account_load er_demo_host (er_ledger d) 1010 = Inr (er_value d)"
  by (rule er_load_at)
    (simp add: er_at_def account_holds_def er_ledger_def er_stored_def user_account_serialize_def)

lemma er_demo_exit:
  assumes "acc_lamports (L k) = 1" and "acc_owner (L k) = er_ID" and "length (acc_data (L k)) = 49"
  shows "user_account_exit er_demo_host k u L = Inr (L(k := er_stored u))"
  using assms
  by (cases "L k") (simp add: user_account_exit_def account_exit_def write_over_def er_stored_def
      user_account_serialize_def)

lemma er_demo_write [simp]:
  "user_account_exit er_demo_host 1010 (er_value d') (er_ledger d) = Inr (er_ledger d')"
  by (subst er_demo_exit) (simp_all add: er_ledger_def er_stored_def user_account_serialize_def)

lemma er_demo_steps:
  "er_initialize er_demo_host (map er_info [10, 1010, 0]) (\<lambda>_. closed_account) = Inr (er_ledger 0)"
  "er_state_account er_demo_host (Update n) (map er_info [10, 1010]) (er_ledger d) = Inr (er_ledger n)"
  "er_state_account er_demo_host (Consume_Random_Update r) (map er_info [77, 1010]) (er_ledger d) =
     Inr (er_ledger (from_le_bytes (take 8 r)))"
  "er_state_account er_demo_host Scheduled_Update [er_info 1010] (er_ledger d) =
     Inr (er_ledger (saturating_add d 1))"
proof -
  have fields: "(er_value d)\<lparr>ua_data := d'\<rparr> = er_value d'" "ua_user (er_value d) = 10"
      "ua_data (er_value d) = d" for d d'
    by (simp_all add: er_value_def)
  have init: "(\<lambda>_. closed_account) (1010 := er_stored \<lparr>ua_user = 10, ua_data = 0, ua_bump = 255\<rparr>) =
      er_ledger 0"
    by (simp add: er_ledger_def er_value_def)
  note defs = er_info_def signed_def writable_def require_def seeds_with_bump_def
    user_account_constraints_def program_def seeds_canonical_def fields
  show "er_initialize er_demo_host (map er_info [10, 1010, 0]) (\<lambda>_. closed_account) = Inr (er_ledger 0)"
    by (simp add: er_initialize_def defs closed_account_def er_demo_exit
        user_account_INIT_SPACE_def system_program_ID_def init [unfolded closed_account_def system_program_ID_def])
  show "er_state_account er_demo_host (Update n) (map er_info [10, 1010]) (er_ledger d) =
      Inr (er_ledger n)"
    by (simp add: update_def defs)
  show "er_state_account er_demo_host (Consume_Random_Update r) (map er_info [77, 1010]) (er_ledger d) =
     Inr (er_ledger (from_le_bytes (take 8 r)))"
    by (simp add: consume_random_update_def defs)
  show "er_state_account er_demo_host Scheduled_Update [er_info 1010] (er_ledger d) =
     Inr (er_ledger (saturating_add d 1))"
    by (simp add: scheduled_update_def defs)
qed

section \<open>The property\<close>

lemma fold_stays:
  "\<not> (\<exists>e\<in>set es. leaves (fst e)) \<Longrightarrow>
     fold er_operation es (Some u) = Some (u\<lparr>ua_data := fold (data_after \<circ> fst) es (ua_data u)\<rparr>)"
  by (induction es arbitrary: u) (simp_all add: er_operation_def)

text \<open>C38: from \<open>initialize\<close> on, whatever other instructions and programs do, the user's account
  holds what its history wrote: the last value set or drawn, counted up by the scheduled updates
  since, saturating, until the account is delegated, undelegated or closed. Every instruction that
  names the account meanwhile is signed by the user, except the scheduled updates, which anybody may
  send, and the random values, which the identity of the randomness program signs.\<close>

theorem user_data_is_history:
  assumes "er_law h" and "er_initialize h accounts L0 = Inr L1"
    and "history_run (er_state_account h) (\<lambda>e. er_subject e = Some (ai_key (accounts ! 1)))
      (foreign_change er_ID) L1 es L"
  shows "(\<not> (\<exists>e\<in>set es. leaves (fst e)) \<longrightarrow>
      (\<exists>u. user_account_load h L (ai_key (accounts ! 1)) = Inr u \<and>
        ua_user u = ai_key (accounts ! 0) \<and> ua_data u = fold (data_after \<circ> fst) es 0)) \<and>
    (\<forall>before e after. es = before @ [e] @ after \<longrightarrow> \<not> (\<exists>e\<in>set before. leaves (fst e)) \<longrightarrow>
      signed_for h (ai_key (accounts ! 0)) e)"
proof -
  obtain user ua rest bump where accounts: "accounts = user # ua # rest"
    and start: "er_holds h (ai_key ua) (Some \<lparr>ua_user = ai_key user, ua_data = 0, ua_bump = bump\<rparr>) L1"
    by (rule initialize_effect [OF assms(1,2)])
  have run: "history_run (er_state_account h) (\<lambda>e. er_subject e = Some (ai_key ua))
      (foreign_change er_ID) L1 es L"
    using assms(3) by (simp add: accounts)
  note holds = er_program.history.run_holds [OF run, rule_format, OF _ assms(1)]
    and authorised = er_program.history.run_authorised [OF run, rule_format, OF _ _ assms(1)]
  have "\<exists>u. user_account_load h L (ai_key ua) = Inr u \<and> ua_user u = ai_key user \<and>
      ua_data u = fold (data_after \<circ> fst) es 0" if "\<not> (\<exists>e\<in>set es. leaves (fst e))"
    using holds [OF start] by (auto simp: fold_stays [OF that] er_holds_Some dest!: er_load_at)
  moreover have "signed_for h (ai_key user) e"
    if "es = before @ [e] @ after" and "\<not> (\<exists>e\<in>set before. leaves (fst e))" for before e after
    using authorised [OF start that(1)] by (simp add: fold_stays [OF that(2)] er_authorised_def)
  ultimately show ?thesis
    by (simp add: accounts)
qed

theorem user_data_is_history_witness:
  "\<exists>u. user_account_load er_demo_host (er_ledger 514) 1010 = Inr u \<and> ua_user u = 10 \<and>
     ua_data u = fold (data_after \<circ> fst) er_events 0 \<and> ua_data u = 514"
proof -
  let ?run = "history_run (er_state_account er_demo_host)
    (\<lambda>e. er_subject e = Some (ai_key (map er_info [10, 1010, 0] ! 1))) (foreign_change er_ID) (er_ledger 0)"
  have "?run [] (er_ledger 0)"
    by (rule history_run.start)
  note 1 = history_run.on [OF this er_demo_steps(2) [of 5]]
  note 2 = history_run.on [OF 1 er_demo_steps(4)]
  note 3 = history_run.on [OF 2 er_demo_steps(3) [of "[1, 2, 0, 0, 0, 0, 0, 0, 7]"]]
  note 4 = history_run.on [OF 3 er_demo_steps(4)]
  have "?run er_events (er_ledger 514)"
    using 4 by (simp add: er_events_def er_info_def saturating_add_def checked_add_def
        codec_simps)
  from user_data_is_history [OF er_demo_law er_demo_steps(1) this] show ?thesis
    by (simp add: er_events_def er_info_def saturating_add_def checked_add_def codec_simps)
qed

end
