(* ===== verification/Oracle_Program.thy ===== *)
theory Oracle_Program
  imports Task_Queue Rust_String
begin

text \<open>
  The program \<open>solana-gpt-oracle\<close> (\<open>solana_gpt_oracle_tuktuk\<close>): one state account with a
  prompt and the last response, requests to the MagicBlock GPT oracle that the program's treasury
  pays, the oracle's callback, and a request queued for later. The oracle program and the system
  program are parameters: fields of \<open>gpt_host\<close>.
\<close>

section \<open>The state\<close>

text \<open>\<open>declare_id!("HtxZqtUjDbMtkcs3e3BcBroJqXSaVKcyMjPS3QMJP8bd")\<close>, decoded.\<close>

definition gpt_ID :: address where
  "gpt_ID = 67146334257428825842178191510043316862187415978981184369861730628005461494523"

record oracle_state =
  os_bump :: u8
  os_treasury_bump :: u8
  os_requests :: u64
  os_llm_context :: address
  os_task_queue_authority :: address
  os_default_prompt :: rust_string
  os_last_response :: rust_string

text \<open>\<open>max_len\<close> of the two strings.\<close>

definition prompt_max_len :: nat where
  "prompt_max_len = 280"

definition response_max_len :: nat where
  "response_max_len = 512"

definition oracle_state_INIT_SPACE :: nat where
  "oracle_state_INIT_SPACE = 1 + 1 + 8 + 32 + 32 + (4 + prompt_max_len) + (4 + response_max_len)"

definition oracle_state_serialize :: "oracle_state \<Rightarrow> u8 list" where
  "oracle_state_serialize st =
     [os_bump st, os_treasury_bump st] @ to_le_bytes 8 (os_requests st) @
     address_bytes (os_llm_context st) @ address_bytes (os_task_queue_authority st) @
     string_serialize (os_default_prompt st) @ string_serialize (os_last_response st)"

definition oracle_state_deserialize :: "u8 list \<Rightarrow> oracle_state option" where
  "oracle_state_deserialize bs =
     Option.bind (read_le 1 bs) (\<lambda>(bump, bs).
     Option.bind (read_le 1 bs) (\<lambda>(treasury_bump, bs).
     Option.bind (read_le 8 bs) (\<lambda>(requests, bs).
     Option.bind (read_le 32 bs) (\<lambda>(llm_context, bs).
     Option.bind (read_le 32 bs) (\<lambda>(task_queue_authority, bs).
     Option.bind (read_string bs) (\<lambda>(default_prompt, bs).
     Option.bind (read_string bs) (\<lambda>(last_response, bs).
     Some \<lparr>os_bump = bump, os_treasury_bump = treasury_bump, os_requests = requests,
       os_llm_context = llm_context, os_task_queue_authority = task_queue_authority,
       os_default_prompt = default_prompt, os_last_response = last_response\<rparr>)))))))"

text \<open>The strings are texts and fit the space the account was created with.\<close>

definition oracle_state_ok :: "oracle_state \<Rightarrow> bool" where
  "oracle_state_ok st \<longleftrightarrow>
     utf8_valid (os_default_prompt st) \<and> length (os_default_prompt st) \<le> prompt_max_len \<and>
     utf8_valid (os_last_response st) \<and> length (os_last_response st) \<le> response_max_len"

interpretation oracle_account: anchor_account oracle_state_ok oracle_state_serialize
  oracle_state_deserialize oracle_state_INIT_SPACE
proof
  show "oracle_state_deserialize (oracle_state_serialize st @ rest) = Some st"
    if "oracle_state_ok st" for st rest
    using that
    by (simp add: oracle_state_deserialize_def oracle_state_serialize_def oracle_state_ok_def
        prompt_max_len_def response_max_len_def codec_simps read_le_append del: One_nat_def)
  show "length (oracle_state_serialize st) \<le> oracle_state_INIT_SPACE" if "oracle_state_ok st" for st
    using that by (simp add: oracle_state_serialize_def oracle_state_INIT_SPACE_def oracle_state_ok_def)
qed

section \<open>Parameters\<close>

datatype gpt_error =
    PromptTooLong
  | ResponseTooLong
  | ContextNotInitialized
  | TaskCompilationFailed
  | InvalidFundingAmount

type_synonym gpt_err = "gpt_error anchor_error"

text \<open>
  Of the oracle program: its address, the seeds of its accounts, the bytes of the counter as
  \<open>count.to_le_bytes()\<close>, whether an account is a context, and the two calls. Each call gets
  the accounts in the order of its struct.
\<close>

record gpt_host = "gpt_error tuktuk_env" +
  oracle_discriminator :: "u8 list"
  callback_discriminator :: "u8 list"
  request_gpt_data :: "u8 list"
  gpt_oracle_ID :: address
  context_seed :: "u8 list"
  interaction_seed :: "u8 list"
  counter_count :: "account \<Rightarrow> gpt_err + u8 list"
  context_account :: "account \<Rightarrow> gpt_err + unit"
  gpt_init_account ::
    "address \<Rightarrow> address \<Rightarrow> nat \<Rightarrow> address \<Rightarrow> signer_seeds \<Rightarrow> ledger \<Rightarrow> gpt_err + ledger"
  system_transfer :: "address \<Rightarrow> address \<Rightarrow> u64 \<Rightarrow> ledger \<Rightarrow> gpt_err + ledger"
  create_llm_context :: "address \<Rightarrow> address list \<Rightarrow> rust_string \<Rightarrow> ledger \<Rightarrow> gpt_err + ledger"
  interact_with_llm ::
    "address \<Rightarrow> address list \<Rightarrow> rust_string \<Rightarrow> address \<Rightarrow> u8 list \<Rightarrow> account_meta list option \<Rightarrow>
      signer_seeds list \<Rightarrow> ledger \<Rightarrow> gpt_err + ledger"

section \<open>What the instructions share\<close>

definition oracle_load :: "gpt_host \<Rightarrow> ledger \<Rightarrow> address \<Rightarrow> gpt_err + oracle_state" where
  "oracle_load h L k = account_load gpt_ID (oracle_discriminator h) oracle_state_deserialize L k"

definition oracle_exit ::
  "gpt_host \<Rightarrow> address \<Rightarrow> oracle_state \<Rightarrow> ledger \<Rightarrow> gpt_err + ledger" where
  "oracle_exit h k st L =
     account_exit gpt_ID (oracle_discriminator h) oracle_state_serialize k st L"

definition oracle_seeds :: "u8 list list" where
  "oracle_seeds = [byte_string ''oracle_state'']"

definition treasury_seeds :: "u8 list list" where
  "treasury_seeds = [byte_string ''treasury'']"

text \<open>\<open>mut, seeds = [b"oracle_state"], bump = oracle_state.bump\<close>.\<close>

definition oracle_constraints ::
  "gpt_host \<Rightarrow> account_info \<Rightarrow> oracle_state \<Rightarrow> gpt_err + unit" where
  "oracle_constraints h state st =
     and_then (seeds_with_bump h gpt_ID oracle_seeds (os_bump st) state) (\<lambda>_. writable state)"

text \<open>The two programs an instruction may ask for.\<close>

definition system_program :: "gpt_host \<Rightarrow> account_info \<Rightarrow> gpt_err + unit" where
  "system_program h a = program h (\<lambda>p. p = system_program_ID) a"

definition oracle_program :: "gpt_host \<Rightarrow> account_info \<Rightarrow> gpt_err + unit" where
  "oracle_program h a = program h (\<lambda>p. p = gpt_oracle_ID h) a"

definition interaction_seeds :: "gpt_host \<Rightarrow> account_info \<Rightarrow> account_info \<Rightarrow> u8 list list" where
  "interaction_seeds h treasury llm_context =
     [interaction_seed h, address_bytes (ai_key treasury), address_bytes (ai_key llm_context)]"

section \<open>Instructions\<close>

definition gpt_initialize ::
  "gpt_host \<Rightarrow> rust_string \<Rightarrow> address \<Rightarrow> account_info list \<Rightarrow> ledger \<Rightarrow> gpt_err + ledger" where
  "gpt_initialize h default_prompt task_queue_authority accounts L =
     (case accounts of
        payer # state # treasury # system # _ \<Rightarrow>
          and_then (signed payer) (\<lambda>_.
          and_then (system_program h system) (\<lambda>_.
          and_then (seeds_canonical h gpt_ID oracle_seeds state) (\<lambda>bump.
          and_then (gpt_init_account h (ai_key payer) (ai_key state) (8 + oracle_state_INIT_SPACE)
            gpt_ID (oracle_seeds @ [[bump]]) L) (\<lambda>L.
          and_then (writable state) (\<lambda>_.
          and_then (seeds_canonical h gpt_ID treasury_seeds treasury) (\<lambda>treasury_bump.
          and_then (gpt_init_account h (ai_key payer) (ai_key treasury) 0
            system_program_ID (treasury_seeds @ [[treasury_bump]]) L) (\<lambda>L.
          and_then (writable treasury) (\<lambda>_.
          and_then (writable payer) (\<lambda>_.
          and_then (require (length default_prompt \<le> 280) (Program_Error PromptTooLong)) (\<lambda>_.
          oracle_exit h (ai_key state)
            \<lparr>os_bump = bump, os_treasury_bump = treasury_bump, os_requests = 0, os_llm_context = 0,
             os_task_queue_authority = task_queue_authority, os_default_prompt = default_prompt,
             os_last_response = []\<rparr> L))))))))))
      | _ \<Rightarrow> Inl AccountNotEnoughKeys)"

definition create_context ::
  "gpt_host \<Rightarrow> rust_string \<Rightarrow> account_info list \<Rightarrow> ledger \<Rightarrow> gpt_err + ledger" where
  "create_context h agent_description accounts L =
     (case accounts of
        payer # state # counter # llm_context # system # oprogram # _ \<Rightarrow>
          and_then (signed payer) (\<lambda>_.
          and_then (oracle_load h L (ai_key state)) (\<lambda>st.
          and_then (counter_count h (L (ai_key counter))) (\<lambda>count.
          and_then (system_program h system) (\<lambda>_.
          and_then (oracle_program h oprogram) (\<lambda>_.
          and_then (writable payer) (\<lambda>_.
          and_then (oracle_constraints h state st) (\<lambda>_.
          and_then (seeds_canonical h (ai_key oprogram) [byte_string ''counter''] counter) (\<lambda>_.
          and_then (writable counter) (\<lambda>_.
          and_then (seeds_canonical h (ai_key oprogram) [context_seed h, count] llm_context) (\<lambda>_.
          and_then (writable llm_context) (\<lambda>_.
          and_then (require (length agent_description \<le> 280) (Program_Error PromptTooLong)) (\<lambda>_.
          and_then (create_llm_context h (ai_key oprogram)
            [ai_key payer, ai_key llm_context, ai_key counter, ai_key system] agent_description L) (\<lambda>L.
          oracle_exit h (ai_key state)
            (st\<lparr>os_llm_context := ai_key llm_context, os_default_prompt := agent_description\<rparr>)
            L)))))))))))))
      | _ \<Rightarrow> Inl AccountNotEnoughKeys)"

definition fund_treasury ::
  "gpt_host \<Rightarrow> u64 \<Rightarrow> account_info list \<Rightarrow> ledger \<Rightarrow> gpt_err + ledger" where
  "fund_treasury h lamports accounts L =
     (case accounts of
        payer # treasury # system # _ \<Rightarrow>
          and_then (signed payer) (\<lambda>_.
          and_then (system_program h system) (\<lambda>_.
          and_then (writable payer) (\<lambda>_.
          and_then (seeds_canonical h gpt_ID treasury_seeds treasury) (\<lambda>_.
          and_then (writable treasury) (\<lambda>_.
          and_then (require (0 < lamports) (Program_Error InvalidFundingAmount)) (\<lambda>_.
          system_transfer h (ai_key payer) (ai_key treasury) lamports L))))))
      | _ \<Rightarrow> Inl AccountNotEnoughKeys)"

definition request_gpt :: "gpt_host \<Rightarrow> account_info list \<Rightarrow> ledger \<Rightarrow> gpt_err + ledger" where
  "request_gpt h accounts L =
     (case accounts of
        state # treasury # interaction # llm_context # authority # system # oprogram # _ \<Rightarrow>
          and_then (oracle_load h L (ai_key state)) (\<lambda>st.
          and_then (context_account h (L (ai_key llm_context))) (\<lambda>_.
          and_then (signed authority) (\<lambda>_.
          and_then (system_program h system) (\<lambda>_.
          and_then (oracle_program h oprogram) (\<lambda>_.
          and_then (oracle_constraints h state st) (\<lambda>_.
          and_then (seeds_with_bump h gpt_ID treasury_seeds (os_treasury_bump st) treasury) (\<lambda>_.
          and_then (writable treasury) (\<lambda>_.
          and_then (seeds_canonical h (ai_key oprogram) (interaction_seeds h treasury llm_context)
            interaction) (\<lambda>_.
          and_then (writable interaction) (\<lambda>_.
          and_then (writable llm_context) (\<lambda>_.
          and_then (require (ai_key llm_context = os_llm_context st) ConstraintAddress) (\<lambda>_.
          and_then (require (ai_key authority = os_task_queue_authority st) ConstraintAddress) (\<lambda>_.
          and_then (require (os_llm_context st \<noteq> 0) (Program_Error ContextNotInitialized)) (\<lambda>_.
          and_then (interact_with_llm h (ai_key oprogram)
            [ai_key treasury, ai_key interaction, ai_key llm_context, ai_key system]
            (os_default_prompt st) gpt_ID
            (take 8 (callback_discriminator h @ string_serialize []))
            (Some [\<lparr>am_pubkey = ai_key state, am_is_signer = False, am_is_writable = True\<rparr>])
            [treasury_seeds @ [[os_treasury_bump st]]] L) (\<lambda>L.
          oracle_exit h (ai_key state)
            (st\<lparr>os_requests := saturating_add (os_requests st) 1\<rparr>) L)))))))))))))))
      | _ \<Rightarrow> Inl AccountNotEnoughKeys)"

definition process_oracle_callback ::
  "gpt_host \<Rightarrow> rust_string \<Rightarrow> account_info list \<Rightarrow> ledger \<Rightarrow> gpt_err + ledger" where
  "process_oracle_callback h response accounts L =
     (case accounts of
        identity # state # oprogram # _ \<Rightarrow>
          and_then (signed identity) (\<lambda>_.
          and_then (oracle_load h L (ai_key state)) (\<lambda>st.
          and_then (oracle_program h oprogram) (\<lambda>_.
          and_then (seeds_canonical h (ai_key oprogram) [byte_string ''identity''] identity) (\<lambda>_.
          and_then (oracle_constraints h state st) (\<lambda>_.
          and_then (require (length response \<le> 512) (Program_Error ResponseTooLong)) (\<lambda>_.
          oracle_exit h (ai_key state) (st\<lparr>os_last_response := response\<rparr>) L))))))
      | _ \<Rightarrow> Inl AccountNotEnoughKeys)"

definition request_gpt_ix ::
  "gpt_host \<Rightarrow> address \<Rightarrow> address \<Rightarrow> address \<Rightarrow> address \<Rightarrow> address \<Rightarrow> address \<Rightarrow> address \<Rightarrow>
     solana_instruction" where
  "request_gpt_ix h state treasury interaction llm_context authority system oprogram =
     \<lparr>si_program_id = gpt_ID,
      si_accounts =
        map (\<lambda>a. \<lparr>am_pubkey = a, am_is_signer = False, am_is_writable = True\<rparr>)
          [state, treasury, interaction, llm_context] @
        [\<lparr>am_pubkey = authority, am_is_signer = True, am_is_writable = False\<rparr>] @
        map (\<lambda>a. \<lparr>am_pubkey = a, am_is_signer = False, am_is_writable = False\<rparr>) [system, oprogram],
      si_data = request_gpt_data h\<rparr>"

definition schedule ::
  "gpt_host \<Rightarrow> u16 \<Rightarrow> account_info list \<Rightarrow> ledger \<Rightarrow> gpt_err + ledger" where
  "schedule h task_id accounts L =
     (case accounts of
        payer # state # treasury # llm_context # interaction # task_queue # authority # task #
          queue_authority # oprogram # system # tuktuk # _ \<Rightarrow>
          and_then (signed payer) (\<lambda>_.
          and_then (oracle_load h L (ai_key state)) (\<lambda>st.
          and_then (context_account h (L (ai_key llm_context))) (\<lambda>_.
          and_then (oracle_program h oprogram) (\<lambda>_.
          and_then (system_program h system) (\<lambda>_.
          and_then (program h (\<lambda>p. p = TUKTUK_ID h) tuktuk) (\<lambda>_.
          and_then (writable payer) (\<lambda>_.
          and_then (oracle_constraints h state st) (\<lambda>_.
          and_then (seeds_with_bump h gpt_ID treasury_seeds (os_treasury_bump st) treasury) (\<lambda>_.
          and_then (require (ai_key llm_context = os_llm_context st) ConstraintAddress) (\<lambda>_.
          and_then (seeds_canonical h (ai_key oprogram) (interaction_seeds h treasury llm_context)
            interaction) (\<lambda>_.
          and_then (writable interaction) (\<lambda>_.
          and_then (writable task_queue) (\<lambda>_.
          and_then (require (ai_key authority = os_task_queue_authority st) ConstraintAddress) (\<lambda>_.
          and_then (writable task) (\<lambda>_.
          and_then (seeds_canonical h gpt_ID [byte_string ''queue_authority''] queue_authority) (\<lambda>qb.
          and_then (require (os_llm_context st \<noteq> 0) (Program_Error ContextNotInitialized)) (\<lambda>_.
          and_then
            (ok_or (compile_transaction h
               [request_gpt_ix h (ai_key state) (ai_key treasury) (ai_key interaction)
                  (ai_key llm_context) (ai_key authority) (ai_key system) (ai_key oprogram)])
               (Program_Error TaskCompilationFailed)) (\<lambda>tx.
          and_then (queue_task_v0 h (ai_key tuktuk)
            [ai_key payer, ai_key queue_authority, ai_key task_queue, ai_key authority, ai_key task,
             ai_key system]
            \<lparr>qt_trigger = Trigger_Now, qt_transaction = tx, qt_crank_reward = Some 1000001,
             qt_free_tasks = 1, qt_id = task_id, qt_description = ''solana-gpt-oracle request''\<rparr>
            [[byte_string ''queue_authority'', [qb]]] L) (\<lambda>L.
          oracle_exit h (ai_key state) st L)))))))))))))))))))
      | _ \<Rightarrow> Inl AccountNotEnoughKeys)"

section \<open>The program\<close>

datatype gpt_instruction =
    Gpt_Initialize rust_string address
  | Create_Context rust_string
  | Fund_Treasury u64
  | Request_Gpt
  | Process_Oracle_Callback rust_string
  | Schedule u16

text \<open>An argument of type \<open>String\<close> is decoded before the accounts are looked at.\<close>

definition string_argument :: "rust_string \<Rightarrow> gpt_err + unit" where
  "string_argument s = require (utf8_valid s) InstructionDidNotDeserialize"

fun solana_gpt_oracle_scheduler ::
  "gpt_host \<Rightarrow> gpt_instruction \<Rightarrow> account_info list \<Rightarrow> ledger \<Rightarrow> gpt_err + ledger" where
  "solana_gpt_oracle_scheduler h (Gpt_Initialize default_prompt task_queue_authority) accounts L =
     and_then (string_argument default_prompt) (\<lambda>_.
     gpt_initialize h default_prompt task_queue_authority accounts L)"
| "solana_gpt_oracle_scheduler h (Create_Context agent_description) accounts L =
     and_then (string_argument agent_description) (\<lambda>_.
     create_context h agent_description accounts L)"
| "solana_gpt_oracle_scheduler h (Fund_Treasury lamports) accounts L =
     fund_treasury h lamports accounts L"
| "solana_gpt_oracle_scheduler h Request_Gpt accounts L = request_gpt h accounts L"
| "solana_gpt_oracle_scheduler h (Process_Oracle_Callback response) accounts L =
     and_then (string_argument response) (\<lambda>_.
     process_oracle_callback h response accounts L)"
| "solana_gpt_oracle_scheduler h (Schedule task_id) accounts L = schedule h task_id accounts L"

end
