(* ===== verification/Oracle_Steps.thy ===== *)
theory Oracle_Steps
  imports Oracle_Program
begin

text \<open>
  What each instruction of \<open>solana-gpt-oracle\<close> does to the state account, and the program's
  instance of the contract \<open>account_history\<close>. \<open>gpt_law\<close> states what the documentation of the
  system, oracle and scheduling programs promises of their calls.
\<close>

section \<open>What the documentation promises\<close>

definition gpt_init_law :: "gpt_host \<Rightarrow> bool" where
  "gpt_init_law h \<longleftrightarrow>
     length (oracle_discriminator h) = 8 \<and>
     (\<forall>p k n own s L L'. gpt_init_account h p k n own s L = Inr L' \<longrightarrow>
        foreign_change gpt_ID L L' \<and> acc_owner (L k) = system_program_ID \<and>
        acc_owner (L' k) = own \<and> acc_data (L' k) = replicate n 0)"

definition gpt_call_law :: "gpt_host \<Rightarrow> bool" where
  "gpt_call_law h \<longleftrightarrow>
     (\<forall>p k n L L'. system_transfer h p k n L = Inr L' \<longrightarrow> foreign_change gpt_ID L L') \<and>
     (\<forall>p ks s L L'. create_llm_context h p ks s L = Inr L' \<longrightarrow> foreign_change gpt_ID L L') \<and>
     (\<forall>p ks s q d ms ss L L'. interact_with_llm h p ks s q d ms ss L = Inr L' \<longrightarrow>
        foreign_change gpt_ID L L') \<and>
     queue_task_law gpt_ID h"

definition gpt_law :: "gpt_host \<Rightarrow> bool" where
  "gpt_law h \<longleftrightarrow> gpt_init_law h \<and> gpt_call_law h \<and> address_law h"

lemma gpt_init_call:
  "gpt_law h \<Longrightarrow> gpt_init_account h p k n own s L = Inr L' \<Longrightarrow>
     foreign_change gpt_ID L L' \<and> acc_owner (L k) = system_program_ID \<and> acc_owner (L' k) = own \<and>
     acc_data (L' k) = replicate n 0"
  unfolding gpt_law_def gpt_init_law_def by (elim conjE) meson

lemma gpt_calls:
  "gpt_law h \<Longrightarrow> system_transfer h p k n L = Inr L' \<Longrightarrow> foreign_change gpt_ID L L'"
  "gpt_law h \<Longrightarrow> create_llm_context h p ks s L = Inr L' \<Longrightarrow> foreign_change gpt_ID L L'"
  "gpt_law h \<Longrightarrow> interact_with_llm h p ks s q d ms ss L = Inr L' \<Longrightarrow> foreign_change gpt_ID L L'"
  "gpt_law h \<Longrightarrow> queue_task_v0 h p ks t ss L = Inr L' \<Longrightarrow> foreign_change gpt_ID L L'"
  unfolding gpt_law_def gpt_call_law_def queue_task_law_def by (elim conjE, meson)+

lemma oracle_discriminator_length: "gpt_law h \<Longrightarrow> length (oracle_discriminator h) = 8"
  by (simp add: gpt_law_def gpt_init_law_def)

lemma gpt_find:
  "gpt_law h \<Longrightarrow> find_program_address h seeds gpt_ID = (a, b) \<Longrightarrow>
     create_program_address h (seeds @ [[b]]) gpt_ID = Some a"
  by (simp add: gpt_law_def address_law_def)

lemma gpt_ID_not_system [simp]: "gpt_ID \<noteq> system_program_ID" "system_program_ID \<noteq> gpt_ID"
  by (simp_all add: gpt_ID_def system_program_ID_def)

section \<open>The stored state\<close>

definition oracle_at :: "gpt_host \<Rightarrow> address \<Rightarrow> oracle_state \<Rightarrow> ledger \<Rightarrow> bool" where
  "oracle_at h k st L \<longleftrightarrow>
     oracle_state_ok st \<and>
     account_holds gpt_ID (oracle_discriminator h) oracle_state_serialize oracle_state_INIT_SPACE k st L"

lemma oracle_load_at: "oracle_at h k st L \<Longrightarrow> oracle_load h L k = Inr st"
  unfolding oracle_at_def oracle_load_def by (rule oracle_account.load_holds) simp_all

lemma oracle_loaded:
  assumes "oracle_load h L k = Inr st'" and "oracle_at h k st L"
  shows "st' = st"
  using assms oracle_load_at by fastforce

lemma oracle_at_owner: "oracle_at h k st L \<Longrightarrow> acc_owner (L k) = gpt_ID"
  by (simp add: oracle_at_def account_holds_def)

lemma oracle_at_ok: "oracle_at h k st L \<Longrightarrow> oracle_state_ok st"
  by (simp add: oracle_at_def)

text \<open>A call that leaves the program's accounts alone, then the write-back.\<close>

lemma oracle_written:
  assumes f: "foreign_change gpt_ID L L1" and run: "oracle_exit h k st' L1 = Inr L'"
  shows "kept gpt_ID k L L'" and "oracle_at h k st L \<Longrightarrow> oracle_state_ok st' \<Longrightarrow> oracle_at h k st' L'"
proof -
  show "kept gpt_ID k L L'"
    using kept_trans [OF foreign_kept [OF f] account_exit_kept [OF run [unfolded oracle_exit_def]]] .
  show "oracle_at h k st' L'" if "oracle_at h k st L" and "oracle_state_ok st'"
    using oracle_account.exit_after [OF that(2) f _ run [unfolded oracle_exit_def], of st] that
    by (simp add: oracle_at_def)
qed

lemma oracle_constraints_Inr [res_simps]:
  "oracle_constraints h state st = Inr u \<longleftrightarrow>
     create_program_address h (oracle_seeds @ [[os_bump st]]) gpt_ID = Some (ai_key state) \<and>
     ai_is_writable state"
  by (simp add: oracle_constraints_def res_simps)

lemma programs_Inr [res_simps]:
  "system_program h a = Inr u \<longleftrightarrow> ai_key a = system_program_ID \<and> is_executable h (ai_key a)"
  "oracle_program h a = Inr u \<longleftrightarrow> ai_key a = gpt_oracle_ID h \<and> is_executable h (ai_key a)"
  "string_argument s = Inr u \<longleftrightarrow> utf8_valid s"
  by (simp_all add: system_program_def oracle_program_def string_argument_def res_simps)

section \<open>Instructions as operations on the state\<close>

text \<open>The state account an instruction names.\<close>

fun gpt_subject :: "gpt_instruction event \<Rightarrow> address option" where
  "gpt_subject (Fund_Treasury lamports, accounts) = None"
| "gpt_subject (Request_Gpt, state # _) = Some (ai_key state)"
| "gpt_subject (i, _ # state # _) = Some (ai_key state)"
| "gpt_subject _ = None"

fun oracle_after :: "gpt_instruction event \<Rightarrow> oracle_state \<Rightarrow> oracle_state" where
  "oracle_after (Create_Context agent_description, accounts) st =
     st\<lparr>os_llm_context := ai_key (accounts ! 3), os_default_prompt := agent_description\<rparr>"
| "oracle_after (Request_Gpt, accounts) st = st\<lparr>os_requests := saturating_add (os_requests st) 1\<rparr>"
| "oracle_after (Process_Oracle_Callback response, accounts) st = st\<lparr>os_last_response := response\<rparr>"
| "oracle_after _ st = st"

text \<open>
  Who may: a request needs the signature of the configured authority, a response that of the oracle
  program's identity; a context anybody may create.
\<close>

fun gpt_authorised :: "gpt_host \<Rightarrow> gpt_instruction event \<Rightarrow> oracle_state \<Rightarrow> bool" where
  "gpt_authorised h (Gpt_Initialize default_prompt authority, accounts) st \<longleftrightarrow> False"
| "gpt_authorised h (Create_Context agent_description, accounts) st \<longleftrightarrow> ai_is_signer (accounts ! 0)"
| "gpt_authorised h (Request_Gpt, accounts) st \<longleftrightarrow>
     ai_is_signer (accounts ! 4) \<and> ai_key (accounts ! 4) = os_task_queue_authority st \<and>
     ai_key (accounts ! 3) = os_llm_context st \<and> os_llm_context st \<noteq> 0"
| "gpt_authorised h (Process_Oracle_Callback response, accounts) st \<longleftrightarrow>
     ai_is_signer (accounts ! 0) \<and>
     fst (find_program_address h [byte_string ''identity''] (gpt_oracle_ID h)) = ai_key (accounts ! 0)"
| "gpt_authorised h (Schedule task_id, accounts) st \<longleftrightarrow>
     ai_is_signer (accounts ! 0) \<and> ai_key (accounts ! 6) = os_task_queue_authority st \<and>
     os_llm_context st \<noteq> 0"
| "gpt_authorised h (Fund_Treasury lamports, accounts) st \<longleftrightarrow> True"

definition gpt_effect ::
  "gpt_host \<Rightarrow> gpt_instruction event \<Rightarrow> address \<Rightarrow> ledger \<Rightarrow> ledger \<Rightarrow> bool" where
  "gpt_effect h e k L L' \<longleftrightarrow>
     gpt_subject e = Some k \<and> kept gpt_ID k L L' \<and>
     (\<forall>st. oracle_at h k st L \<longrightarrow> gpt_authorised h e st \<and> oracle_at h k (oracle_after e st) L')"

lemma written_effect:
  assumes "gpt_subject e = Some k" and "oracle_load h L k = Inr st'"
    and "foreign_change gpt_ID L L1" and "oracle_exit h k (oracle_after e st') L1 = Inr L'"
    and "gpt_authorised h e st'" and "oracle_state_ok st' \<Longrightarrow> oracle_state_ok (oracle_after e st')"
  shows "gpt_effect h e k L L'"
  using assms oracle_written [OF assms(3,4)] oracle_loaded [OF assms(2)] oracle_at_ok
  by (auto simp: gpt_effect_def)

lemma initialize_state:
  assumes law: "gpt_law h" and utf: "utf8_valid default_prompt"
    and run: "gpt_initialize h default_prompt authority accounts L = Inr L'"
  obtains payer state treasury rest bump treasury_bump
  where "accounts = payer # state # treasury # rest" and "ai_is_signer payer"
    and "acc_owner (L (ai_key state)) = system_program_ID" and "kept gpt_ID (ai_key state) L L'"
    and "create_program_address h (oracle_seeds @ [[bump]]) gpt_ID = Some (ai_key state)"
    and "oracle_at h (ai_key state) \<lparr>os_bump = bump, os_treasury_bump = treasury_bump,
      os_requests = 0, os_llm_context = 0, os_task_queue_authority = authority,
      os_default_prompt = default_prompt, os_last_response = []\<rparr> L'"
proof -
  obtain payer state treasury system rest where
    accounts: "accounts = payer # state # treasury # system # rest"
    using run by (auto simp: gpt_initialize_def split: list.splits)
  let ?st = "\<lambda>bump treasury_bump. \<lparr>os_bump = bump, os_treasury_bump = treasury_bump,
      os_requests = 0, os_llm_context = 0, os_task_queue_authority = authority,
      os_default_prompt = default_prompt, os_last_response = []\<rparr>"
  from run obtain bump treasury_bump L1 L2 where signer: "ai_is_signer payer"
    and pda: "seeds_canonical h gpt_ID oracle_seeds state = (Inr bump :: gpt_err + u8)"
    and init: "gpt_init_account h (ai_key payer) (ai_key state) (8 + oracle_state_INIT_SPACE)
      gpt_ID (oracle_seeds @ [[bump]]) L = Inr L1"
    and init2: "gpt_init_account h (ai_key payer) (ai_key treasury) 0 system_program_ID
      (treasury_seeds @ [[treasury_bump]]) L1 = Inr L2"
    and short: "length default_prompt \<le> 280"
    and exit: "oracle_exit h (ai_key state) (?st bump treasury_bump) L2 = Inr L'"
    unfolding accounts gpt_initialize_def list.case and_then_Inr_iff check_Inr by blast
  note i = gpt_init_call [OF law init] and f = gpt_init_call [OF law init2, THEN conjunct1]
  have same: "same_state (L2 (ai_key state)) (L1 (ai_key state))"
    using foreign_change_same [OF f] i by blast
  with i have own: "acc_owner (L2 (ai_key state)) = gpt_ID"
    and len: "length (acc_data (L2 (ai_key state))) =
      length (oracle_discriminator h) + oracle_state_INIT_SPACE"
    by (simp_all add: same_state_def oracle_discriminator_length [OF law])
  have ok: "oracle_state_ok (?st bump treasury_bump)"
    using utf short by (simp add: oracle_state_ok_def prompt_max_len_def)
  obtain L3 where "oracle_exit h (ai_key state) (?st bump treasury_bump) L2 = Inr L3"
    and "account_holds gpt_ID (oracle_discriminator h) oracle_state_serialize oracle_state_INIT_SPACE
      (ai_key state) (?st bump treasury_bump) L3"
    unfolding oracle_exit_def
    by (rule oracle_account.exit_holds [where L = L2, OF ok own len]) blast
  with exit ok have at: "oracle_at h (ai_key state) (?st bump treasury_bump) L'"
    by (simp add: oracle_at_def)
  have "find_program_address h oracle_seeds gpt_ID = (ai_key state, bump)"
    using pda by (simp add: res_simps)
  note pda = gpt_find [OF law this]
  have "kept gpt_ID (ai_key state) L L'"
    using kept_trans [OF kept_trans [OF foreign_kept foreign_kept [OF f]]
      account_exit_kept [OF exit [unfolded oracle_exit_def]]] i by blast
  then show ?thesis
    using that [OF accounts signer _ _ pda at] i by simp
qed

lemma create_context_effect:
  assumes law: "gpt_law h" and utf: "utf8_valid d" and run: "create_context h d accounts L = Inr L'"
  shows "\<exists>k. gpt_effect h (Create_Context d, accounts) k L L'"
proof -
  obtain payer state counter ctxt system oprogram rest where
    accounts: "accounts = payer # state # counter # ctxt # system # oprogram # rest"
    using run by (auto simp: create_context_def split: list.splits)
  from run obtain st L1 where "ai_is_signer payer" and "oracle_load h L (ai_key state) = Inr st"
    and "length d \<le> 280"
    and c: "create_llm_context h (ai_key oprogram)
      [ai_key payer, ai_key ctxt, ai_key counter, ai_key system] d L = Inr L1"
    and "oracle_exit h (ai_key state) (st\<lparr>os_llm_context := ai_key ctxt, os_default_prompt := d\<rparr>) L1 =
      Inr L'"
    unfolding accounts create_context_def list.case and_then_Inr_iff check_Inr by blast
  then show ?thesis
    using gpt_calls(2) [OF law c] utf
    by (intro exI, rule_tac written_effect)
      (auto simp: accounts oracle_state_ok_def prompt_max_len_def)
qed

lemma request_gpt_effect:
  assumes law: "gpt_law h" and run: "request_gpt h accounts L = Inr L'"
  shows "\<exists>k. gpt_effect h (Request_Gpt, accounts) k L L'"
proof -
  obtain state treasury interaction ctxt authority system oprogram rest where
    accounts: "accounts = state # treasury # interaction # ctxt # authority # system # oprogram # rest"
    using run by (auto simp: request_gpt_def split: list.splits)
  from run obtain st q ks s d ms ss L1 where "oracle_load h L (ai_key state) = Inr st"
    and "ai_is_signer authority" and "ai_key ctxt = os_llm_context st"
    and "ai_key authority = os_task_queue_authority st" and "os_llm_context st \<noteq> 0"
    and c: "interact_with_llm h q ks s gpt_ID d ms ss L = Inr L1"
    and "oracle_exit h (ai_key state) (st\<lparr>os_requests := saturating_add (os_requests st) 1\<rparr>) L1 = Inr L'"
    unfolding accounts request_gpt_def list.case and_then_Inr_iff check_Inr by blast
  then show ?thesis
    using gpt_calls(3) [OF law c]
    by (intro exI, rule_tac written_effect) (auto simp: accounts oracle_state_ok_def)
qed

lemma callback_effect:
  assumes utf: "utf8_valid r" and run: "process_oracle_callback h r accounts L = Inr L'"
  shows "\<exists>k. gpt_effect h (Process_Oracle_Callback r, accounts) k L L'"
proof -
  obtain identity state oprogram rest where accounts: "accounts = identity # state # oprogram # rest"
    using run by (auto simp: process_oracle_callback_def split: list.splits)
  from run obtain st where "ai_is_signer identity" and "oracle_load h L (ai_key state) = Inr st"
    and "length r \<le> 512"
    and "fst (find_program_address h [byte_string ''identity''] (gpt_oracle_ID h)) = ai_key identity"
    and "oracle_exit h (ai_key state) (st\<lparr>os_last_response := r\<rparr>) L = Inr L'"
    by (auto simp: process_oracle_callback_def accounts res_simps)
  then show ?thesis
    using utf
    by (intro exI, rule_tac written_effect [OF _ _ foreign_change_refl])
      (auto simp: accounts oracle_state_ok_def response_max_len_def)
qed

lemma gpt_schedule_effect:
  assumes law: "gpt_law h" and run: "schedule h task_id accounts L = Inr L'"
  shows "\<exists>k. gpt_effect h (Schedule task_id, accounts) k L L'"
proof -
  obtain payer state treasury ctxt interaction queue authority task qa oprogram system tuktuk rest where
    accounts: "accounts = payer # state # treasury # ctxt # interaction # queue # authority # task #
      qa # oprogram # system # tuktuk # rest"
    using run by (auto simp: schedule_def split: list.splits)
  from run obtain st q ks args ss L1 where "ai_is_signer payer"
    and "oracle_load h L (ai_key state) = Inr st"
    and "ai_key authority = os_task_queue_authority st" and "os_llm_context st \<noteq> 0"
    and c: "queue_task_v0 h q ks args ss L = Inr L1"
    and "oracle_exit h (ai_key state) st L1 = Inr L'"
    unfolding accounts schedule_def list.case and_then_Inr_iff check_Inr by blast
  then show ?thesis
    using gpt_calls(4) [OF law c] by (intro exI, rule_tac written_effect) (auto simp: accounts)
qed

lemma fund_treasury_foreign:
  assumes law: "gpt_law h" and run: "fund_treasury h lamports accounts L = Inr L'"
  shows "foreign_change gpt_ID L L'"
proof -
  obtain p k where "system_transfer h p k lamports L = Inr L'"
    using run by (auto simp: fund_treasury_def res_simps split: list.splits)
  then show ?thesis
    by (rule gpt_calls(1) [OF law])
qed

section \<open>The history of the state\<close>

lemma gpt_started_effect:
  assumes law: "gpt_law h" and utf: "utf8_valid prompt"
    and run: "gpt_initialize h prompt authority accounts L = Inr L'"
  shows "\<exists>k. gpt_effect h (Gpt_Initialize prompt authority, accounts) k L L'"
proof (rule initialize_state [OF law utf run])
  fix payer state treasury rest
  assume accounts: "accounts = payer # state # treasury # rest"
    and new: "acc_owner (L (ai_key state)) = system_program_ID" and "kept gpt_ID (ai_key state) L L'"
  moreover have "\<not> oracle_at h (ai_key state) st L" for st
    using new oracle_at_owner [of h "ai_key state" st L] by auto
  ultimately show ?thesis
    by (auto simp: gpt_effect_def)
qed

lemma gpt_run_effect:
  assumes law: "gpt_law h" and run: "solana_gpt_oracle_scheduler h i accounts L = Inr L'"
    and i: "\<And>lamports. i \<noteq> Fund_Treasury lamports"
  shows "\<exists>k. gpt_effect h (i, accounts) k L L'"
proof (cases i)
  case (Gpt_Initialize prompt authority)
  then show ?thesis
    using run gpt_started_effect [OF law, of prompt authority accounts L L'] by (simp add: res_simps)
next
  case (Create_Context d)
  then show ?thesis
    using run create_context_effect [OF law, of d accounts L L'] by (simp add: res_simps)
next
  case Request_Gpt
  then show ?thesis
    using run request_gpt_effect [OF law, of accounts L L'] by simp
next
  case (Process_Oracle_Callback r)
  then show ?thesis
    using run callback_effect [of r h accounts L L'] by (simp add: res_simps)
next
  case (Schedule task_id)
  then show ?thesis
    using run gpt_schedule_effect [OF law, of task_id accounts L L'] by simp
qed (use i in simp)

text \<open>The program keeps the contract, for every host that behaves as documented.\<close>

interpretation gpt_program: account_program "solana_gpt_oracle_scheduler h" gpt_subject gpt_ID
  "oracle_at h" oracle_after "gpt_authorised h" "gpt_law h" for h
proof
  show "oracle_at h k st L'" if "oracle_at h k st L"
    and "acc_owner (L k) = gpt_ID \<Longrightarrow> same_state (L' k) (L k)" for k st L L'
    using that(1) account_holds_same [where k = k and L = L and L' = L', OF _ that(2) [OF oracle_at_owner [OF that(1)]]]
    by (auto simp: oracle_at_def)
next
  fix i accounts L L'
  assume law: "gpt_law h" and run: "solana_gpt_oracle_scheduler h i accounts L = Inr L'"
  show "case gpt_subject (i, accounts) of
      None \<Rightarrow> foreign_change gpt_ID L L'
    | Some k \<Rightarrow> kept gpt_ID k L L' \<and> (\<forall>st. oracle_at h k st L \<longrightarrow>
        gpt_authorised h (i, accounts) st \<and> oracle_at h k (oracle_after (i, accounts) st) L')"
  proof (cases "\<exists>lamports. i = Fund_Treasury lamports")
    case True
    then show ?thesis
      using run fund_treasury_foreign [OF law] by auto
  next
    case False
    then show ?thesis
      using gpt_run_effect [OF law run] by (auto simp: gpt_effect_def)
  qed
qed

end
