(* ===== verification/Oracle_Theorems.thy ===== *)
theory Oracle_Theorems
  imports Oracle_Steps
begin

text \<open>
  The properties of \<open>solana-gpt-oracle\<close>: the state account is the log of what was asked and
  answered, and there is always room for an answer. A concrete host and history show that the
  hypotheses can hold.
\<close>

section \<open>What a history asked for\<close>

fun responses :: "gpt_instruction event list \<Rightarrow> rust_string list" where
  "responses [] = []"
| "responses ((Process_Oracle_Callback response, _) # es) = response # responses es"
| "responses (_ # es) = responses es"

text \<open>The contexts created, with the prompt of each.\<close>

fun contexts :: "gpt_instruction event list \<Rightarrow> (address \<times> rust_string) list" where
  "contexts [] = []"
| "contexts ((Create_Context agent_description, accounts) # es) =
     (ai_key (accounts ! 3), agent_description) # contexts es"
| "contexts (_ # es) = contexts es"

fun requests :: "gpt_instruction event list \<Rightarrow> nat" where
  "requests [] = 0"
| "requests ((Request_Gpt, _) # es) = Suc (requests es)"
| "requests (_ # es) = requests es"

lemma oracle_after_keeps [simp]:
  "os_bump (oracle_after e st) = os_bump st"
  "os_treasury_bump (oracle_after e st) = os_treasury_bump st"
  "os_task_queue_authority (oracle_after e st) = os_task_queue_authority st"
  by (cases "(e, st)" rule: oracle_after.cases; simp)+

lemma history_keeps [simp]:
  "os_bump (fold oracle_after es st) = os_bump st"
  "os_treasury_bump (fold oracle_after es st) = os_treasury_bump st"
  "os_task_queue_authority (fold oracle_after es st) = os_task_queue_authority st"
  by (induction es arbitrary: st) simp_all

lemma history_response:
  "os_last_response (fold oracle_after es st) = last (os_last_response st # responses es)"
  by (induction es arbitrary: st rule: responses.induct) simp_all

lemma history_context:
  "(os_llm_context (fold oracle_after es st), os_default_prompt (fold oracle_after es st)) =
     last ((os_llm_context st, os_default_prompt st) # contexts es)"
  by (induction es arbitrary: st rule: contexts.induct) simp_all

lemma history_requests:
  "unat (os_requests (fold oracle_after es st)) =
     min (2 ^ 64 - 1) (unat (os_requests st) + requests es)"
proof (induction es arbitrary: st rule: requests.induct)
  case 1
  then show ?case
    using unsigned_less [where ?'a = nat and w = "os_requests st"] by simp
qed (simp_all add: unat_saturating_add)

lemma oracle_started:
  assumes law: "gpt_law h"
    and run: "solana_gpt_oracle_scheduler h (Gpt_Initialize prompt authority) accounts L0 = Inr L1"
  shows "\<exists>st. oracle_at h (ai_key (accounts ! 1)) st L1 \<and>
    create_program_address h (oracle_seeds @ [[os_bump st]]) gpt_ID = Some (ai_key (accounts ! 1)) \<and>
    os_task_queue_authority st = authority \<and> os_requests st = 0 \<and> os_llm_context st = 0 \<and>
    os_default_prompt st = prompt \<and> os_last_response st = []"
proof -
  have "utf8_valid prompt" and "gpt_initialize h prompt authority accounts L0 = Inr L1"
    using run by (simp_all add: res_simps)
  then show ?thesis
    by (rule initialize_state [OF law]) force
qed

lemma oracle_exit_fits:
  assumes "oracle_at h k st L" and "oracle_state_ok st'"
  shows "\<exists>L'. oracle_exit h k st' L = Inr L'"
proof -
  have "acc_owner (L k) = gpt_ID"
    and "length (acc_data (L k)) = length (oracle_discriminator h) + oracle_state_INIT_SPACE"
    using assms(1) by (simp_all add: oracle_at_def account_holds_def)
  then show ?thesis
    unfolding oracle_exit_def
    by (rule oracle_account.exit_holds [where L = L, OF assms(2)]) blast
qed

section \<open>A host and a history\<close>

definition gpt_demo_pda :: "u8 list list \<Rightarrow> address \<Rightarrow> address" where
  "gpt_demo_pda seeds p = (if p = gpt_ID then 1000 else 2000) + of_nat (length (hd seeds))"

definition gpt_demo_new :: "address \<Rightarrow> account \<Rightarrow> ledger \<Rightarrow> gpt_err + ledger" where
  "gpt_demo_new k a L =
     (if acc_owner (L k) = system_program_ID then Inr (L(k := a)) else Inl AccountDidNotSerialize)"

definition gpt_demo_context :: account where
  "gpt_demo_context = \<lparr>acc_lamports = 1, acc_owner = 80, acc_data = [1]\<rparr>"

definition gpt_demo_host :: gpt_host where
  "gpt_demo_host =
     \<lparr>create_program_address = (\<lambda>seeds p. Some (gpt_demo_pda seeds p)),
      find_program_address = (\<lambda>seeds p. (gpt_demo_pda (seeds @ [[255]]) p, 255)),
      is_executable = (\<lambda>_. True), is_token_program = (\<lambda>_. False), associated_token_ID = 8,
      TUKTUK_ID = 81, compile_transaction = (\<lambda>ixs. Some []),
      queue_task_v0 = (\<lambda>p ks args s L. Inr L),
      oracle_discriminator = [1, 2, 3, 4, 5, 6, 7, 8],
      callback_discriminator = [8, 7, 6, 5, 4, 3, 2, 1], request_gpt_data = [9],
      gpt_oracle_ID = 80, context_seed = [1, 2, 3], interaction_seed = [1],
      counter_count = (\<lambda>a. Inr [0, 0, 0, 0]),
      context_account = (\<lambda>a.
        if acc_owner a = 80 then Inr () else Inl AccountOwnedByWrongProgram),
      gpt_init_account = (\<lambda>p k n own s.
        gpt_demo_new k \<lparr>acc_lamports = 1, acc_owner = own, acc_data = replicate n 0\<rparr>),
      system_transfer = (\<lambda>p k n L. Inr L),
      create_llm_context = (\<lambda>p ks s. gpt_demo_new (ks ! 1) gpt_demo_context),
      interact_with_llm = (\<lambda>p ks s q d ms ss L. Inr L)\<rparr>"

lemma gpt_demo_law: "gpt_law gpt_demo_host"
proof -
  have new: "foreign_change gpt_ID L L'"
    if "gpt_demo_new k a L = Inr L'" and "acc_owner a = gpt_ID \<Longrightarrow> \<exists>n. acc_data a = replicate n 0"
    for k a L L'
    using that by (auto simp: gpt_demo_new_def foreign_change_def same_state_def split: if_splits)
  have "gpt_init_law gpt_demo_host"
    by (auto simp: gpt_init_law_def gpt_demo_host_def intro: new)
      (auto simp: gpt_demo_new_def split: if_splits)
  moreover have "80 \<noteq> gpt_ID"
    by (simp add: gpt_ID_def)
  then have "gpt_call_law gpt_demo_host"
    by (auto simp: gpt_call_law_def queue_task_law_def gpt_demo_host_def gpt_demo_context_def intro: new)
  moreover have "address_law gpt_demo_host"
    by (auto simp: address_law_def gpt_demo_host_def)
  ultimately show ?thesis
    by (simp add: gpt_law_def)
qed

definition gpt_info :: "address \<Rightarrow> account_info" where
  "gpt_info k = \<lparr>ai_key = k, ai_is_signer = (k \<in> {10, 50, 60, 2008}), ai_is_writable = True\<rparr>"

definition gpt_state :: "nat \<Rightarrow> address \<Rightarrow> rust_string \<Rightarrow> rust_string \<Rightarrow> oracle_state" where
  "gpt_state n c p r =
     \<lparr>os_bump = 255, os_treasury_bump = 255, os_requests = of_nat n, os_llm_context = c,
      os_task_queue_authority = 60, os_default_prompt = p, os_last_response = r\<rparr>"

definition gpt_stored :: "oracle_state \<Rightarrow> account" where
  "gpt_stored st =
     \<lparr>acc_lamports = 1, acc_owner = gpt_ID,
      acc_data = [1, 2, 3, 4, 5, 6, 7, 8] @ oracle_state_serialize st @
        replicate (oracle_state_INIT_SPACE - length (oracle_state_serialize st)) 0\<rparr>"

text \<open>The initializer is user 10, the authority 60; user 50 is a stranger.\<close>

definition gpt_events :: "gpt_instruction event list" where
  "gpt_events =
     [(Create_Context [104, 105], map gpt_info [50, 1012, 2007, 2003, 0, 80]),
      (Request_Gpt, map gpt_info [1012, 1008, 2001, 2003, 60, 0, 80]),
      (Process_Oracle_Callback [111, 107], map gpt_info [2008, 1012, 80])]"

definition gpt_ledger :: "bool \<Rightarrow> oracle_state \<Rightarrow> ledger" where
  "gpt_ledger created st = (\<lambda>_. closed_account)
     (1008 := \<lparr>acc_lamports = 1, acc_owner = system_program_ID, acc_data = []\<rparr>,
      2003 := if created then gpt_demo_context else closed_account, 1012 := gpt_stored st)"

lemma gpt_demo_fields [simp]:
  "oracle_discriminator gpt_demo_host = [1, 2, 3, 4, 5, 6, 7, 8]"
  "create_program_address gpt_demo_host seeds p = Some (gpt_demo_pda seeds p)"
  "find_program_address gpt_demo_host seeds p = (gpt_demo_pda (seeds @ [[255]]) p, 255)"
  "is_executable gpt_demo_host k" "gpt_oracle_ID gpt_demo_host = 80"
  "context_seed gpt_demo_host = [1, 2, 3]" "interaction_seed gpt_demo_host = [1]"
  "counter_count gpt_demo_host a = Inr [0, 0, 0, 0]"
  "context_account gpt_demo_host a =
     (if acc_owner a = 80 then Inr () else Inl AccountOwnedByWrongProgram)"
  "gpt_init_account gpt_demo_host q k n own s =
     gpt_demo_new k \<lparr>acc_lamports = 1, acc_owner = own, acc_data = replicate n 0\<rparr>"
  "create_llm_context gpt_demo_host q ks txt = gpt_demo_new (ks ! 1) gpt_demo_context"
  "interact_with_llm gpt_demo_host q ks txt r d ms ss L = Inr L"
  by (simp_all add: gpt_demo_host_def)

lemma gpt_demo_seeds [simp]:
  "gpt_demo_pda (oracle_seeds @ bs) gpt_ID = 1012" "gpt_demo_pda (treasury_seeds @ bs) gpt_ID = 1008"
  "gpt_demo_pda (s # bs) 80 = 2000 + of_nat (length s)"
  by (simp_all add: gpt_demo_pda_def oracle_seeds_def treasury_seeds_def byte_string_def gpt_ID_def)

lemma gpt_demo_exit:
  assumes "acc_lamports (L k) = 1" and "acc_owner (L k) = gpt_ID"
    and "length (acc_data (L k)) = 8 + oracle_state_INIT_SPACE"
    and "length (oracle_state_serialize st) \<le> oracle_state_INIT_SPACE"
    and "drop (length ([1, 2, 3, 4, 5, 6, 7, 8 :: u8] @ oracle_state_serialize st)) (acc_data (L k)) =
      replicate (oracle_state_INIT_SPACE - length (oracle_state_serialize st)) 0"
  shows "oracle_exit gpt_demo_host k st L = Inr (L(k := gpt_stored st))"
  using assms
  by (cases "L k") (simp add: oracle_exit_def account_exit_def write_over_def gpt_stored_def)

lemma gpt_demo_write [simp]:
  assumes "length (oracle_state_serialize st) \<le> length (oracle_state_serialize st')"
    and "length (oracle_state_serialize st') \<le> oracle_state_INIT_SPACE"
  shows "oracle_exit gpt_demo_host 1012 st' (gpt_ledger c st) = Inr (gpt_ledger c st')"
  using assms by (subst gpt_demo_exit) (simp_all add: gpt_ledger_def gpt_stored_def)

lemma gpt_demo_at:
  "oracle_state_ok st \<Longrightarrow> oracle_at gpt_demo_host 1012 st (gpt_ledger c st)"
  using oracle_account.serialize_fits [of st]
  by (simp add: oracle_at_def account_holds_def gpt_ledger_def gpt_stored_def)

lemma gpt_state_length:
  "length (oracle_state_serialize (gpt_state n c p r)) = 82 + length p + length r"
  by (simp add: oracle_state_serialize_def gpt_state_def)

lemma gpt_state_ok:
  "set p \<subseteq> {0..<128} \<Longrightarrow> set r \<subseteq> {0..<128} \<Longrightarrow> length p \<le> 280 \<Longrightarrow> length r \<le> 512 \<Longrightarrow>
     oracle_state_ok (gpt_state n c p r)"
  by (auto simp: oracle_state_ok_def gpt_state_def prompt_max_len_def response_max_len_def
      intro!: utf8_valid_ascii)

lemma gpt_demo_load [simp]:
  "oracle_state_ok st \<Longrightarrow> oracle_load gpt_demo_host (gpt_ledger c st) 1012 = Inr st"
  by (rule oracle_load_at [OF gpt_demo_at])

lemmas gpt_checks = gpt_info_def signed_def writable_def require_def seeds_with_bump_def
  oracle_constraints_def program_def system_program_def oracle_program_def seeds_canonical_def
  gpt_demo_new_def string_argument_def interaction_seeds_def byte_string_def

definition gpt_started :: oracle_state where
  "gpt_started = gpt_state 0 0 [63] []"

definition gpt_asked :: oracle_state where
  "gpt_asked = gpt_state 0 2003 [104, 105] []"

definition gpt_requested :: oracle_state where
  "gpt_requested = gpt_state 1 2003 [104, 105] []"

definition gpt_answered :: oracle_state where
  "gpt_answered = gpt_state 1 2003 [104, 105] [111, 107]"

lemmas gpt_stage_defs = gpt_started_def gpt_asked_def gpt_requested_def gpt_answered_def

lemma gpt_stages_ok [simp]:
  "oracle_state_ok gpt_started" "oracle_state_ok gpt_asked" "oracle_state_ok gpt_requested"
  by (simp_all add: gpt_stage_defs gpt_state_ok)

lemma gpt_stage_lengths [simp]:
  "length (oracle_state_serialize gpt_started) = 83" "length (oracle_state_serialize gpt_asked) = 84"
  "length (oracle_state_serialize gpt_requested) = 84"
  "length (oracle_state_serialize gpt_answered) = 86"
  "oracle_state_INIT_SPACE = 874"
  by (simp_all add: gpt_stage_defs gpt_state_length oracle_state_INIT_SPACE_def prompt_max_len_def
      response_max_len_def)

lemma gpt_ascii: "utf8_valid [63]" "utf8_valid [104, 105]" "utf8_valid [111, 107]"
  by (simp_all add: utf8_valid_ascii)

lemma gpt_demo_initialize:
  "solana_gpt_oracle_scheduler gpt_demo_host (Gpt_Initialize [63] 60)
     (map gpt_info [10, 1012, 1008, 0]) (\<lambda>_. closed_account) = Inr (gpt_ledger False gpt_started)"
proof -
  have "gpt_ledger False gpt_started = (\<lambda>_. closed_account)
      (1012 := gpt_stored gpt_started,
       1008 := \<lparr>acc_lamports = 1, acc_owner = system_program_ID, acc_data = []\<rparr>)"
    by (auto simp: gpt_ledger_def fun_eq_iff)
  moreover have "gpt_started = \<lparr>os_bump = 255, os_treasury_bump = 255, os_requests = 0,
      os_llm_context = 0, os_task_queue_authority = 60, os_default_prompt = [63],
      os_last_response = []\<rparr>"
    by (simp add: gpt_started_def gpt_state_def)
  ultimately show ?thesis
    by (simp add: gpt_initialize_def gpt_checks gpt_ascii gpt_demo_exit closed_account_def
        system_program_ID_def fun_upd_twist)
qed

lemma gpt_demo_create:
  "solana_gpt_oracle_scheduler gpt_demo_host (Create_Context [104, 105])
     (map gpt_info [50, 1012, 2007, 2003, 0, 80]) (gpt_ledger False gpt_started) =
     Inr (gpt_ledger True gpt_asked)"
proof -
  have "(gpt_ledger False gpt_started)(2003 := gpt_demo_context) = gpt_ledger True gpt_started"
    by (simp add: gpt_ledger_def fun_upd_twist)
  moreover have "gpt_ledger False gpt_started 2003 = closed_account"
    by (simp add: gpt_ledger_def)
  moreover have "gpt_started\<lparr>os_llm_context := 2003, os_default_prompt := [104, 105]\<rparr> = gpt_asked"
    by (simp add: gpt_stage_defs gpt_state_def)
  ultimately show ?thesis
    by (simp add: create_context_def gpt_checks gpt_ascii system_program_ID_def closed_account_def)
qed

lemma gpt_demo_request:
  "solana_gpt_oracle_scheduler gpt_demo_host Request_Gpt
     (map gpt_info [1012, 1008, 2001, 2003, 60, 0, 80]) (gpt_ledger True gpt_asked) =
     Inr (gpt_ledger True gpt_requested)"
proof -
  have "gpt_asked\<lparr>os_requests := saturating_add (os_requests gpt_asked) 1\<rparr> = gpt_requested"
    by (simp add: gpt_stage_defs gpt_state_def saturating_add_def checked_add_def)
  moreover have "acc_owner (gpt_ledger True gpt_asked 2003) = 80"
    by (simp add: gpt_ledger_def gpt_demo_context_def)
  moreover have "os_treasury_bump gpt_asked = 255" "os_llm_context gpt_asked = 2003"
      "os_task_queue_authority gpt_asked = 60"
    by (simp_all add: gpt_asked_def gpt_state_def)
  ultimately show ?thesis
    by (simp add: request_gpt_def gpt_checks system_program_ID_def)
qed

lemma gpt_demo_callback:
  "solana_gpt_oracle_scheduler gpt_demo_host (Process_Oracle_Callback [111, 107])
     (map gpt_info [2008, 1012, 80]) (gpt_ledger True gpt_requested) =
     Inr (gpt_ledger True gpt_answered)"
proof -
  have "gpt_requested\<lparr>os_last_response := [111, 107]\<rparr> = gpt_answered"
    by (simp add: gpt_stage_defs gpt_state_def)
  then show ?thesis
    by (simp add: process_oracle_callback_def gpt_checks gpt_ascii)
qed

section \<open>The properties\<close>

text \<open>C39: from \<open>initialize\<close> on, whatever other instructions and programs do, the state account can
  be read and is the log of its history: its authority is the one of \<open>initialize\<close>, it counts the
  requests (saturating), and it holds the last context created with its prompt, and the last response.
  Its strings are valid texts within their maximum lengths. Every request was signed by the
  authority, and every response by the identity of the oracle program.\<close>

theorem oracle_state_is_history:
  assumes "gpt_law h"
    and "solana_gpt_oracle_scheduler h (Gpt_Initialize prompt authority) accounts L0 = Inr L1"
    and "history_run (solana_gpt_oracle_scheduler h) (\<lambda>e. gpt_subject e = Some (ai_key (accounts ! 1)))
      (foreign_change gpt_ID) L1 es L"
  shows "(\<exists>st. oracle_load h L (ai_key (accounts ! 1)) = Inr st \<and> oracle_state_ok st \<and>
      os_task_queue_authority st = authority \<and>
      unat (os_requests st) = min (2 ^ 64 - 1) (requests es) \<and>
      (os_llm_context st, os_default_prompt st) = last ((0, prompt) # contexts es) \<and>
      os_last_response st = last ([] # responses es)) \<and>
    (\<forall>infos. (Request_Gpt, infos) \<in> set es \<longrightarrow>
      ai_is_signer (infos ! 4) \<and> ai_key (infos ! 4) = authority) \<and>
    (\<forall>response infos. (Process_Oracle_Callback response, infos) \<in> set es \<longrightarrow>
      ai_is_signer (infos ! 0) \<and>
      fst (find_program_address h [byte_string ''identity''] (gpt_oracle_ID h)) = ai_key (infos ! 0))"
proof -
  obtain st0 where at: "oracle_at h (ai_key (accounts ! 1)) st0 L1"
    and st0: "os_task_queue_authority st0 = authority" "os_requests st0 = 0" "os_llm_context st0 = 0"
      "os_default_prompt st0 = prompt" "os_last_response st0 = []"
    using oracle_started [OF assms(1,2)] by blast
  have log: "oracle_at h (ai_key (accounts ! 1)) (fold oracle_after es st0) L"
    using gpt_program.history.run_holds [OF assms(3)] at assms(1) by blast
  have who: "\<exists>before. gpt_authorised h e (fold oracle_after before st0)" if e: "e \<in> set es" for e
  proof -
    obtain before after where "es = before @ [e] @ after"
      using split_list [OF e] by auto
    from gpt_program.history.run_authorised [OF assms(3) _ this] at assms(1) show ?thesis
      by blast
  qed
  from who [of "(Request_Gpt, infos)" for infos]
    who [of "(Process_Oracle_Callback response, infos)" for response infos] st0(1)
  show ?thesis
    using oracle_load_at [OF log] oracle_at_ok [OF log] history_response [of es st0]
      history_context [of es st0] history_requests [of es st0]
    by (simp add: st0)
qed

lemma gpt_demo_run:
  "history_run (solana_gpt_oracle_scheduler gpt_demo_host)
     (\<lambda>e. gpt_subject e = Some (ai_key (map gpt_info [10, 1012, 1008, 0] ! 1))) (foreign_change gpt_ID)
     (gpt_ledger False gpt_started) gpt_events (gpt_ledger True gpt_answered)"
proof -
  let ?run = "history_run (solana_gpt_oracle_scheduler gpt_demo_host)
     (\<lambda>e. gpt_subject e = Some (ai_key (map gpt_info [10, 1012, 1008, 0] ! 1))) (foreign_change gpt_ID)
     (gpt_ledger False gpt_started)"
  have "?run [] (gpt_ledger False gpt_started)"
    by (rule history_run.start)
  note 1 = history_run.on [OF this gpt_demo_create]
  note 2 = history_run.on [OF 1 gpt_demo_request]
  note 3 = history_run.on [OF 2 gpt_demo_callback]
  then show ?thesis
    by (simp add: gpt_events_def gpt_info_def)
qed

theorem oracle_state_is_history_witness:
  "\<exists>st. oracle_load gpt_demo_host (gpt_ledger True gpt_answered) 1012 = Inr st \<and>
     oracle_state_ok st \<and> os_task_queue_authority st = 60 \<and> unat (os_requests st) = 1 \<and>
     (os_llm_context st, os_default_prompt st) = (2003, [104, 105]) \<and>
     os_last_response st = [111, 107]"
  using oracle_state_is_history [OF gpt_demo_law gpt_demo_initialize gpt_demo_run]
  by (simp add: gpt_events_def gpt_info_def)

text \<open>C40: (process_oracle_callback) An answer is never lost for lack of room: at any time after
  \<open>initialize\<close> the callback is accepted exactly when the response is a valid text of at most 512
  bytes, the identity of the oracle program signs, and the accounts are the right ones.\<close>

theorem response_accepted_iff:
  assumes "gpt_law h"
    and "solana_gpt_oracle_scheduler h (Gpt_Initialize prompt authority) accounts L0 = Inr L1"
    and "history_run (solana_gpt_oracle_scheduler h) (\<lambda>e. gpt_subject e = Some (ai_key (accounts ! 1)))
      (foreign_change gpt_ID) L1 es L"
    and "ai_key state = ai_key (accounts ! 1)"
  shows "(\<exists>L'. solana_gpt_oracle_scheduler h (Process_Oracle_Callback response)
        (identity # state # oprogram # rest) L = Inr L') \<longleftrightarrow>
      utf8_valid response \<and> length response \<le> 512 \<and> ai_is_signer identity \<and>
      fst (find_program_address h [byte_string ''identity''] (gpt_oracle_ID h)) = ai_key identity \<and>
      ai_key oprogram = gpt_oracle_ID h \<and> is_executable h (gpt_oracle_ID h) \<and> ai_is_writable state"
proof -
  obtain st0 where at: "oracle_at h (ai_key (accounts ! 1)) st0 L1"
    and pda: "create_program_address h (oracle_seeds @ [[os_bump st0]]) gpt_ID =
      Some (ai_key (accounts ! 1))"
    using oracle_started [OF assms(1,2)] by blast
  let ?st = "fold oracle_after es st0"
  have log: "oracle_at h (ai_key state) ?st L"
    using gpt_program.history.run_holds [OF assms(3)] at assms(1,4) by auto
  have "\<exists>L'. oracle_exit h (ai_key state) (?st\<lparr>os_last_response := response\<rparr>) L = Inr L'"
    if "utf8_valid response" and "length response \<le> 512"
    by (rule oracle_exit_fits [OF log]) (use that oracle_at_ok [OF log] in
      \<open>simp add: oracle_state_ok_def response_max_len_def\<close>)
  then show ?thesis
    using oracle_load_at [OF log] pda assms(4)
    by (cases "find_program_address h [byte_string ''identity''] (gpt_oracle_ID h)")
      (auto simp: process_oracle_callback_def res_simps)
qed

theorem response_accepted_iff_witness:
  "\<exists>L'. solana_gpt_oracle_scheduler gpt_demo_host (Process_Oracle_Callback (replicate 512 97))
     [gpt_info 2008, gpt_info 1012, gpt_info 80] (gpt_ledger True gpt_answered) = Inr L'"
  using response_accepted_iff [OF gpt_demo_law gpt_demo_initialize gpt_demo_run, of "gpt_info 1012"
      "replicate 512 97" "gpt_info 2008" "gpt_info 80" "[]"]
  by (simp add: gpt_info_def byte_string_def utf8_valid_ascii)

end
