(* ===== verification/Spec2Isabelle.thy ===== *)
theory Spec2Isabelle
  imports Fundraiser_Theorems Escrow_Theorems Todo_Theorems Generic_Storage Whitelist_Theorems
    Staking_Theorems Anchor_Escrow_Theorems Rollup_Theorems Oracle_Theorems
begin

text \<open>
  \<^bold>\<open>A verification of the programs of this repository.\<close>

  The repository is a course's collection of Rust programs: seven Solana programs, two of them
  written with pinocchio and five with Anchor, and two host programs. They do not call each other;
  what they share is the chain, its token programs and the way Anchor checks accounts, and the
  development shares the theories of those. Every program is modelled whole: its data, each of its
  instructions or commands with every check in the order of the code, and its entry point. Every
  definition computes. Code that is not in the repository is a parameter.

  \<^bold>\<open>The library.\<close>

  \<^item> \<^verbatim>\<open>Prelude\<close>: fallible results (\<^verbatim>\<open>Inl\<close> an error, \<^verbatim>\<open>Inr\<close> a value) with \<^verbatim>\<open>and_then\<close>, \<^verbatim>\<open>ok_or\<close>, and the
    collections \<^verbatim>\<open>res_simps\<close> and \<^verbatim>\<open>codec_simps\<close> that carry most proofs.
  \<^item> \<^verbatim>\<open>Rust_Int\<close>, \<^verbatim>\<open>Rust_I64\<close>, \<^verbatim>\<open>Rust_String\<close>: checked, saturating and truncating integer operations at
    their width, little-endian bytes, the decimal text of \<^verbatim>\<open>i64\<close>, UTF-8 and the Borsh string.
  \<^item> \<^verbatim>\<open>Solana\<close>: accounts, account memory (a total map from addresses), the errors of a program, and the
    record \<^verbatim>\<open>runtime\<close> of the calls the pinocchio programs make. \<^verbatim>\<open>Account_Codec\<close> is the locale of a
    struct laid over account data, \<^verbatim>\<open>Token_Ledger\<close> counts the tokens an owner holds, and
    \<^verbatim>\<open>Reference_Runtime\<close> is a runtime that keeps every promise the theorems ask for.
  \<^item> \<^verbatim>\<open>Anchor\<close>, \<^verbatim>\<open>Anchor_Account\<close>, \<^verbatim>\<open>Anchor_History\<close>: the errors and checks that Anchor generates; loading,
    writing back (a closed account is skipped, another program's is not written) and closing an account; the locale \<^verbatim>\<open>anchor_account\<close> of an account type's encoding;
    the locales \<^verbatim>\<open>account_history\<close> and \<^verbatim>\<open>account_program\<close>, by which a program that shows what one
    instruction does to one account gets the history of every account. \<^verbatim>\<open>Task_Queue\<close> holds what two
    programs pass to the scheduler tuktuk.

  \<^bold>\<open>The programs.\<close> Each has its definitions in the theories named \<^verbatim>\<open>_State\<close>, \<^verbatim>\<open>_Vault\<close>,
  \<^verbatim>\<open>_Codec\<close>, \<^verbatim>\<open>_Attributes\<close> or \<^verbatim>\<open>_Program\<close>, what one instruction does in \<^verbatim>\<open>_Effects\<close>, \<^verbatim>\<open>_Touches\<close>,
  \<^verbatim>\<open>_Refinement\<close> or \<^verbatim>\<open>_Steps\<close>, what is never refused in \<^verbatim>\<open>_Available\<close>
  and what always is in \<^verbatim>\<open>_Refusals\<close>, runs of any instructions by anybody in \<^verbatim>\<open>_Steps\<close>, \<^verbatim>\<open>_Runs\<close>, \<^verbatim>\<open>_Session\<close> or \<^verbatim>\<open>_Collection\<close>, and
  its properties with a concrete host in \<^verbatim>\<open>_Theorems\<close>.

  \<^item> \<^verbatim>\<open>src/pinocchio-fundraiser\<close>, theories \<^verbatim>\<open>Fundraiser_*\<close>: a campaign that collects tokens until it
    ends. \<^verbatim>\<open>Fundraiser_State\<close> has the two account structs (\<^verbatim>\<open>state/\<close>), \<^verbatim>\<open>Fundraiser_Program\<close> the four
    instructions and their helpers (\<^verbatim>\<open>instructions/\<close>, \<^verbatim>\<open>lib.rs\<close>). \<^verbatim>\<open>Fundraiser_Campaign\<close> is the abstract
    campaign without accounts, bytes and calls; \<^verbatim>\<open>Fundraiser_Refinement\<close> shows that every accepted
    instruction is a step of it, and \<^verbatim>\<open>Fundraiser_Steps\<close> that over any run its books balance and the
    bumps it stores derive its addresses. \<^verbatim>\<open>Fundraiser_Available\<close> shows from both that an owed refund goes
    through. Shown: solvency, caps, refunds once and never refused after an end below the target, payout
    and refund exclude each other.
  \<^item> \<^verbatim>\<open>src/accel-p-escrow\<close>, theories \<^verbatim>\<open>Escrow_*\<close>: make, take and refund of a swap, on raw accounts.
    \<^verbatim>\<open>Escrow_Steps\<close> has the abstract offer; every instruction is a step of it at every address, an
    open offer is backed by its vault, a take pays both sides at the terms.
  \<^item> \<^verbatim>\<open>src/programs/anchor-escrow-q2-2026\<close>, theories \<^verbatim>\<open>Anchor_Escrow_*\<close>: the same swap with Anchor and
    any token program. An offer keeps its terms until a take or a refund settles it.
  \<^item> \<^verbatim>\<open>src/whitelist_transfer_hook_q2\<close>, theories \<^verbatim>\<open>Whitelist_*\<close>: a vault with a list of allowances that a
    transfer hook consults. The hook accepts exactly what the admin's edits allow.
  \<^item> \<^verbatim>\<open>src/programs/anchor-core-staking\<close>, theories \<^verbatim>\<open>Staking_*\<close>: assets are frozen while staked and earn
    by the day. The records are text in attribute lists: \<^verbatim>\<open>Staking_Attributes\<close> has the loops over them.
    \<^verbatim>\<open>Staking_Session\<close> is one asset from stake to unstake, \<^verbatim>\<open>Staking_Refusals\<close> what the handlers
    refuse in the states that the others leave, \<^verbatim>\<open>Staking_Collection\<close> the counters of a collection over
    its whole life.
  \<^item> \<^verbatim>\<open>src/magicblock_er_example\<close>, theories \<^verbatim>\<open>Rollup_*\<close>: one number per user, set by the user, drawn by a
    randomness oracle, counted up by a scheduler. The account is what its history wrote.
  \<^item> \<^verbatim>\<open>src/solana_gpt_oracle_tuktuk\<close>, theories \<^verbatim>\<open>Oracle_*\<close>: a prompt, paid requests to an oracle and its
    responses. The account is the log of its history, and there is always room for a response.
  \<^item> \<^verbatim>\<open>src/persistent-todo\<close>, theories \<^verbatim>\<open>Todo_*\<close>: a queue in a file that is replaced atomically.
    \<^verbatim>\<open>Todo_Queue\<close> proves \<^verbatim>\<open>queue.rs\<close> first in, first out as an instance of a locale; \<^verbatim>\<open>Todo_Store\<close> is \<^verbatim>\<open>main.rs\<close>,
    for any codec that keeps \<^verbatim>\<open>borsh_law\<close>; \<^verbatim>\<open>Todo_Codec\<close> has the format borsh documents and proves that it does.
    The commands implement list operations, a save is all or nothing, the identifiers in
    the list stay distinct and below the next one.
  \<^item> \<^verbatim>\<open>src/generic-storage\<close>, theory \<^verbatim>\<open>Generic_Storage\<close>: a container of serialized bytes. It answers
    every sequence of calls as a cell that keeps the value itself would, for values its formats are
    \<^verbatim>\<open>faithful\<close> to, and converting the format keeps the value.

  \<^bold>\<open>How an Anchor instruction is modelled.\<close> The accounts are matched in the order of the struct;
  signers, loaded accounts and programs are checked in that order; then \<^verbatim>\<open>init\<close> accounts are created,
  the constraints run, then the handler, and the accounts declared \<^verbatim>\<open>mut\<close> are written back. Reads go
  to account memory at the time of the read, so two names of one account alias, as on chain.

  \<^bold>\<open>What is assumed.\<close> Only documented behaviour of code outside the repository, as predicates that
  are hypotheses of the theorems: \<^verbatim>\<open>documented_runtime\<close> (system, token and associated-token program),
  \<^verbatim>\<open>swap_law\<close>, \<^verbatim>\<open>anchor_law\<close>, \<^verbatim>\<open>mpl_law\<close>, \<^verbatim>\<open>er_law\<close>, \<^verbatim>\<open>gpt_law\<close> (what each called program may touch), \<^verbatim>\<open>address_law\<close>
  (a found address can be derived again), \<^verbatim>\<open>borsh_law\<close> (what is encoded is decoded), \<^verbatim>\<open>faithful\<close> (so is
  one value in one format), \<^verbatim>\<open>transfer_available\<close> and \<^verbatim>\<open>close_available\<close> (the token program carries out a
  transfer it has no documented reason to refuse, the runtime the emptying of an account), and that a
  program alone changes the data of accounts it owns (\<^verbatim>\<open>foreign_change\<close>). Nobody signs for a program's
  derived address but the program (\<^verbatim>\<open>honest_accounts\<close>, \<^verbatim>\<open>users\<close>). Each theory of properties gives a host that
  keeps all of them and a run on it, so no hypothesis is empty.

  \<^bold>\<open>Bounds and loops.\<close> Integers have their width; the theorems hold for all values, overflow
  included, and say where an operation saturates, fails or panics. Every loop of the sources runs over
  a list and is structural recursion; no fuel is used. Runs are inductive relations, of any length.

  \<^bold>\<open>Not modelled.\<close> The tests, scripts and migrations, which only call the programs; log messages,
  compute budget and rent; Anchor's check that one mutable account is not passed twice (the
  models accept more, so what the theorems say of accepted instructions holds for the code); the
  command-line parser of persistent-todo; the data formats of the crates bincode and serde\_json, which
  generic-storage calls; the instruction that the attribute \<^verbatim>\<open>#[ephemeral]\<close> adds to er-state-account
  for accounts that come back; the inside of the token, mpl-core, rollup, randomness, oracle and
  scheduling programs.
\<close>

end
